theory Spec2Isabelle
  imports Main "HOL-Library.Sublist" "HOL-Library.Multiset" "HOL-Library.Word"
    "HOL-Library.Char_ord" "HOL-Library.List_Lexorder"
begin

section \<open>Go strings\<close>

text \<open>
  A Go string is a sequence of bytes; \<^typ>\<open>string\<close> (a list of 8-bit characters) is the
  same thing. The functions of package \<open>strings\<close> and \<open>strconv\<close> that the program calls are
  written out below on bytes; where Go decodes UTF-8 (white space, case folding) the
  encodings of the code points concerned are listed.
\<close>

text \<open>
  \<open>unicode.IsSpace\<close>: the six ASCII white-space bytes, then U+0085, U+00A0, U+1680,
  U+2000 to U+200A, U+2028, U+2029, U+202F, U+205F and U+3000 in UTF-8.
\<close>

definition ws_encodings :: "string list" where
  "ws_encodings =
    [[CHR 0x20], [CHR 0x09], [CHR 0x0A], [CHR 0x0B], [CHR 0x0C], [CHR 0x0D],
     [CHR 0xC2, CHR 0x85], [CHR 0xC2, CHR 0xA0],
     [CHR 0xE1, CHR 0x9A, CHR 0x80],
     [CHR 0xE2, CHR 0x80, CHR 0x80], [CHR 0xE2, CHR 0x80, CHR 0x81],
     [CHR 0xE2, CHR 0x80, CHR 0x82], [CHR 0xE2, CHR 0x80, CHR 0x83],
     [CHR 0xE2, CHR 0x80, CHR 0x84], [CHR 0xE2, CHR 0x80, CHR 0x85],
     [CHR 0xE2, CHR 0x80, CHR 0x86], [CHR 0xE2, CHR 0x80, CHR 0x87],
     [CHR 0xE2, CHR 0x80, CHR 0x88], [CHR 0xE2, CHR 0x80, CHR 0x89],
     [CHR 0xE2, CHR 0x80, CHR 0x8A],
     [CHR 0xE2, CHR 0x80, CHR 0xA8], [CHR 0xE2, CHR 0x80, CHR 0xA9],
     [CHR 0xE2, CHR 0x80, CHR 0xAF], [CHR 0xE2, CHR 0x81, CHR 0x9F],
     [CHR 0xE3, CHR 0x80, CHR 0x80]]"

text \<open>The rest of \<open>s\<close> after the first listed encoding that starts it, if any.\<close>

fun stripAny :: "string list \<Rightarrow> string \<Rightarrow> string option" where
  "stripAny [] s = None"
| "stripAny (e # es) s =
     (if e \<noteq> [] \<and> prefix e s then Some (drop (length e) s) else stripAny es s)"

function trimPrefixes :: "string list \<Rightarrow> string \<Rightarrow> string" where
  "trimPrefixes encs s =
     (case stripAny encs s of None \<Rightarrow> s | Some r \<Rightarrow> trimPrefixes encs r)"
  by pat_completeness auto

lemma stripAny_shorter: "stripAny encs s = Some r \<Longrightarrow> length r < length s"
  by (induction encs) (auto split: if_splits simp: prefix_def)

termination trimPrefixes
  by (relation "measure (\<lambda>(encs, s). length s)") (auto dest: stripAny_shorter)

text \<open>\<open>strings.TrimSpace\<close>: white space is cut from the left, then from the right.\<close>

definition TrimSpace :: "string \<Rightarrow> string" where
  "TrimSpace s = rev (trimPrefixes (map rev ws_encodings) (rev (trimPrefixes ws_encodings s)))"

text \<open>\<open>strings.TrimPrefix\<close>: one occurrence of the prefix is removed.\<close>

definition TrimPrefix :: "string \<Rightarrow> string \<Rightarrow> string" where
  "TrimPrefix s p = (if prefix p s then drop (length p) s else s)"

text \<open>\<open>strings.ReplaceAll\<close> with one-byte old and new strings.\<close>

definition ReplaceAll :: "string \<Rightarrow> char \<Rightarrow> char \<Rightarrow> string" where
  "ReplaceAll s old new = map (\<lambda>c. if c = old then new else c) s"

text \<open>\<open>strings.Split\<close> with a one-byte separator; the empty string gives one empty part.\<close>

fun Split :: "string \<Rightarrow> char \<Rightarrow> string list" where
  "Split [] sep = [[]]"
| "Split (c # cs) sep =
     (if c = sep then [] # Split cs sep
      else (case Split cs sep of [] \<Rightarrow> [[c]] | p # ps \<Rightarrow> (c # p) # ps))"

definition isDigit :: "char \<Rightarrow> bool" where
  "isDigit c = (c \<in> set ''0123456789'')"

definition digitVal :: "char \<Rightarrow> nat" where
  "digitVal c = of_char c - 48"

definition decimal :: "string \<Rightarrow> nat" where
  "decimal s = foldl (\<lambda>n c. 10 * n + digitVal c) 0 s"

text \<open>
  \<open>strconv.ParseUint(s, 10, 64)\<close>: digits only, at least one, and the value fits 64
  bits; every other input is an error.
\<close>

definition ParseUint :: "string \<Rightarrow> nat option" where
  "ParseUint s =
     (if s = [] \<or> \<not> list_all isDigit s then None
      else if decimal s < 2 ^ 64 then Some (decimal s) else None)"


text \<open>Go compares strings byte by byte.\<close>

fun bytesLess :: "string \<Rightarrow> string \<Rightarrow> bool" where
  "bytesLess [] [] = False"
| "bytesLess [] (y # ys) = True"
| "bytesLess (x # xs) [] = False"
| "bytesLess (x # xs) (y # ys) =
     ((of_char x :: nat) < of_char y \<or> (x = y \<and> bytesLess xs ys))"

text \<open>
  \<open>strings.EqualFold(s, t)\<close> for a pattern \<open>t\<close> of ASCII letters without \<open>k\<close>: a byte of
  \<open>s\<close> matches the letter in either case, and the two bytes of U+017F (long s, which folds
  to \<open>s\<close>) match the letter \<open>s\<close>. No other code point folds to a letter of such a pattern.
\<close>

definition asciiLower :: "char \<Rightarrow> char" where
  "asciiLower c =
     (if (65::nat) \<le> of_char c \<and> (of_char c :: nat) \<le> 90 then char_of (of_char c + (32::nat)) else c)"

fun EqualFold :: "string \<Rightarrow> string \<Rightarrow> bool" where
  "EqualFold [] [] = True"
| "EqualFold [] (t # ts) = False"
| "EqualFold (c # cs) [] = False"
| "EqualFold (c # cs) (t # ts) =
     (if (of_char c :: nat) < 128 then asciiLower c = asciiLower t \<and> EqualFold cs ts
      else (case cs of
              d # ds \<Rightarrow> c = CHR 0xC5 \<and> d = CHR 0xBF \<and> asciiLower t = CHR ''s'' \<and> EqualFold ds ts
            | [] \<Rightarrow> False))"

section \<open>Structured versions\<close>

text \<open>
  Modelled from the spec: the parser and the ordering of structured versions are those of
  the third-party package \<open>github.com/Masterminds/semver/v3\<close>, which is not part of the
  repository. The spec asks for "structured version numbers (major.minor.patch-style,
  semantic-versioning rules)"; the model reads an optional \<open>v\<close>, one to three dot-separated
  numbers that fit 64 bits, an optional pre-release after \<open>-\<close> and optional build metadata
  after \<open>+\<close>, and orders versions by the precedence rules of semantic versioning.
\<close>

record Version =
  major :: nat
  minor :: nat
  patch :: nat
  pre :: string
  metadata :: string

definition isIdentChar :: "char \<Rightarrow> bool" where
  "isIdentChar c =
     (isDigit c \<or> c = CHR ''-'' \<or>
      ((65::nat) \<le> of_char c \<and> (of_char c :: nat) \<le> 90) \<or>
      ((97::nat) \<le> of_char c \<and> (of_char c :: nat) \<le> 122))"

definition validIdents :: "string \<Rightarrow> bool" where
  "validIdents s = list_all (\<lambda>p. p \<noteq> [] \<and> list_all isIdentChar p) (Split s (CHR ''.''))"

definition validatePrerelease :: "string \<Rightarrow> bool" where
  "validatePrerelease s =
     list_all (\<lambda>p. \<not> (list_all isDigit p \<and> length p > 1 \<and> hd p = CHR ''0'')) (Split s (CHR ''.''))"

text \<open>One numeric segment and what follows it.\<close>

definition segment :: "string \<Rightarrow> (nat \<times> string) option" where
  "segment s =
     (case ParseUint (takeWhile isDigit s) of
        None \<Rightarrow> None
      | Some n \<Rightarrow> Some (n, dropWhile isDigit s))"

text \<open>An optional further segment after a dot.\<close>

definition dotSegment :: "string \<Rightarrow> (nat option \<times> string) option" where
  "dotSegment s =
     (case s of
        [] \<Rightarrow> Some (None, s)
      | c # cs \<Rightarrow>
          if c = CHR ''.'' then
            (case segment cs of None \<Rightarrow> None | Some (n, r) \<Rightarrow> Some (Some n, r))
          else Some (None, s))"

definition orZero :: "nat option \<Rightarrow> nat" where
  "orZero x = (case x of None \<Rightarrow> 0 | Some n \<Rightarrow> n)"

text \<open>The tail of a version: nothing, \<open>-pre\<close>, \<open>+meta\<close> or \<open>-pre+meta\<close>.\<close>

definition suffixes :: "string \<Rightarrow> (string \<times> string) option" where
  "suffixes s =
     (case s of
        [] \<Rightarrow> Some ([], [])
      | c # cs \<Rightarrow>
          if c = CHR ''-'' then
            (let p = takeWhile (\<lambda>x. x \<noteq> CHR ''+'') cs;
                 r = dropWhile (\<lambda>x. x \<noteq> CHR ''+'') cs
             in if \<not> validIdents p \<or> \<not> validatePrerelease p then None
                else (case r of
                        [] \<Rightarrow> Some (p, [])
                      | _ # m \<Rightarrow> if validIdents m then Some (p, m) else None))
          else if c = CHR ''+'' then (if validIdents cs then Some ([], cs) else None)
          else None)"

definition NewVersion :: "string \<Rightarrow> Version option" where
  "NewVersion v =
     (case segment (TrimPrefix v ''v'') of
        None \<Rightarrow> None
      | Some (ma, r) \<Rightarrow>
          (case dotSegment r of
             None \<Rightarrow> None
           | Some (mi, r1) \<Rightarrow>
               (case dotSegment r1 of
                  None \<Rightarrow> None
                | Some (pa, r2) \<Rightarrow>
                    (case suffixes r2 of
                       None \<Rightarrow> None
                     | Some (p, m) \<Rightarrow>
                         Some \<lparr>major = ma, minor = orZero mi, patch = orZero pa,
                                pre = p, metadata = m\<rparr>))))"

text \<open>Comparisons return -1, 0 or 1.\<close>

definition compareSegment :: "nat \<Rightarrow> nat \<Rightarrow> int" where
  "compareSegment v o' = (if v < o' then -1 else if v > o' then 1 else 0)"

definition comparePrePart :: "string \<Rightarrow> string \<Rightarrow> int" where
  "comparePrePart s o' =
     (if s = o' then 0
      else if s = [] then -1
      else if o' = [] then 1
      else (case (ParseUint s, ParseUint o') of
              (None, None) \<Rightarrow> (if bytesLess o' s then 1 else -1)
            | (Some si, None) \<Rightarrow> -1
            | (None, Some oi) \<Rightarrow> 1
            | (Some si, Some oi) \<Rightarrow> (if si > oi then 1 else -1)))"

fun comparePreParts :: "string list \<Rightarrow> string list \<Rightarrow> int" where
  "comparePreParts [] [] = 0"
| "comparePreParts (s # ss) [] =
     (let d = comparePrePart s [] in if d \<noteq> 0 then d else comparePreParts ss [])"
| "comparePreParts [] (p # ps) =
     (let d = comparePrePart [] p in if d \<noteq> 0 then d else comparePreParts [] ps)"
| "comparePreParts (s # ss) (p # ps) =
     (let d = comparePrePart s p in if d \<noteq> 0 then d else comparePreParts ss ps)"

definition comparePrerelease :: "string \<Rightarrow> string \<Rightarrow> int" where
  "comparePrerelease v o' = comparePreParts (Split v (CHR ''.'')) (Split o' (CHR ''.''))"

definition Compare :: "Version \<Rightarrow> Version \<Rightarrow> int" where
  "Compare v o' =
     (if compareSegment (major v) (major o') \<noteq> 0 then compareSegment (major v) (major o')
      else if compareSegment (minor v) (minor o') \<noteq> 0 then compareSegment (minor v) (minor o')
      else if compareSegment (patch v) (patch o') \<noteq> 0 then compareSegment (patch v) (patch o')
      else if pre v = [] \<and> pre o' = [] then 0
      else if pre v = [] then 1
      else if pre o' = [] then -1
      else comparePrerelease (pre v) (pre o'))"

definition GreaterThan :: "Version \<Rightarrow> Version \<Rightarrow> bool" where
  "GreaterThan v o' = (Compare v o' > 0)"

section \<open>The version comparator (package check)\<close>

definition normalizeVersion :: "string \<Rightarrow> string" where
  "normalizeVersion v =
     ReplaceAll (ReplaceAll (TrimPrefix (TrimSpace v) ''v'') (CHR ''_'') (CHR ''.''))
       (CHR '','') (CHR ''.'')"

definition isLatest :: "string \<Rightarrow> bool" where
  "isLatest v = EqualFold (TrimSpace v) ''latest''"

definition isOutdated :: "string \<Rightarrow> string \<Rightarrow> int \<Rightarrow> int \<Rightarrow> bool" where
  "isOutdated installed latest scheme prevScheme =
     (if installed = [] \<or> latest = [] then False
      else if isLatest installed \<or> isLatest latest then False
      else if scheme > prevScheme \<and> installed \<noteq> latest then True
      else (case (NewVersion (normalizeVersion installed), NewVersion (normalizeVersion latest)) of
              (Some iv, Some lv) \<Rightarrow> GreaterThan lv iv
            | _ \<Rightarrow> installed \<noteq> latest))"

text \<open>
  \<open>strings.Fields\<close>: the maximal runs of bytes between white space. \<open>cur\<close> holds the field
  being read, last byte first.
\<close>

function fieldsFrom :: "string \<Rightarrow> string \<Rightarrow> string list" where
  "fieldsFrom cur s =
     (case s of
        [] \<Rightarrow> (if cur = [] then [] else [rev cur])
      | c # cs \<Rightarrow>
          (case stripAny ws_encodings s of
             Some r \<Rightarrow> (if cur = [] then [] else [rev cur]) @ fieldsFrom [] r
           | None \<Rightarrow> fieldsFrom (c # cur) cs))"
  by pat_completeness auto

termination fieldsFrom
  by (relation "measure (\<lambda>(cur, s). length s)") (auto dest: stripAny_shorter)

definition Fields :: "string \<Rightarrow> string list" where
  "Fields s = fieldsFrom [] s"




section \<open>Package config\<close>

text \<open>
  An instant (\<open>time.Time\<close>) is a number of nanoseconds since the Unix epoch, a
  \<open>time.Duration\<close> a signed 64-bit number of nanoseconds.
\<close>

type_synonym time = int

record WatchItem =
  Name :: string
  Type :: string
  Policy :: string
  IntervalMin :: int
  AddedAt :: time

record Config =
  Version :: int
  TickIntervalSec :: int
  DefaultPolicy :: string
  NotifyMethod :: string
  IncludeAutoUpdateCask :: bool
  Watchlist :: "WatchItem list"

definition DefaultIntervalMin :: int where
  "DefaultIntervalMin = 5"

definition WatchKey :: "string \<Rightarrow> string \<Rightarrow> string" where
  "WatchKey name typ = (if typ = [] then name else typ @ '':'' @ name)"

text \<open>
  The maps of \<open>State\<close> are partial functions; \<open>LoadState\<close> and \<open>DefaultState\<close> never leave
  one of them nil, and a nil map is not modelled.
\<close>

record State =
  LastCheckAt :: "time option"
  LastUpdateAt :: "time option"
  LastVersions :: "string \<rightharpoonup> string"
  LastSchemes :: "string \<rightharpoonup> int"
  ETagCache :: "string \<rightharpoonup> string"
  LastErrors :: "string list"
  NextCheckAt :: "string \<rightharpoonup> string"

section \<open>What the program is given\<close>

record Latest =
  LatestVersion :: string
  LatestScheme :: int

text \<open>
  The outside world of one run. \<open>brew args verbose\<close> is what running the package manager
  with these arguments prints, and its error if it fails (\<open>run\<close> in package brew).
  \<open>clock k\<close> is the k-th reading of \<open>time.Now()\<close>. \<open>formatRFC3339\<close> and
  \<open>parseRFC3339\<close> stand for \<open>Time.Format\<close> and \<open>time.Parse\<close> with the layout
  \<open>time.RFC3339\<close>. \<open>FetchLatest item etag\<close> is the answer of the metadata API
  (\<open>Client.FetchLatest\<close>): latest version and scheme, new ETag, not-modified flag and error.
  \<open>schedule\<close> is the order in which the workers of \<open>fetchLatest\<close> deliver their results.
\<close>

record env =
  brew :: "string list \<Rightarrow> bool \<Rightarrow> string \<times> string option"
  clock :: "nat \<Rightarrow> time"
  formatRFC3339 :: "time \<Rightarrow> string"
  parseRFC3339 :: "string \<Rightarrow> time option"
  FetchLatest :: "WatchItem \<Rightarrow> string \<Rightarrow> Latest \<times> string \<times> bool \<times> string option"
  schedule :: "WatchItem list \<Rightarrow> WatchItem list"

section \<open>Package brew\<close>

definition Update :: "env \<Rightarrow> bool \<Rightarrow> string option" where
  "Update e verbose = snd (brew e [''update''] verbose)"

definition UpgradeFormula :: "env \<Rightarrow> string list \<Rightarrow> bool \<Rightarrow> string option" where
  "UpgradeFormula e names verbose =
     (if names = [] then None else snd (brew e (''upgrade'' # names) verbose))"

definition UpgradeCask :: "env \<Rightarrow> string list \<Rightarrow> bool \<Rightarrow> bool \<Rightarrow> string option" where
  "UpgradeCask e names includeAutoUpdate verbose =
     (if names = [] then None
      else snd (brew e ([''upgrade'', ''--cask''] @
                        (if includeAutoUpdate then [''--greedy''] else []) @ names) verbose))"

definition parseOutdated :: "string \<Rightarrow> string list" where
  "parseOutdated out =
     concat (map (\<lambda>line.
                    let l = TrimSpace line
                    in if l = [] then []
                       else (case Fields l of [] \<Rightarrow> [] | f # _ \<Rightarrow> [f]))
                 (Split (TrimSpace out) (CHR 0x0A)))"

definition OutdatedFormula :: "env \<Rightarrow> string list \<Rightarrow> string + string list" where
  "OutdatedFormula e names =
     (if names = [] then Inr []
      else (case brew e ([''outdated'', ''--quiet'', ''--formula''] @ names) False of
              (out, Some err) \<Rightarrow> Inl err
            | (out, None) \<Rightarrow> Inr (parseOutdated out)))"

definition OutdatedCask :: "env \<Rightarrow> string list \<Rightarrow> bool \<Rightarrow> string + string list" where
  "OutdatedCask e names includeAutoUpdate =
     (if names = [] then Inr []
      else (case brew e ([''outdated'', ''--quiet'', ''--cask''] @
                         (if includeAutoUpdate then [''--greedy''] else []) @ names) False of
              (out, Some err) \<Rightarrow> Inl err
            | (out, None) \<Rightarrow> Inr (parseOutdated out)))"

definition listVersions :: "env \<Rightarrow> string list \<Rightarrow> string + (string \<rightharpoonup> string)" where
  "listVersions e args =
     (case brew e args False of
        (out, Some err) \<Rightarrow> Inl err
      | (out, None) \<Rightarrow>
          Inr (foldl (\<lambda>result line.
                        let l = TrimSpace line
                        in if l = [] then result
                           else (case Fields l of
                                   name # version # _ \<Rightarrow> result(name \<mapsto> version)
                                 | _ \<Rightarrow> result))
                     Map.empty (Split (TrimSpace out) (CHR 0x0A))))"

definition ListInstalled :: "env \<Rightarrow> string + ((string \<rightharpoonup> string) \<times> (string \<rightharpoonup> string))" where
  "ListInstalled e =
     (case listVersions e [''list'', ''--versions''] of
        Inl err \<Rightarrow> Inl err
      | Inr formulae \<Rightarrow>
          (case listVersions e [''list'', ''--cask'', ''--versions''] of
             Inl err \<Rightarrow> Inl err
           | Inr casks \<Rightarrow> Inr (formulae, casks)))"

section \<open>Package api\<close>

definition baseURL :: string where
  "baseURL = ''https://formulae.brew.sh/api''"

definition buildURL :: "WatchItem \<Rightarrow> string" where
  "buildURL item =
     (if Type item = ''cask'' then baseURL @ ''/cask/'' @ Name item @ ''.json''
      else baseURL @ ''/formula/'' @ Name item @ ''.json'')"

definition URLFor :: "WatchItem \<Rightarrow> string" where
  "URLFor item = buildURL item"

section \<open>Package notify\<close>

text \<open>
  The calls a run makes to the package manager's update, outdated and upgrade operations
  and to the notifier, in order, with their arguments. \<open>CallNotify\<close> carries the method
  of the notifier, then title, message and the command to execute.
\<close>

datatype call =
    CallUpdate bool
  | CallOutdatedFormula "string list"
  | CallOutdatedCask "string list" bool
  | CallUpgradeFormula "string list" bool
  | CallUpgradeCask "string list" bool bool
  | CallNotify string string string string

text \<open>
  \<open>Notifier.Notify\<close>: the command it starts, if any. Only the method
  \<open>terminal-notifier\<close> starts one; \<open>found\<close> says whether \<open>exec.LookPath\<close> finds the program.
\<close>

definition Notify :: "bool \<Rightarrow> string \<Rightarrow> string \<Rightarrow> string \<Rightarrow> string \<Rightarrow> string list option" where
  "Notify found method title message execute =
     (if method \<noteq> ''terminal-notifier'' then None
      else if \<not> found then None
      else Some ([''-title'', title, ''-message'', message] @
                 (if execute \<noteq> [] then [''-execute'', execute] else [])))"

section \<open>Package check: the reconciliation engine\<close>

record Options =
  DryRun :: bool
  ForceUpdate :: bool
  NotifyOnly :: bool
  Verbose :: bool

record OutdatedItem =
  Item :: WatchItem
  Installed :: string
  Latest :: string

record Result =
  Checked :: nat
  CheckedNames :: "string list"
  Outdated :: "OutdatedItem list"
  Removed :: "WatchItem list"
  Errors :: "string list"

record fetchResult =
  item :: WatchItem
  latest :: string
  scheme :: int
  etag :: string
  notModified :: bool
  err :: "string option"

text \<open>
  \<open>time.Duration(m) * time.Minute\<close>: a product of signed 64-bit numbers, which wraps.
\<close>

definition minutes :: "int \<Rightarrow> int" where
  "minutes m = sint (word_of_int (m * 60000000000) :: 64 word)"

text \<open>
  \<open>fetchLatest\<close>: one result for each item the workers were given, in the order of
  \<open>schedule\<close>; each worker reads the ETag cache and asks the API.
\<close>

definition fetchOne :: "env \<Rightarrow> State \<Rightarrow> WatchItem \<Rightarrow> fetchResult" where
  "fetchOne e st it =
     (let url = URLFor it;
          tag = (case ETagCache st url of None \<Rightarrow> [] | Some t \<Rightarrow> t)
      in case FetchLatest e it tag of
           (l, newETag, nm, er) \<Rightarrow>
             \<lparr>item = it, latest = LatestVersion l, scheme = LatestScheme l, etag = newETag,
              notModified = nm, err = er\<rparr>)"

definition fetchLatest :: "env \<Rightarrow> WatchItem list \<Rightarrow> State \<Rightarrow> fetchResult list" where
  "fetchLatest e items st = map (fetchOne e st) (schedule e items)"

definition lookupNext :: "State \<Rightarrow> WatchItem \<Rightarrow> string option" where
  "lookupNext st it =
     (let key = WatchKey (Name it) (Type it)
      in case NextCheckAt st key of
           Some s \<Rightarrow> Some s
         | None \<Rightarrow> if key \<noteq> Name it then NextCheckAt st (Name it) else None)"

definition isDue :: "env \<Rightarrow> State \<Rightarrow> time \<Rightarrow> WatchItem \<Rightarrow> bool" where
  "isDue e st now it =
     (case lookupNext st it of
        None \<Rightarrow> True
      | Some nextStr \<Rightarrow>
          if nextStr = [] then True
          else (case parseRFC3339 e nextStr of
                  None \<Rightarrow> True
                | Some nextTime \<Rightarrow> \<not> now < nextTime))"

fun dueLoop :: "env \<Rightarrow> State \<Rightarrow> time \<Rightarrow> WatchItem list \<Rightarrow> WatchItem list" where
  "dueLoop e st now [] = []"
| "dueLoop e st now (it # rest) =
     (let it' = (if IntervalMin it = 0 then it\<lparr>IntervalMin := DefaultIntervalMin\<rparr> else it)
      in if isDue e st now it' then it' # dueLoop e st now rest else dueLoop e st now rest)"

definition dueItems :: "env \<Rightarrow> Config \<Rightarrow> State \<Rightarrow> time \<Rightarrow> WatchItem list" where
  "dueItems e cfg st now = dueLoop e st now (Watchlist cfg)"

definition effectivePolicy :: "Config \<Rightarrow> WatchItem \<Rightarrow> string" where
  "effectivePolicy cfg it = (if Policy it = [] then DefaultPolicy cfg else Policy it)"

definition splitByType :: "OutdatedItem list \<Rightarrow> Config \<Rightarrow> string list \<times> string list" where
  "splitByType outdated cfg =
     (let autos = filter (\<lambda>x. effectivePolicy cfg (Item x) = ''auto'') outdated
      in (sort (map (\<lambda>x. Name (Item x)) (filter (\<lambda>x. Type (Item x) \<noteq> ''cask'') autos)),
          sort (map (\<lambda>x. Name (Item x)) (filter (\<lambda>x. Type (Item x) = ''cask'') autos))))"

text \<open>The arrow of the message is U+2192 in UTF-8.\<close>

definition updateMessage :: "OutdatedItem \<Rightarrow> string" where
  "updateMessage x =
     Name (Item x) @ '' '' @ Installed x @ '' '' @ [CHR 0xE2, CHR 0x86, CHR 0x92] @ '' '' @ Latest x"

definition notifyUpdates :: "Config \<Rightarrow> OutdatedItem list \<Rightarrow> string \<Rightarrow> bool \<Rightarrow> call list" where
  "notifyUpdates cfg items action forceAll =
     concat (map (\<lambda>x.
                    if forceAll \<or> effectivePolicy cfg (Item x) = ''notify'' \<or> action = ''Updated''
                    then [CallNotify (NotifyMethod cfg) ''brew-updater'' (updateMessage x)
                            (''brew-updater upgrade '' @ Name (Item x))]
                    else [])
                 items)"

definition notifyFailure :: "Config \<Rightarrow> string \<Rightarrow> string \<Rightarrow> call list" where
  "notifyFailure cfg title er =
     [CallNotify (NotifyMethod cfg) ''brew-updater failed'' (title @ '': '' @ TrimSpace er)
        ''brew-updater status'']"

definition appendError :: "State \<Rightarrow> string \<Rightarrow> State" where
  "appendError st msg =
     (let es = LastErrors st @ [msg]
      in st\<lparr>LastErrors := (if length es > 20 then drop (length es - 20) es else es)\<rparr>)"

definition namesFromItems :: "WatchItem list \<Rightarrow> string list" where
  "namesFromItems items = sort (map Name items)"

definition installedVersion ::
  "(string \<rightharpoonup> string) \<Rightarrow> (string \<rightharpoonup> string) \<Rightarrow> WatchItem \<Rightarrow> string \<times> string \<times> bool" where
  "installedVersion formulae casks it =
     (if Type it = ''cask'' then
        (case casks (Name it) of Some v \<Rightarrow> (v, ''cask'', True) | None \<Rightarrow> ([], ''cask'', False))
      else if Type it = ''formula'' then
        (case formulae (Name it) of
           Some v \<Rightarrow> (v, ''formula'', True)
         | None \<Rightarrow> ([], ''formula'', False))
      else (case formulae (Name it) of
              Some v \<Rightarrow> (v, ''formula'', True)
            | None \<Rightarrow>
                (case casks (Name it) of
                   Some v \<Rightarrow> (v, ''cask'', True)
                 | None \<Rightarrow> ([], [], False))))"

text \<open>One map of \<open>normalizeStateKeys\<close>: the entry under the bare name is copied to the
  composite key unless that key has an entry.\<close>

definition migrate :: "(string \<rightharpoonup> 'v) \<Rightarrow> WatchItem \<Rightarrow> (string \<rightharpoonup> 'v)" where
  "migrate m it =
     (let key = WatchKey (Name it) (Type it)
      in case m (Name it) of
           None \<Rightarrow> m
         | Some v \<Rightarrow> (case m key of None \<Rightarrow> m(key \<mapsto> v) | Some _ \<Rightarrow> m))"

fun normalizeLoop :: "WatchItem list \<Rightarrow> State \<Rightarrow> State" where
  "normalizeLoop [] st = st"
| "normalizeLoop (it # rest) st =
     (if WatchKey (Name it) (Type it) = Name it then normalizeLoop rest st
      else normalizeLoop rest
             (st\<lparr>NextCheckAt := migrate (NextCheckAt st) it,
                 LastVersions := migrate (LastVersions st) it,
                 LastSchemes := migrate (LastSchemes st) it\<rparr>))"

definition normalizeStateKeys :: "Config \<Rightarrow> State \<Rightarrow> State" where
  "normalizeStateKeys cfg st = normalizeLoop (Watchlist cfg) st"

definition watched :: "Config \<Rightarrow> string set" where
  "watched cfg = set (concat (map (\<lambda>it. [WatchKey (Name it) (Type it), Name it]) (Watchlist cfg)))"

definition cleanupStateKeys :: "Config \<Rightarrow> State \<Rightarrow> State" where
  "cleanupStateKeys cfg st =
     st\<lparr>NextCheckAt := NextCheckAt st |` watched cfg,
        LastVersions := LastVersions st |` watched cfg,
        LastSchemes := LastSchemes st |` watched cfg\<rparr>"

definition filterOutdated ::
  "OutdatedItem list \<Rightarrow> string list \<Rightarrow> string list \<Rightarrow> OutdatedItem list" where
  "filterOutdated items formulas casks =
     (if items = [] then items
      else filter (\<lambda>x. WatchKey (Name (Item x)) (Type (Item x)) \<in>
                          set (map (\<lambda>n. ''formula:'' @ n) formulas) \<union>
                          set (map (\<lambda>n. ''cask:'' @ n) casks))
                  items)"

text \<open>
  The first loop of \<open>Run\<close>: items that are not installed leave the watchlist and lose their
  next-check and last-version entries under both keys; the others take the kind they are
  installed as. The accumulator is \<open>(res.Removed, st, installed, filtered)\<close>.
\<close>

fun pruneLoop ::
  "(string \<rightharpoonup> string) \<Rightarrow> (string \<rightharpoonup> string) \<Rightarrow> WatchItem list \<Rightarrow>
   WatchItem list \<times> State \<times> (string \<rightharpoonup> string) \<times> WatchItem list \<Rightarrow>
   WatchItem list \<times> State \<times> (string \<rightharpoonup> string) \<times> WatchItem list" where
  "pruneLoop formulae casks [] acc = acc"
| "pruneLoop formulae casks (it # rest) (removed, st, installed, filtered) =
     (case installedVersion formulae casks it of
        (version, typ, ok) \<Rightarrow>
          if \<not> ok then
            pruneLoop formulae casks rest
              (removed @ [it],
               st\<lparr>NextCheckAt :=
                     (NextCheckAt st)(WatchKey (Name it) (Type it) := None, Name it := None),
                   LastVersions :=
                     (LastVersions st)(WatchKey (Name it) (Type it) := None, Name it := None)\<rparr>,
               installed, filtered)
          else
            pruneLoop formulae casks rest
              (removed, st, installed(WatchKey (Name it) typ \<mapsto> version),
               filtered @ [it\<lparr>Type := typ\<rparr>]))"

text \<open>
  The body of the second loop of \<open>Run\<close>, for one fetch result. A missing key of a Go map
  reads as the zero value: scheme 0, installed version empty.
\<close>

definition reconcileOne ::
  "env \<Rightarrow> time \<Rightarrow> (string \<rightharpoonup> string) \<Rightarrow> fetchResult \<Rightarrow> State \<times> OutdatedItem list \<Rightarrow>
   State \<times> OutdatedItem list" where
  "reconcileOne e now installed r acc =
     (case acc of (st, outdated) \<Rightarrow>
      (case err r of
         Some er \<Rightarrow> (appendError st (Name (item r) @ '': '' @ er), outdated)
       | None \<Rightarrow>
           (let url = URLFor (item r);
                name = Name (item r);
                key = WatchKey name (Type (item r));
                prevScheme = (case LastSchemes st key of None \<Rightarrow> 0 | Some s \<Rightarrow> s);
                lat = (if notModified r then
                         (case LastVersions st key of
                            Some l \<Rightarrow> l
                          | None \<Rightarrow> (case LastVersions st name of Some l \<Rightarrow> l | None \<Rightarrow> latest r))
                       else latest r);
                sch = (if notModified r then
                         (case LastSchemes st key of
                            Some s \<Rightarrow> s
                          | None \<Rightarrow> (case LastSchemes st name of Some s \<Rightarrow> s | None \<Rightarrow> scheme r))
                       else scheme r);
                st1 = (if notModified r then st
                       else st\<lparr>ETagCache :=
                                 (if etag r \<noteq> [] then (ETagCache st)(url \<mapsto> etag r)
                                  else ETagCache st),
                               LastVersions :=
                                 (if latest r \<noteq> [] then
                                    (if key \<noteq> name then (LastVersions st)(key \<mapsto> latest r, name := None)
                                     else (LastVersions st)(key \<mapsto> latest r))
                                  else LastVersions st),
                               LastSchemes :=
                                 (if key \<noteq> name then (LastSchemes st)(key \<mapsto> scheme r, name := None)
                                  else (LastSchemes st)(key \<mapsto> scheme r))\<rparr>);
                installedVersion = (case installed key of None \<Rightarrow> [] | Some v \<Rightarrow> v);
                outdated' = (if isOutdated installedVersion lat sch prevScheme
                             then outdated @ [\<lparr>Item = item r, Installed = installedVersion, Latest = lat\<rparr>]
                             else outdated);
                next = formatRFC3339 e (now + minutes (IntervalMin (item r)))
            in (st1\<lparr>NextCheckAt :=
                      (if key \<noteq> name then (NextCheckAt st1)(key \<mapsto> next, name := None)
                       else (NextCheckAt st1)(key \<mapsto> next))\<rparr>,
                outdated'))))"

fun reconcile ::
  "env \<Rightarrow> time \<Rightarrow> (string \<rightharpoonup> string) \<Rightarrow> fetchResult list \<Rightarrow> State \<times> OutdatedItem list \<Rightarrow>
   State \<times> OutdatedItem list" where
  "reconcile e now installed [] acc = acc"
| "reconcile e now installed (r # rs) acc =
     reconcile e now installed rs (reconcileOne e now installed r acc)"

text \<open>
  The result of \<open>Run\<close> with the calls made: \<open>(res, cfg, st, err, calls)\<close>.
\<close>

type_synonym outcome = "Result \<times> Config \<times> State \<times> string option \<times> call list"

text \<open>The re-verification of one partition against the package manager's own report.\<close>

definition verifyFormula :: "env \<Rightarrow> State \<Rightarrow> string list \<Rightarrow> string list \<times> State \<times> call list" where
  "verifyFormula e st toUpgradeFormula =
     (if toUpgradeFormula \<noteq> [] then
        (case OutdatedFormula e toUpgradeFormula of
           Inr names \<Rightarrow> (names, st, [CallOutdatedFormula toUpgradeFormula])
         | Inl er \<Rightarrow>
             (toUpgradeFormula, appendError st (''brew outdated formula failed: '' @ er),
              [CallOutdatedFormula toUpgradeFormula]))
      else (toUpgradeFormula, st, []))"

definition verifyCask ::
  "env \<Rightarrow> Config \<Rightarrow> State \<Rightarrow> string list \<Rightarrow> string list \<times> State \<times> call list" where
  "verifyCask e cfg st toUpgradeCask =
     (if toUpgradeCask \<noteq> [] then
        (case OutdatedCask e toUpgradeCask (IncludeAutoUpdateCask cfg) of
           Inr names \<Rightarrow> (names, st, [CallOutdatedCask toUpgradeCask (IncludeAutoUpdateCask cfg)])
         | Inl er \<Rightarrow>
             (toUpgradeCask, appendError st (''brew outdated cask failed: '' @ er),
              [CallOutdatedCask toUpgradeCask (IncludeAutoUpdateCask cfg)]))
      else (toUpgradeCask, st, []))"

definition runUpgradeFormula ::
  "env \<Rightarrow> Config \<Rightarrow> Options \<Rightarrow> State \<Rightarrow> string list \<Rightarrow> State \<times> call list" where
  "runUpgradeFormula e cfg opts st names =
     (case UpgradeFormula e names (Verbose opts) of
        Some er \<Rightarrow>
          (appendError st (''formula upgrade failed: '' @ er),
           CallUpgradeFormula names (Verbose opts) # notifyFailure cfg ''formula upgrade failed'' er)
      | None \<Rightarrow> (st, [CallUpgradeFormula names (Verbose opts)]))"

definition runUpgradeCask ::
  "env \<Rightarrow> Config \<Rightarrow> Options \<Rightarrow> State \<Rightarrow> string list \<Rightarrow> State \<times> call list" where
  "runUpgradeCask e cfg opts st names =
     (case UpgradeCask e names (IncludeAutoUpdateCask cfg) (Verbose opts) of
        Some er \<Rightarrow>
          (appendError st (''cask upgrade failed: '' @ er),
           CallUpgradeCask names (IncludeAutoUpdateCask cfg) (Verbose opts) #
             notifyFailure cfg ''cask upgrade failed'' er)
      | None \<Rightarrow> (st, [CallUpgradeCask names (IncludeAutoUpdateCask cfg) (Verbose opts)]))"

text \<open>From \<open>splitByType\<close> to the end of \<open>Run\<close>; \<open>calls\<close> are the calls made before.\<close>

definition upgradeAll ::
  "env \<Rightarrow> Config \<Rightarrow> State \<Rightarrow> Options \<Rightarrow> time \<Rightarrow> Result \<Rightarrow> OutdatedItem list \<Rightarrow> call list \<Rightarrow> outcome" where
  "upgradeAll e cfg st opts now res outdated calls =
     (case splitByType outdated cfg of
        (f0, c0) \<Rightarrow>
          (case verifyFormula e st f0 of
             (toUpgradeFormula, st1, k1) \<Rightarrow>
               (case verifyCask e cfg st1 c0 of
                  (toUpgradeCask, st2, k2) \<Rightarrow>
                    if toUpgradeFormula = [] \<and> toUpgradeCask = [] then
                      (res, cfg, st2\<lparr>LastCheckAt := Some now\<rparr>, None, calls @ k1 @ k2)
                    else
                      (case runUpgradeFormula e cfg opts st2 toUpgradeFormula of
                         (st3, k3) \<Rightarrow>
                           (case runUpgradeCask e cfg opts st3 toUpgradeCask of
                              (st4, k4) \<Rightarrow>
                                (res\<lparr>Outdated := filterOutdated outdated toUpgradeFormula toUpgradeCask\<rparr>,
                                 cfg,
                                 st4\<lparr>LastUpdateAt := Some (clock e 1), LastCheckAt := Some (clock e 2)\<rparr>,
                                 None,
                                 calls @ k1 @ k2 @ k3 @ k4 @
                                   notifyUpdates cfg outdated ''Updated'' False))))))"

definition updateFailed :: "Config \<Rightarrow> State \<Rightarrow> Options \<Rightarrow> time \<Rightarrow> Result \<Rightarrow> string \<Rightarrow> outcome" where
  "updateFailed cfg st opts now res er =
     (res, cfg, (appendError st (''brew update failed: '' @ er))\<lparr>LastCheckAt := Some now\<rparr>, None,
      CallUpdate (Verbose opts) # notifyFailure cfg ''brew update failed'' er)"

text \<open>The action dispatch of \<open>Run\<close>, from the \<open>ForceUpdate\<close> test on.\<close>

definition dispatch ::
  "env \<Rightarrow> Config \<Rightarrow> State \<Rightarrow> Options \<Rightarrow> time \<Rightarrow> Result \<Rightarrow> OutdatedItem list \<Rightarrow> outcome" where
  "dispatch e cfg st opts now res outdated =
     (let force = (ForceUpdate opts \<and> \<not> DryRun opts \<and> \<not> NotifyOnly opts)
      in case (if force then Update e (Verbose opts) else None) of
           Some er \<Rightarrow> updateFailed cfg st opts now res er
         | None \<Rightarrow>
             (let updated = force;
                  k0 = (if force then [CallUpdate (Verbose opts)] else [])
              in if outdated = [] then (res, cfg, st\<lparr>LastCheckAt := Some now\<rparr>, None, k0)
                 else if DryRun opts \<or> NotifyOnly opts then
                   (res, cfg, st\<lparr>LastCheckAt := Some now\<rparr>, None,
                    k0 @ notifyUpdates cfg outdated ''Update available'' True)
                 else if \<not> updated then
                   (case Update e (Verbose opts) of
                      Some er \<Rightarrow> updateFailed cfg st opts now res er
                    | None \<Rightarrow>
                        upgradeAll e cfg st opts now res outdated [CallUpdate (Verbose opts)])
                 else upgradeAll e cfg st opts now res outdated k0))"

definition emptyResult :: Result where
  "emptyResult = \<lparr>Checked = 0, CheckedNames = [], Outdated = [], Removed = [], Errors = []\<rparr>"

text \<open>
  \<open>Run\<close> up to the call of \<open>cleanupStateKeys\<close>: the installed snapshot, the key migration,
  the pruning and the garbage collection. The result is the error of \<open>ListInstalled\<close> or
  \<open>(res.Removed, cfg, st, installed)\<close>.
\<close>

definition prepare ::
  "env \<Rightarrow> Config \<Rightarrow> State \<Rightarrow>
   string + (WatchItem list \<times> Config \<times> State \<times> (string \<rightharpoonup> string))" where
  "prepare e cfg st =
     (case ListInstalled e of
        Inl er \<Rightarrow> Inl er
      | Inr (formulae, casks) \<Rightarrow>
          (case pruneLoop formulae casks (Watchlist cfg)
                  ([], normalizeStateKeys cfg st, Map.empty, []) of
             (removed, st2, installed, filtered) \<Rightarrow>
               Inr (removed, cfg\<lparr>Watchlist := filtered\<rparr>,
                    cleanupStateKeys (cfg\<lparr>Watchlist := filtered\<rparr>) st2, installed)))"

definition Run :: "env \<Rightarrow> Config \<Rightarrow> State \<Rightarrow> Options \<Rightarrow> outcome" where
  "Run e cfg st opts =
     (case prepare e cfg st of
        Inl er \<Rightarrow> (emptyResult, cfg, st, Some er, [])
      | Inr (removed, cfg1, st3, installed) \<Rightarrow>
          (let now = clock e 0;
               due = dueItems e cfg1 st3 now;
               res = emptyResult\<lparr>Removed := removed, Checked := length due,
                                  CheckedNames := namesFromItems due\<rparr>
           in if due = [] then (res, cfg1, st3\<lparr>LastCheckAt := Some now\<rparr>, None, [])
              else (case reconcile e now installed (fetchLatest e due st3) (st3, []) of
                      (st4, outdated) \<Rightarrow>
                        dispatch e cfg1 st4 opts now (res\<lparr>Outdated := outdated\<rparr>) outdated)))"

section \<open>Package lock\<close>
















section \<open>Notions used in the properties\<close>

text \<open>The keys of the three per-item maps of a state.\<close>

definition perItemKeys :: "State \<Rightarrow> string set" where
  "perItemKeys st = dom (NextCheckAt st) \<union> dom (LastVersions st) \<union> dom (LastSchemes st)"

text \<open>Two states with the same per-item maps.\<close>

definition sameItemMaps :: "State \<Rightarrow> State \<Rightarrow> bool" where
  "sameItemMaps st st' =
     (NextCheckAt st' = NextCheckAt st \<and> LastVersions st' = LastVersions st \<and>
      LastSchemes st' = LastSchemes st)"

text \<open>The key of the item of a fetch result.\<close>

definition resultKey :: "fetchResult \<Rightarrow> string" where
  "resultKey r = WatchKey (Name (item r)) (Type (item r))"

text \<open>An item as \<open>dueItems\<close> hands it on: an interval of 0 is replaced by the default.\<close>

definition withDefaultInterval :: "WatchItem \<Rightarrow> WatchItem" where
  "withDefaultInterval it =
     (if IntervalMin it = 0 then it\<lparr>IntervalMin := DefaultIntervalMin\<rparr> else it)"

text \<open>The state of a run after the reconciliation of the fetch results, before the action
  dispatch: the state given when the snapshot fails.\<close>

definition reconciledOf :: "env \<Rightarrow> Config \<Rightarrow> State \<Rightarrow> State" where
  "reconciledOf e cfg st =
     (case prepare e cfg st of
        Inl er \<Rightarrow> st
      | Inr (removed, cfg1, st3, installed) \<Rightarrow>
          (if dueItems e cfg1 st3 (clock e 0) = [] then st3
           else fst (reconcile e (clock e 0) installed
                       (fetchLatest e (dueItems e cfg1 st3 (clock e 0)) st3) (st3, []))))"

text \<open>Two states with the same bookkeeping of checks: the per-item maps and the cache of
  entity tags.\<close>

definition sameBookkeeping :: "State \<Rightarrow> State \<Rightarrow> bool" where
  "sameBookkeeping st st' = (sameItemMaps st st' \<and> ETagCache st' = ETagCache st)"

section \<open>A sample world\<close>

text \<open>\<open>DefaultState\<close> of package config.\<close>

definition DefaultState :: State where
  "DefaultState =
     \<lparr>LastCheckAt = None, LastUpdateAt = None, LastVersions = Map.empty,
      LastSchemes = Map.empty, ETagCache = Map.empty, LastErrors = [],
      NextCheckAt = Map.empty\<rparr>"

text \<open>
  A small world on which runs are evaluated: two formulae, foo 1.0.0 and bar 2.0.0, are
  installed; the API knows foo 1.1.0 and bar 2.1.0; the package manager reports every
  name it is asked about as outdated; the subcommands listed in \<open>failing\<close> fail. The
  clock stands at 2026-11-01T12:00:00Z, and the two RFC 3339 functions are given on the
  instants that occur, where they agree with Go.
\<close>

definition sampleFormat :: "time \<Rightarrow> string" where
  "sampleFormat t =
     (if t = 1793534400000000000 then ''2026-11-01T12:00:00Z''
      else if t = 1793534700000000000 then ''2026-11-01T12:05:00Z''
      else if t = 1793535000000000000 then ''2026-11-01T12:10:00Z''
      else if t = 1893456000000000000 then ''2030-01-01T00:00:00Z''
      else [])"

definition sampleParse :: "string \<Rightarrow> time option" where
  "sampleParse s =
     (if s = ''2026-11-01T12:00:00Z'' then Some 1793534400000000000
      else if s = ''2026-11-01T12:05:00Z'' then Some 1793534700000000000
      else if s = ''2026-11-01T12:10:00Z'' then Some 1793535000000000000
      else if s = ''2030-01-01T00:00:00Z'' then Some 1893456000000000000
      else None)"

definition sampleBrew :: "string list \<Rightarrow> string list \<Rightarrow> bool \<Rightarrow> string \<times> string option" where
  "sampleBrew failing args verbose =
     (if args \<noteq> [] \<and> hd args \<in> set failing then ([], Some ''exit status 1'')
      else if args = [''list'', ''--versions''] then
        (''foo 1.0.0\<newline>bar 2.0.0\<newline>'', None)
      else if args \<noteq> [] \<and> hd args = ''outdated'' then
        (concat (map (\<lambda>n. n @ ''\<newline>'') (filter (\<lambda>a. take 2 a \<noteq> ''--'') (tl args))), None)
      else ([], None))"

definition sampleFetch :: "WatchItem \<Rightarrow> string \<Rightarrow> Latest \<times> string \<times> bool \<times> string option" where
  "sampleFetch it tag =
     (if Name it = ''foo'' then
        (\<lparr>LatestVersion = ''1.1.0'', LatestScheme = 0\<rparr>, ''W/1'', False, None)
      else if Name it = ''bar'' then
        (\<lparr>LatestVersion = ''2.1.0'', LatestScheme = 0\<rparr>, ''W/2'', False, None)
      else (\<lparr>LatestVersion = [], LatestScheme = 0\<rparr>, [], False, Some ''api status 404''))"

definition sampleEnv :: "string list \<Rightarrow> env" where
  "sampleEnv failing =
     \<lparr>brew = sampleBrew failing, clock = (\<lambda>k. 1793534400000000000),
      formatRFC3339 = sampleFormat, parseRFC3339 = sampleParse,
      FetchLatest = sampleFetch, schedule = (\<lambda>xs. xs)\<rparr>"

definition sampleItem :: "string \<Rightarrow> string \<Rightarrow> string \<Rightarrow> int \<Rightarrow> WatchItem" where
  "sampleItem n t p i = \<lparr>Name = n, Type = t, Policy = p, IntervalMin = i, AddedAt = 0\<rparr>"

definition sampleConfig :: "WatchItem list \<Rightarrow> Config" where
  "sampleConfig wl =
     \<lparr>Version = 1, TickIntervalSec = 60, DefaultPolicy = ''auto'',
      NotifyMethod = ''terminal-notifier'', IncludeAutoUpdateCask = True, Watchlist = wl\<rparr>"

definition sampleOptions :: Options where
  "sampleOptions = \<lparr>DryRun = False, ForceUpdate = False, NotifyOnly = False, Verbose = False\<rparr>"

definition twoItems :: "WatchItem list" where
  "twoItems =
     [sampleItem ''foo'' ''formula'' ''auto'' 5, sampleItem ''bar'' ''formula'' ''notify'' 5]"

text \<open>The state and the outdated set of the sample world after the reconciliation of the
  two fetch results.\<close>

definition sampleReconciled :: State where
  "sampleReconciled =
     \<lparr>LastCheckAt = None, LastUpdateAt = None,
      LastVersions = [''formula:foo'' \<mapsto> ''1.1.0'', ''formula:bar'' \<mapsto> ''2.1.0''],
      LastSchemes = [''formula:foo'' \<mapsto> 0, ''formula:bar'' \<mapsto> 0],
      ETagCache =
        [''https://formulae.brew.sh/api/formula/foo.json'' \<mapsto> ''W/1'',
         ''https://formulae.brew.sh/api/formula/bar.json'' \<mapsto> ''W/2''],
      LastErrors = [],
      NextCheckAt =
        [''formula:foo'' \<mapsto> ''2026-11-01T12:05:00Z'',
         ''formula:bar'' \<mapsto> ''2026-11-01T12:05:00Z'']\<rparr>"

definition sampleOutdated :: "OutdatedItem list" where
  "sampleOutdated =
     [\<lparr>Item = sampleItem ''foo'' ''formula'' ''auto'' 5, Installed = ''1.0.0'', Latest = ''1.1.0''\<rparr>,
      \<lparr>Item = sampleItem ''bar'' ''formula'' ''notify'' 5, Installed = ''2.0.0'', Latest = ''2.1.0''\<rparr>]"

text \<open>A state with entries for a package that is not watched.\<close>

definition orphanState :: State where
  "orphanState =
     DefaultState\<lparr>NextCheckAt := [''formula:gone'' \<mapsto> ''2030-01-01T00:00:00Z''],
                  LastVersions := [''gone'' \<mapsto> ''0.1'']\<rparr>"

text \<open>What the sample run reports before the action dispatch, and the notices for the two
  outdated items.\<close>

definition sampleChecked :: Result where
  "sampleChecked =
     \<lparr>Checked = 2, CheckedNames = [''bar'', ''foo''], Outdated = sampleOutdated,
      Removed = [], Errors = []\<rparr>"

definition sampleNotices :: "call list" where
  "sampleNotices =
     [CallNotify ''terminal-notifier'' ''brew-updater''
        (''foo 1.0.0 '' @ [CHR 0xE2, CHR 0x86, CHR 0x92] @ '' 1.1.0'') ''brew-updater upgrade foo'',
      CallNotify ''terminal-notifier'' ''brew-updater''
        (''bar 2.0.0 '' @ [CHR 0xE2, CHR 0x86, CHR 0x92] @ '' 2.1.0'') ''brew-updater upgrade bar'']"

text \<open>The fetch results that a run reconciles: none when the snapshot fails or nothing is
  due.\<close>

definition resultsOf :: "env \<Rightarrow> Config \<Rightarrow> State \<Rightarrow> fetchResult list" where
  "resultsOf e cfg st =
     (case prepare e cfg st of
        Inl er \<Rightarrow> []
      | Inr (removed, cfg1, st3, installed) \<Rightarrow>
          if dueItems e cfg1 st3 (clock e 0) = [] then []
          else fetchLatest e (dueItems e cfg1 st3 (clock e 0)) st3)"



text \<open>The state after the run of the sample world on that watchlist.\<close>

definition zeroStateAfter :: State where
  "zeroStateAfter =
     \<lparr>LastCheckAt = Some 1793534400000000000, LastUpdateAt = Some 1793534400000000000,
      LastVersions = [''formula:foo'' \<mapsto> ''1.1.0''],
      LastSchemes = [''formula:foo'' \<mapsto> 0],
      ETagCache = [''https://formulae.brew.sh/api/formula/foo.json'' \<mapsto> ''W/1''],
      LastErrors = [],
      NextCheckAt = [''formula:foo'' \<mapsto> ''2026-11-01T12:05:00Z'']\<rparr>"

text \<open>The outdated set of a run, before it is narrowed to what the upgrade acted on.\<close>

definition outdatedOf :: "env \<Rightarrow> Config \<Rightarrow> State \<Rightarrow> OutdatedItem list" where
  "outdatedOf e cfg st =
     (case prepare e cfg st of
        Inl er \<Rightarrow> []
      | Inr (removed, cfg1, st3, installed) \<Rightarrow>
          snd (reconcile e (clock e 0) installed (resultsOf e cfg st) (st3, [])))"

text \<open>The notice that \<open>notifyUpdates\<close> sends for an outdated item.\<close>

definition updateNotice :: "Config \<Rightarrow> OutdatedItem \<Rightarrow> call" where
  "updateNotice cfg x =
     CallNotify (NotifyMethod cfg) ''brew-updater'' (updateMessage x)
       (''brew-updater upgrade '' @ Name (Item x))"

text \<open>A watchlist of one item with a kind, and a state that files its entries under the
  bare name only, with a next check in 2030.\<close>

definition oneItem :: "WatchItem list" where
  "oneItem = [sampleItem ''foo'' ''formula'' ''auto'' 5]"

definition bareState :: State where
  "bareState =
     DefaultState\<lparr>NextCheckAt := [''foo'' \<mapsto> ''2030-01-01T00:00:00Z''],
                  LastVersions := [''foo'' \<mapsto> ''1.0.0''],
                  LastSchemes := [''foo'' \<mapsto> 0]\<rparr>"

text \<open>That state after the key migration.\<close>

definition bareMigrated :: State where
  "bareMigrated =
     DefaultState\<lparr>NextCheckAt := [''foo'' \<mapsto> ''2030-01-01T00:00:00Z'',
                                  ''formula:foo'' \<mapsto> ''2030-01-01T00:00:00Z''],
                  LastVersions := [''foo'' \<mapsto> ''1.0.0'', ''formula:foo'' \<mapsto> ''1.0.0''],
                  LastSchemes := [''foo'' \<mapsto> 0, ''formula:foo'' \<mapsto> 0]\<rparr>"







text \<open>
  A watchlist with two entries for foo, one without a kind, to be notified, with an
  interval of 10 minutes, and one of kind formula, to be upgraded, with an interval of 5
  minutes; their keys differ, so \<open>NormalizeConfig\<close> keeps both. The second list is the
  watchlist after the run has given the first entry the kind it is installed as.
\<close>

definition sameName :: "WatchItem list" where
  "sameName = [sampleItem ''foo'' [] ''notify'' 10, sampleItem ''foo'' ''formula'' ''auto'' 5]"

definition sameNameTyped :: "WatchItem list" where
  "sameNameTyped =
     [sampleItem ''foo'' ''formula'' ''notify'' 10, sampleItem ''foo'' ''formula'' ''auto'' 5]"

definition sameNameOutdated :: "OutdatedItem list" where
  "sameNameOutdated =
     [\<lparr>Item = sampleItem ''foo'' ''formula'' ''notify'' 10, Installed = ''1.0.0'', Latest = ''1.1.0''\<rparr>,
      \<lparr>Item = sampleItem ''foo'' ''formula'' ''auto'' 5, Installed = ''1.0.0'', Latest = ''1.1.0''\<rparr>]"

text \<open>A package manager that, asked which of some names are outdated, answers bar, and the
  sample world with it.\<close>

definition strayBrew :: "string list \<Rightarrow> bool \<Rightarrow> string \<times> string option" where
  "strayBrew args verbose =
     (if args \<noteq> [] \<and> hd args = ''outdated'' then (''bar\<newline>'', None)
      else sampleBrew [] args verbose)"

definition strayEnv :: env where
  "strayEnv = (sampleEnv [])\<lparr>brew := strayBrew\<rparr>"


text \<open>A state that files the entries of foo under the bare name, with a next check that
  is due at the time of the run.\<close>

definition bareDue :: State where
  "bareDue =
     DefaultState\<lparr>NextCheckAt := [''foo'' \<mapsto> ''2026-11-01T12:00:00Z''],
                  LastVersions := [''foo'' \<mapsto> ''1.0.0''],
                  LastSchemes := [''foo'' \<mapsto> 0]\<rparr>"

text \<open>
  A world in which a formula is installed under the name that is the composite key of
  the formula foo, a watchlist with both, a state with a next check for foo under the bare
  name, and that state after the key migration.
\<close>

definition chainBrew :: "string list \<Rightarrow> bool \<Rightarrow> string \<times> string option" where
  "chainBrew args verbose =
     (if args = [''list'', ''--versions''] then
        (''foo 1.0.0\<newline>formula:foo 1.0.0\<newline>'', None)
      else sampleBrew [] args verbose)"

definition chainEnv :: env where
  "chainEnv = (sampleEnv [])\<lparr>brew := chainBrew\<rparr>"

definition chainItems :: "WatchItem list" where
  "chainItems =
     [sampleItem ''foo'' ''formula'' ''auto'' 5, sampleItem ''formula:foo'' ''formula'' ''auto'' 5]"

definition chainState :: State where
  "chainState = DefaultState\<lparr>NextCheckAt := [''foo'' \<mapsto> ''2030-01-01T00:00:00Z'']\<rparr>"

definition chainMigrated :: State where
  "chainMigrated =
     DefaultState\<lparr>NextCheckAt := [''foo'' \<mapsto> ''2030-01-01T00:00:00Z'',
                                  ''formula:foo'' \<mapsto> ''2030-01-01T00:00:00Z'',
                                  ''formula:formula:foo'' \<mapsto> ''2030-01-01T00:00:00Z'']\<rparr>"

(*THEOREMS*)
section \<open>Properties of the version comparator\<close>

lemmas version_eval =
  NewVersion_def normalizeVersion_def TrimSpace_def ws_encodings_def trimPrefixes.simps
  TrimPrefix_def ReplaceAll_def segment_def dotSegment_def orZero_def ParseUint_def
  decimal_def digitVal_def isDigit_def suffixes_def isLatest_def asciiLower_def
  GreaterThan_def Compare_def compareSegment_def

lemma asciiLower_l:
  "asciiLower c = CHR ''l'' \<Longrightarrow>
     \<not> isDigit c \<and> c \<noteq> CHR ''v'' \<and> c \<noteq> CHR ''_'' \<and> c \<noteq> CHR '',''"
  by (auto simp: asciiLower_def isDigit_def split: if_splits)

lemma EqualFold_latest_head:
  "EqualFold t ''latest'' \<Longrightarrow> \<exists>c cs. t = c # cs \<and> asciiLower c = CHR ''l''"
  by (cases t) (auto simp: asciiLower_def split: if_splits list.splits)

lemma NewVersion_nondigit:
  "\<not> isDigit c \<Longrightarrow> c \<noteq> CHR ''v'' \<Longrightarrow> NewVersion (c # cs) = None"
  by (simp add: NewVersion_def TrimPrefix_def segment_def ParseUint_def)

lemma NewVersion_empty: "NewVersion [] = None"
  by (simp add: NewVersion_def TrimPrefix_def segment_def ParseUint_def)

lemma TrimSpace_empty: "TrimSpace [] = []"
  by (simp add: TrimSpace_def ws_encodings_def trimPrefixes.simps)

lemma normalizeVersion_empty: "normalizeVersion [] = []"
  by (simp add: normalizeVersion_def TrimSpace_empty TrimPrefix_def ReplaceAll_def)

text \<open>The sentinel never parses: after trimming it starts with the letter l.\<close>

lemma isLatest_not_parsed:
  assumes "isLatest v"
  shows "NewVersion (normalizeVersion v) = None"
proof -
  from assms obtain c cs where t: "TrimSpace v = c # cs" and c: "asciiLower c = CHR ''l''"
    unfolding isLatest_def using EqualFold_latest_head by blast
  from asciiLower_l [OF c] have nd: "\<not> isDigit c" and nv: "c \<noteq> CHR ''v''"
    and nu: "c \<noteq> CHR ''_''" and nc: "c \<noteq> CHR '',''"
    by simp_all
  have "normalizeVersion v =
      c # ReplaceAll (ReplaceAll cs (CHR ''_'') (CHR ''.'')) (CHR '','') (CHR ''.'')"
    using nv nu nc by (simp add: normalizeVersion_def t TrimPrefix_def ReplaceAll_def)
  then show ?thesis
    using NewVersion_nondigit [OF nd nv] by simp
qed

lemma parsed_not_sentinel:
  "NewVersion (normalizeVersion v) = Some x \<Longrightarrow> v \<noteq> [] \<and> \<not> isLatest v"
  using isLatest_not_parsed [of v] normalizeVersion_empty NewVersion_empty by auto

lemma isOutdated_parsed:
  assumes i: "NewVersion (normalizeVersion inst) = Some iv"
    and l: "NewVersion (normalizeVersion lat) = Some lv"
  shows "isOutdated inst lat sch prev = ((prev < sch \<and> inst \<noteq> lat) \<or> GreaterThan lv iv)"
proof -
  from parsed_not_sentinel [OF i] parsed_not_sentinel [OF l]
  have "inst \<noteq> []" "lat \<noteq> []" "\<not> isLatest inst" "\<not> isLatest lat"
    by simp_all
  then show ?thesis
    unfolding isOutdated_def i l by auto
qed

lemma isOutdated_fallback:
  assumes "inst \<noteq> []" "lat \<noteq> []" "\<not> isLatest inst" "\<not> isLatest lat"
    and "NewVersion (normalizeVersion inst) = None \<or> NewVersion (normalizeVersion lat) = None"
  shows "isOutdated inst lat sch prev = (inst \<noteq> lat)"
  using assms unfolding isOutdated_def by (auto split: option.splits)

lemma isOutdated_bump:
  assumes "inst \<noteq> []" "lat \<noteq> []" "\<not> isLatest inst" "\<not> isLatest lat"
    and "prev < sch" "inst \<noteq> lat"
  shows "isOutdated inst lat sch prev"
  using assms unfolding isOutdated_def by simp

lemma parse_1_2_0:
  "NewVersion (normalizeVersion ''1.2.0'') =
     Some \<lparr>major = 1, minor = 2, patch = 0, pre = [], metadata = []\<rparr>"
  by (simp add: version_eval)

lemma parse_1_3_0:
  "NewVersion (normalizeVersion ''1.3.0'') =
     Some \<lparr>major = 1, minor = 3, patch = 0, pre = [], metadata = []\<rparr>"
  by (simp add: version_eval)

lemma gt_1_3_0:
  "GreaterThan \<lparr>major = 1, minor = 3, patch = 0, pre = [], metadata = []\<rparr>
     \<lparr>major = 1, minor = 2, patch = 0, pre = [], metadata = []\<rparr>"
  by (simp add: version_eval)

lemma not_gt_1_2_0:
  "\<not> GreaterThan \<lparr>major = 1, minor = 2, patch = 0, pre = [], metadata = []\<rparr>
     \<lparr>major = 1, minor = 3, patch = 0, pre = [], metadata = []\<rparr>"
  by (simp add: version_eval)

text \<open>
  C2, as amended. When both normalized strings parse as structured versions, the item is
  outdated exactly when the scheme identifier rose and the raw strings differ, or the
  parsed latest version is strictly greater than the parsed installed one. With equal
  schemes, installed 1.2.0 and latest 1.3.0 give true, and the other way round false.
\<close>

theorem isOutdated_structured:
  "(NewVersion (normalizeVersion inst) = Some iv \<and>
    NewVersion (normalizeVersion lat) = Some lv \<longrightarrow>
      (isOutdated inst lat sch prev \<longleftrightarrow> (prev < sch \<and> inst \<noteq> lat) \<or> GreaterThan lv iv)) \<and>
   isOutdated ''1.2.0'' ''1.3.0'' s s \<and> \<not> isOutdated ''1.3.0'' ''1.2.0'' s s"
proof -
  have "isOutdated ''1.2.0'' ''1.3.0'' s s"
    using isOutdated_parsed [OF parse_1_2_0 parse_1_3_0, of s s] gt_1_3_0 by simp
  moreover have "\<not> isOutdated ''1.3.0'' ''1.2.0'' s s"
    using isOutdated_parsed [OF parse_1_3_0 parse_1_2_0, of s s] not_gt_1_2_0 by simp
  ultimately show ?thesis
    using isOutdated_parsed [of inst iv lat lv sch prev] by blast
qed

theorem isOutdated_structured_witness:
  "(NewVersion (normalizeVersion ''v1_2'') =
      Some \<lparr>major = 1, minor = 2, patch = 0, pre = [], metadata = []\<rparr> \<and>
    NewVersion (normalizeVersion ''1.10.0'') =
      Some \<lparr>major = 1, minor = 10, patch = 0, pre = [], metadata = []\<rparr>) \<and>
   isOutdated ''v1_2'' ''1.10.0'' 0 0"
proof -
  have p: "NewVersion (normalizeVersion ''v1_2'') =
      Some \<lparr>major = 1, minor = 2, patch = 0, pre = [], metadata = []\<rparr> \<and>
    NewVersion (normalizeVersion ''1.10.0'') =
      Some \<lparr>major = 1, minor = 10, patch = 0, pre = [], metadata = []\<rparr>"
    by (simp add: version_eval)
  have g: "GreaterThan \<lparr>major = 1, minor = 10, patch = 0, pre = [], metadata = []\<rparr>
      \<lparr>major = 1, minor = 2, patch = 0, pre = [], metadata = []\<rparr>"
    by (simp add: version_eval)
  have "isOutdated ''v1_2'' ''1.10.0'' 0 0"
    using isOutdated_structured [THEN conjunct1, rule_format, OF p] g by simp
  with p show ?thesis by blast
qed

text \<open>
  The claim as first stated fails when the scheme identifier rises: installed 1.3.0 and
  latest 1.2.0 both parse, the latest is not greater, and yet the item is outdated.
\<close>

theorem isOutdated_structured_counterexample:
  "NewVersion (normalizeVersion ''1.3.0'') =
      Some \<lparr>major = 1, minor = 3, patch = 0, pre = [], metadata = []\<rparr> \<and>
   NewVersion (normalizeVersion ''1.2.0'') =
      Some \<lparr>major = 1, minor = 2, patch = 0, pre = [], metadata = []\<rparr> \<and>
   \<not> GreaterThan \<lparr>major = 1, minor = 2, patch = 0, pre = [], metadata = []\<rparr>
         \<lparr>major = 1, minor = 3, patch = 0, pre = [], metadata = []\<rparr> \<and>
   isOutdated ''1.3.0'' ''1.2.0'' 1 0"
  using parse_1_3_0 parse_1_2_0 not_gt_1_2_0
    isOutdated_parsed [OF parse_1_3_0 parse_1_2_0, of 1 0]
  by simp

text \<open>
  C8, as amended. For non-empty strings, neither of which is the sentinel once white space
  is trimmed from its ends, a scheme identifier strictly above the recorded one and any
  difference between the raw strings make the item outdated, whatever the strings contain;
  2021a against 2021b with schemes 1 and 0 is outdated although neither parses as a
  structured version.
\<close>

theorem isOutdated_scheme_bump:
  "(inst \<noteq> [] \<and> lat \<noteq> [] \<and> \<not> isLatest inst \<and> \<not> isLatest lat \<and> prev < sch \<and> inst \<noteq> lat
      \<longrightarrow> isOutdated inst lat sch prev) \<and>
   isOutdated ''2021a'' ''2021b'' 1 0 \<and>
   NewVersion (normalizeVersion ''2021a'') = None \<and>
   NewVersion (normalizeVersion ''2021b'') = None"
proof -
  have "isOutdated ''2021a'' ''2021b'' 1 0"
    by (rule isOutdated_bump) (simp_all add: isLatest_def TrimSpace_def ws_encodings_def
        trimPrefixes.simps asciiLower_def)
  moreover have "NewVersion (normalizeVersion ''2021a'') = None"
    by (simp add: version_eval)
  moreover have "NewVersion (normalizeVersion ''2021b'') = None"
    by (simp add: version_eval)
  ultimately show ?thesis
    using isOutdated_bump [of inst lat prev sch] by blast
qed

theorem isOutdated_scheme_bump_witness:
  "(''rolling-7'' \<noteq> [] \<and> ''rolling-8'' \<noteq> [] \<and> \<not> isLatest ''rolling-7'' \<and>
    \<not> isLatest ''rolling-8'' \<and> (2::int) < 3 \<and> ''rolling-7'' \<noteq> ''rolling-8'') \<and>
   isOutdated ''rolling-7'' ''rolling-8'' 3 2"
proof -
  have h: "''rolling-7'' \<noteq> [] \<and> ''rolling-8'' \<noteq> [] \<and> \<not> isLatest ''rolling-7'' \<and>
    \<not> isLatest ''rolling-8'' \<and> (2::int) < 3 \<and> ''rolling-7'' \<noteq> ''rolling-8''"
    by (simp add: isLatest_def TrimSpace_def ws_encodings_def trimPrefixes.simps asciiLower_def)
  from isOutdated_scheme_bump [THEN conjunct1, rule_format, OF h] h
  show ?thesis by blast
qed

text \<open>
  The claim as first stated fails for a sentinel padded with white space: the string of a
  blank and latest is not equal to latest, in any case of the letters, and with a scheme
  identifier above the recorded one and a different latest version the item is not outdated.
\<close>

theorem isOutdated_scheme_bump_counterexample:
  "'' latest'' \<noteq> [] \<and> ''2.0.0'' \<noteq> [] \<and>
   \<not> EqualFold '' latest'' ''latest'' \<and> \<not> EqualFold ''2.0.0'' ''latest'' \<and>
   (0::int) < 1 \<and> '' latest'' \<noteq> ''2.0.0'' \<and>
   \<not> isOutdated '' latest'' ''2.0.0'' 1 0"
  by (simp add: isOutdated_def isLatest_def TrimSpace_def ws_encodings_def trimPrefixes.simps
      asciiLower_def)

text \<open>
  C10, as amended. For non-empty strings, neither of which is the sentinel once white space
  is trimmed from its ends, with no rise of the scheme identifier, when at least one
  normalized string does not parse the result is the inequality of the raw strings, and so
  is the same with installed and latest exchanged. 1.2.3.4 and v1.2.3.4 are equal after
  normalization, differ verbatim, and are reported outdated.
\<close>

theorem isOutdated_raw_fallback:
  "(inst \<noteq> [] \<and> lat \<noteq> [] \<and> \<not> isLatest inst \<and> \<not> isLatest lat \<and> \<not> prev < sch \<and>
    (NewVersion (normalizeVersion inst) = None \<or> NewVersion (normalizeVersion lat) = None)
      \<longrightarrow> isOutdated inst lat sch prev = (inst \<noteq> lat) \<and>
          isOutdated inst lat sch prev = isOutdated lat inst sch prev) \<and>
   normalizeVersion ''1.2.3.4'' = normalizeVersion ''v1.2.3.4'' \<and>
   (\<not> p < s \<longrightarrow> isOutdated ''1.2.3.4'' ''v1.2.3.4'' s p)"
proof -
  have n: "normalizeVersion ''1.2.3.4'' = normalizeVersion ''v1.2.3.4''"
    by (simp add: version_eval)
  have "NewVersion (normalizeVersion ''1.2.3.4'') = None"
    by (simp add: version_eval)
  moreover have "\<not> isLatest ''1.2.3.4''" "\<not> isLatest ''v1.2.3.4''"
    by (simp_all add: isLatest_def TrimSpace_def ws_encodings_def trimPrefixes.simps asciiLower_def)
  ultimately have e: "isOutdated ''1.2.3.4'' ''v1.2.3.4'' s p"
    using isOutdated_fallback [of "''1.2.3.4''" "''v1.2.3.4''" s p] by simp
  have "isOutdated inst lat sch prev = (inst \<noteq> lat) \<and>
        isOutdated inst lat sch prev = isOutdated lat inst sch prev"
    if "inst \<noteq> []" "lat \<noteq> []" "\<not> isLatest inst" "\<not> isLatest lat"
      "NewVersion (normalizeVersion inst) = None \<or> NewVersion (normalizeVersion lat) = None"
    using that isOutdated_fallback [of inst lat sch prev] isOutdated_fallback [of lat inst sch prev]
    by auto
  with n e show ?thesis by blast
qed

theorem isOutdated_raw_fallback_witness:
  "(''2024.1b'' \<noteq> [] \<and> ''2024.1a'' \<noteq> [] \<and> \<not> isLatest ''2024.1b'' \<and> \<not> isLatest ''2024.1a'' \<and>
    \<not> (0::int) < 0 \<and>
    (NewVersion (normalizeVersion ''2024.1b'') = None \<or>
     NewVersion (normalizeVersion ''2024.1a'') = None)) \<and>
   isOutdated ''2024.1b'' ''2024.1a'' 0 0 = (''2024.1b'' \<noteq> ''2024.1a'') \<and>
   isOutdated ''2024.1b'' ''2024.1a'' 0 0 = isOutdated ''2024.1a'' ''2024.1b'' 0 0"
proof -
  have h: "''2024.1b'' \<noteq> [] \<and> ''2024.1a'' \<noteq> [] \<and> \<not> isLatest ''2024.1b'' \<and>
    \<not> isLatest ''2024.1a'' \<and> \<not> (0::int) < 0 \<and>
    (NewVersion (normalizeVersion ''2024.1b'') = None \<or>
     NewVersion (normalizeVersion ''2024.1a'') = None)"
    by (simp add: version_eval)
  from isOutdated_raw_fallback [THEN conjunct1, rule_format, OF h] h
  show ?thesis by blast
qed

text \<open>
  The claim as first stated fails for a sentinel padded with white space: latest followed
  by a blank is not equal to latest, its normalized form does not parse, the raw strings
  differ and the scheme identifier did not rise, and the item is not outdated.
\<close>

theorem isOutdated_raw_fallback_counterexample:
  "''1.0.0'' \<noteq> [] \<and> ''latest '' \<noteq> [] \<and>
   ''1.0.0'' \<noteq> ''latest'' \<and> ''latest '' \<noteq> ''latest'' \<and>
   \<not> EqualFold ''1.0.0'' ''latest'' \<and> \<not> EqualFold ''latest '' ''latest'' \<and>
   \<not> (0::int) < 0 \<and>
   NewVersion (normalizeVersion ''latest '') = None \<and>
   ''1.0.0'' \<noteq> ''latest '' \<and>
   \<not> isOutdated ''1.0.0'' ''latest '' 0 0"
  by (simp add: isOutdated_def isLatest_def version_eval)

section \<open>The action dispatch leaves the per-item maps alone\<close>

lemma sameItemMaps_refl [simp]: "sameItemMaps st st"
  by (simp add: sameItemMaps_def)

lemma sameItemMaps_trans: "sameItemMaps a b \<Longrightarrow> sameItemMaps b c \<Longrightarrow> sameItemMaps a c"
  by (simp add: sameItemMaps_def)

lemma sameItemMaps_appendError [simp]: "sameItemMaps st (appendError st m)"
  by (simp add: sameItemMaps_def appendError_def Let_def)

lemma sameItemMaps_stamp [simp]:
  "sameItemMaps st (st'\<lparr>LastCheckAt := x\<rparr>) = sameItemMaps st st'"
  "sameItemMaps st (st'\<lparr>LastUpdateAt := y\<rparr>) = sameItemMaps st st'"
  by (simp_all add: sameItemMaps_def)

lemma sameItemMaps_keys: "sameItemMaps st st' \<Longrightarrow> perItemKeys st' = perItemKeys st"
  by (simp add: sameItemMaps_def perItemKeys_def)

lemma verifyFormula_maps:
  "verifyFormula e st f = (f1, st1, k1) \<Longrightarrow> sameItemMaps st st1"
  by (auto simp: verifyFormula_def split: if_splits sum.splits)

lemma verifyCask_maps:
  "verifyCask e cfg st c = (c1, st1, k1) \<Longrightarrow> sameItemMaps st st1"
  by (auto simp: verifyCask_def split: if_splits sum.splits)

lemma runUpgradeFormula_maps:
  "runUpgradeFormula e cfg opts st names = (st1, k) \<Longrightarrow> sameItemMaps st st1"
  by (auto simp: runUpgradeFormula_def split: option.splits)

lemma runUpgradeCask_maps:
  "runUpgradeCask e cfg opts st names = (st1, k) \<Longrightarrow> sameItemMaps st st1"
  by (auto simp: runUpgradeCask_def split: option.splits)

lemma upgradeAll_unfold:
  assumes "splitByType outdated cfg = (f0, c0)"
    and "verifyFormula e st f0 = (f1, st1, k1)"
    and "verifyCask e cfg st1 c0 = (c1, st2, k2)"
    and "runUpgradeFormula e cfg opts st2 f1 = (st3, k3)"
    and "runUpgradeCask e cfg opts st3 c1 = (st4, k4)"
  shows "upgradeAll e cfg st opts now res outdated calls =
     (if f1 = [] \<and> c1 = [] then (res, cfg, st2\<lparr>LastCheckAt := Some now\<rparr>, None, calls @ k1 @ k2)
      else (res\<lparr>Outdated := filterOutdated outdated f1 c1\<rparr>, cfg,
            st4\<lparr>LastUpdateAt := Some (clock e 1), LastCheckAt := Some (clock e 2)\<rparr>, None,
            calls @ k1 @ k2 @ k3 @ k4 @ notifyUpdates cfg outdated ''Updated'' False))"
  using assms by (simp add: upgradeAll_def)

lemma upgradeAll_frame:
  assumes "upgradeAll e cfg st opts now res outdated calls = (res', cfg', st', er, calls')"
  shows "sameItemMaps st st' \<and> cfg' = cfg \<and> er = None"
proof -
  obtain f0 c0 where s: "splitByType outdated cfg = (f0, c0)" by (cases "splitByType outdated cfg")
  obtain f1 st1 k1 where vf: "verifyFormula e st f0 = (f1, st1, k1)"
    by (cases "verifyFormula e st f0")
  obtain c1 st2 k2 where vc: "verifyCask e cfg st1 c0 = (c1, st2, k2)"
    by (cases "verifyCask e cfg st1 c0")
  obtain st3 k3 where uf: "runUpgradeFormula e cfg opts st2 f1 = (st3, k3)"
    by (cases "runUpgradeFormula e cfg opts st2 f1")
  obtain st4 k4 where uc: "runUpgradeCask e cfg opts st3 c1 = (st4, k4)"
    by (cases "runUpgradeCask e cfg opts st3 c1")
  have m: "sameItemMaps st st2" "sameItemMaps st st4"
    using verifyFormula_maps [OF vf] verifyCask_maps [OF vc] runUpgradeFormula_maps [OF uf]
      runUpgradeCask_maps [OF uc]
    by (auto intro: sameItemMaps_trans)
  from assms show ?thesis
    unfolding upgradeAll_unfold [OF s vf vc uf uc] using m by (auto split: if_splits)
qed

lemma updateFailed_frame:
  "updateFailed cfg st opts now res er0 = (res', cfg', st', er, calls') \<Longrightarrow>
     sameItemMaps st st' \<and> cfg' = cfg \<and> er = None"
  by (auto simp: updateFailed_def)

lemma dispatch_frame:
  assumes "dispatch e cfg st opts now res outdated = (res', cfg', st', er, calls')"
  shows "sameItemMaps st st' \<and> cfg' = cfg \<and> er = None"
  using assms unfolding dispatch_def Let_def
  by (auto split: option.splits if_splits dest: upgradeAll_frame updateFailed_frame)

section \<open>The shape of a run and the keys of the state\<close>

lemma WatchKey_cases: "WatchKey n t = n \<or> WatchKey n t = t @ '':'' @ n"
  by (simp add: WatchKey_def)

lemma reconcileOne_keys:
  "perItemKeys (fst (reconcileOne e now installed r (st, od))) \<subseteq> insert (resultKey r) (perItemKeys st)"
  by (auto simp: reconcileOne_def perItemKeys_def resultKey_def Let_def appendError_def dom_def
      split: option.splits if_splits)

lemma reconcile_keys:
  "perItemKeys (fst (reconcile e now installed rs acc)) \<subseteq> resultKey ` set rs \<union> perItemKeys (fst acc)"
proof (induction rs arbitrary: acc)
  case Nil
  then show ?case by simp
next
  case (Cons r rs)
  obtain st od where a: "acc = (st, od)" by (cases acc)
  from Cons.IH [of "reconcileOne e now installed r acc"] reconcileOne_keys [of e now installed r st od]
  show ?case unfolding a by auto
qed

lemma lookupNext_cong:
  "Name a = Name b \<Longrightarrow> Type a = Type b \<Longrightarrow> lookupNext st a = lookupNext st b"
  by (simp add: lookupNext_def Let_def cong: option.case_cong)

lemma isDue_cong:
  "Name a = Name b \<Longrightarrow> Type a = Type b \<Longrightarrow> isDue e st now a = isDue e st now b"
  by (simp add: isDue_def lookupNext_cong [of a b])

lemma withDefaultInterval_same [simp]:
  "Name (withDefaultInterval it) = Name it" "Type (withDefaultInterval it) = Type it"
  "Policy (withDefaultInterval it) = Policy it"
  by (simp_all add: withDefaultInterval_def)

lemma dueLoop_eq:
  "dueLoop e st now xs = map withDefaultInterval (filter (isDue e st now) xs)"
  by (induction xs)
    (auto simp: withDefaultInterval_def Let_def isDue_cong [of "_\<lparr>IntervalMin := _\<rparr>" _, simplified])

lemma dueItems_eq:
  "dueItems e cfg st now = map withDefaultInterval (filter (isDue e st now) (Watchlist cfg))"
  by (simp add: dueItems_def dueLoop_eq)

lemma dueItems_watched:
  "it \<in> set (dueItems e cfg st now) \<Longrightarrow> WatchKey (Name it) (Type it) \<in> watched cfg"
  by (auto simp: dueItems_eq watched_def)

lemma cleanup_keys: "perItemKeys (cleanupStateKeys cfg st) \<subseteq> watched cfg"
  by (auto simp: cleanupStateKeys_def perItemKeys_def restrict_map_def dom_def split: if_splits)

lemma prepare_keys:
  "prepare e cfg st = Inr (removed, cfg1, st3, installed) \<Longrightarrow> perItemKeys st3 \<subseteq> watched cfg1"
  by (auto simp: prepare_def split: sum.splits prod.splits dest: cleanup_keys [THEN subsetD])

lemma fetchLatest_items:
  "set (schedule e due) \<subseteq> set due \<Longrightarrow> r \<in> set (fetchLatest e due st) \<Longrightarrow> item r \<in> set due"
  by (auto simp: fetchLatest_def fetchOne_def Let_def split: prod.splits)

text \<open>The shape of a run: it fails at the snapshot, stops with nothing due, or goes through
  the fetch, the reconciliation of the results and the action dispatch.\<close>

lemma Run_cases:
  assumes "Run e cfg st opts = out"
  obtains
    (failed) er where "prepare e cfg st = Inl er" "out = (emptyResult, cfg, st, Some er, [])"
  | (idle) removed cfg1 st3 installed where
      "prepare e cfg st = Inr (removed, cfg1, st3, installed)"
      "dueItems e cfg1 st3 (clock e 0) = []"
      "out = (emptyResult\<lparr>Removed := removed, Checked := 0, CheckedNames := namesFromItems []\<rparr>,
              cfg1, st3\<lparr>LastCheckAt := Some (clock e 0)\<rparr>, None, [])"
  | (active) removed cfg1 st3 installed st4 outdated where
      "prepare e cfg st = Inr (removed, cfg1, st3, installed)"
      "dueItems e cfg1 st3 (clock e 0) \<noteq> []"
      "reconcile e (clock e 0) installed
         (fetchLatest e (dueItems e cfg1 st3 (clock e 0)) st3) (st3, []) = (st4, outdated)"
      "out = dispatch e cfg1 st4 opts (clock e 0)
               (emptyResult\<lparr>Removed := removed,
                             Checked := length (dueItems e cfg1 st3 (clock e 0)),
                             CheckedNames := namesFromItems (dueItems e cfg1 st3 (clock e 0)),
                             Outdated := outdated\<rparr>) outdated"
proof (cases "prepare e cfg st")
  case (Inl er)
  with assms failed show ?thesis by (simp add: Run_def)
next
  case (Inr x)
  obtain removed cfg1 st3 installed where x: "x = (removed, cfg1, st3, installed)"
    by (cases x) auto
  show ?thesis
  proof (cases "dueItems e cfg1 st3 (clock e 0) = []")
    case True
    with assms Inr x idle show ?thesis by (simp add: Run_def Let_def)
  next
    case False
    obtain st4 outdated where
      r: "reconcile e (clock e 0) installed
            (fetchLatest e (dueItems e cfg1 st3 (clock e 0)) st3) (st3, []) = (st4, outdated)"
      by (cases "reconcile e (clock e 0) installed
            (fetchLatest e (dueItems e cfg1 st3 (clock e 0)) st3) (st3, [])")
    with assms Inr x False active show ?thesis by (simp add: Run_def Let_def)
  qed
qed

section \<open>Evaluating the sample world\<close>

lemmas string_eval = TrimSpace_def ws_encodings_def trimPrefixes.simps Fields_def fieldsFrom.simps

lemma sample_TrimSpace:
  "TrimSpace ''foo 1.0.0\<newline>bar 2.0.0\<newline>'' =
     ''foo 1.0.0\<newline>bar 2.0.0''"
  "TrimSpace ''foo 1.0.0'' = ''foo 1.0.0''"
  "TrimSpace ''bar 2.0.0'' = ''bar 2.0.0''"
  "TrimSpace ''foo\<newline>'' = ''foo''"
  "TrimSpace ''bar\<newline>'' = ''bar''"
  "TrimSpace ''foo'' = ''foo''"
  "TrimSpace ''bar'' = ''bar''"
  "TrimSpace ''exit status 1'' = ''exit status 1''"
  by (simp_all add: string_eval)

lemma sample_Fields:
  "Fields ''foo 1.0.0'' = [''foo'', ''1.0.0'']"
  "Fields ''bar 2.0.0'' = [''bar'', ''2.0.0'']"
  "Fields ''foo'' = [''foo'']"
  "Fields ''bar'' = [''bar'']"
  by (simp_all add: string_eval)

lemma sample_parseOutdated:
  "parseOutdated [] = []"
  "parseOutdated ''foo\<newline>'' = [''foo'']"
  "parseOutdated ''bar\<newline>'' = [''bar'']"
  by (simp_all add: parseOutdated_def TrimSpace_empty sample_TrimSpace sample_Fields)

lemma sample_ListInstalled:
  "''list'' \<notin> set failing \<Longrightarrow>
     ListInstalled (sampleEnv failing) =
       Inr ([''foo'' \<mapsto> ''1.0.0'', ''bar'' \<mapsto> ''2.0.0''], Map.empty)"
  by (simp add: ListInstalled_def listVersions_def sampleEnv_def sampleBrew_def TrimSpace_empty
      sample_TrimSpace sample_Fields)

lemma sint_word64: "sint (word_of_int k :: 64 word) = signed_take_bit 63 k"
  by (subst sint_sbintrunc') simp

lemma minutes_small:
  assumes "- 153722867 \<le> m" "m \<le> 153722867"
  shows "minutes m = m * 60000000000"
proof -
  have "- (2 ^ 63) \<le> m * 60000000000" "m * 60000000000 < 2 ^ 63"
    using assms by simp_all
  then have "signed_take_bit 63 (m * 60000000000) = m * 60000000000"
    by (rule signed_take_bit_int_eq_self)
  then show ?thesis
    unfolding minutes_def sint_word64 .
qed

lemma sample_isOutdated:
  "isOutdated ''1.0.0'' ''1.1.0'' 0 0" "isOutdated ''2.0.0'' ''2.1.0'' 0 0"
  by (simp_all add: isOutdated_def version_eval)

lemma sample_prepare:
  "''list'' \<notin> set failing \<Longrightarrow>
     prepare (sampleEnv failing) (sampleConfig twoItems) DefaultState =
     Inr ([], sampleConfig twoItems, DefaultState,
          [''formula:foo'' \<mapsto> ''1.0.0'', ''formula:bar'' \<mapsto> ''2.0.0''])"
  by (simp add: prepare_def sample_ListInstalled normalizeStateKeys_def migrate_def
      installedVersion_def sampleConfig_def sampleItem_def DefaultState_def WatchKey_def
      cleanupStateKeys_def watched_def twoItems_def)

lemma sample_due:
  "dueItems (sampleEnv failing) (sampleConfig twoItems) DefaultState t = twoItems"
  by (simp add: dueItems_def isDue_def lookupNext_def sampleConfig_def sampleItem_def
      DefaultState_def WatchKey_def twoItems_def)

lemma sample_clock: "clock (sampleEnv failing) k = 1793534400000000000"
  by (simp add: sampleEnv_def)

lemma sample_reconcile:
  "reconcile (sampleEnv failing) 1793534400000000000
     [''formula:foo'' \<mapsto> ''1.0.0'', ''formula:bar'' \<mapsto> ''2.0.0'']
     (fetchLatest (sampleEnv failing) twoItems DefaultState) (DefaultState, []) =
   (sampleReconciled, sampleOutdated)"
  by (simp add: fetchLatest_def fetchOne_def sampleEnv_def sampleFetch_def sampleItem_def
      DefaultState_def URLFor_def buildURL_def baseURL_def reconcileOne_def WatchKey_def 
      sample_isOutdated minutes_small sampleFormat_def twoItems_def Let_def
      sampleReconciled_def sampleOutdated_def)

lemmas dispatch_eval =
  dispatch_def upgradeAll_def updateFailed_def verifyFormula_def verifyCask_def
  runUpgradeFormula_def runUpgradeCask_def Update_def UpgradeFormula_def UpgradeCask_def
  OutdatedFormula_def OutdatedCask_def splitByType_def effectivePolicy_def filterOutdated_def
  notifyUpdates_def notifyFailure_def appendError_def updateMessage_def WatchKey_def Let_def
  sampleEnv_def sampleBrew_def sampleConfig_def sampleOptions_def sampleOutdated_def
  sampleItem_def sampleReconciled_def sample_parseOutdated sample_TrimSpace

section \<open>Garbage collection of orphan state\<close>

lemma watched_iff:
  "k \<in> watched cfg \<longleftrightarrow> (\<exists>w \<in> set (Watchlist cfg). k = WatchKey (Name w) (Type w) \<or> k = Name w)"
  by (auto simp: watched_def)

text \<open>
  C7. After a run that returns without error, every key of the next-check, last-version and
  last-scheme maps is the composite key or the bare name of an item of the watchlist the
  run returns, provided the fetch workers return results only for the items they were given.
\<close>

theorem Run_no_orphans:
  assumes run: "Run e cfg st opts = (res, cfg', st', None, calls)"
    and sched: "\<forall>xs. set (schedule e xs) \<subseteq> set xs"
  shows "\<forall>k \<in> perItemKeys st'.
           \<exists>w \<in> set (Watchlist cfg'). k = WatchKey (Name w) (Type w) \<or> k = Name w"
proof -
  have "perItemKeys st' \<subseteq> watched cfg'"
    using run
  proof (cases rule: Run_cases)
    case (failed er)
    then show ?thesis by simp
  next
    case (idle removed cfg1 st3 installed)
    with prepare_keys [OF idle(1)] show ?thesis
      by (auto simp: perItemKeys_def)
  next
    case (active removed cfg1 st3 installed st4 outdated)
    let ?due = "dueItems e cfg1 st3 (clock e 0)"
    from active(4) dispatch_frame have f: "sameItemMaps st4 st'" "cfg' = cfg1"
      by (metis)+
    have "resultKey r \<in> watched cfg1" if "r \<in> set (fetchLatest e ?due st3)" for r
      using fetchLatest_items [OF _ that] sched dueItems_watched [of "item r" e cfg1 st3 "clock e 0"]
      by (auto simp: resultKey_def)
    moreover have "perItemKeys st4 \<subseteq> resultKey ` set (fetchLatest e ?due st3) \<union> perItemKeys st3"
      using reconcile_keys [of e "clock e 0" installed "fetchLatest e ?due st3" "(st3, [])"]
      by (simp add: active(3))
    ultimately have "perItemKeys st4 \<subseteq> watched cfg1"
      using prepare_keys [OF active(1)] by auto
    then show ?thesis
      using f sameItemMaps_keys by auto
  qed
  then show ?thesis
    by (auto simp: watched_iff)
qed

lemma sample_prepare_orphan:
  "''list'' \<notin> set failing \<Longrightarrow>
     prepare (sampleEnv failing) (sampleConfig twoItems) orphanState =
     Inr ([], sampleConfig twoItems, DefaultState,
          [''formula:foo'' \<mapsto> ''1.0.0'', ''formula:bar'' \<mapsto> ''2.0.0''])"
  by (simp add: prepare_def sample_ListInstalled normalizeStateKeys_def migrate_def
      installedVersion_def sampleConfig_def sampleItem_def DefaultState_def WatchKey_def
      cleanupStateKeys_def watched_def twoItems_def orphanState_def restrict_map_def fun_eq_iff)

lemma sample_Run_dispatch:
  assumes "prepare (sampleEnv failing) (sampleConfig twoItems) st0 =
     Inr ([], sampleConfig twoItems, DefaultState,
          [''formula:foo'' \<mapsto> ''1.0.0'', ''formula:bar'' \<mapsto> ''2.0.0''])"
  shows "Run (sampleEnv failing) (sampleConfig twoItems) st0 sampleOptions =
     dispatch (sampleEnv failing) (sampleConfig twoItems) sampleReconciled sampleOptions
       1793534400000000000 sampleChecked sampleOutdated"
proof -
  have "twoItems \<noteq> []" by (simp add: twoItems_def)
  moreover have "namesFromItems twoItems = [''bar'', ''foo'']"
    by (simp add: namesFromItems_def twoItems_def sampleItem_def)
  moreover have "length twoItems = 2" by (simp add: twoItems_def)
  ultimately show ?thesis
    by (simp add: Run_def assms sample_due sample_clock sample_reconcile emptyResult_def
        sampleChecked_def)
qed

lemma sample_dispatch_ok:
  "dispatch (sampleEnv []) (sampleConfig twoItems) sampleReconciled sampleOptions
       1793534400000000000 sampleChecked sampleOutdated =
   (sampleChecked\<lparr>Outdated := [hd sampleOutdated]\<rparr>, sampleConfig twoItems,
    sampleReconciled\<lparr>LastUpdateAt := Some 1793534400000000000,
                     LastCheckAt := Some 1793534400000000000\<rparr>,
    None,
    [CallUpdate False, CallOutdatedFormula [''foo''], CallUpgradeFormula [''foo''] False,
     CallUpgradeCask [] True False] @ sampleNotices)"
  by (simp add: dispatch_eval sampleNotices_def sampleChecked_def)

lemma sample_dispatch_outdated_fails:
  "dispatch (sampleEnv [''outdated'']) (sampleConfig twoItems) sampleReconciled sampleOptions
       1793534400000000000 sampleChecked sampleOutdated =
   (sampleChecked\<lparr>Outdated := [hd sampleOutdated]\<rparr>, sampleConfig twoItems,
    sampleReconciled\<lparr>LastErrors := [''brew outdated formula failed: exit status 1''],
                     LastUpdateAt := Some 1793534400000000000,
                     LastCheckAt := Some 1793534400000000000\<rparr>,
    None,
    [CallUpdate False, CallOutdatedFormula [''foo''], CallUpgradeFormula [''foo''] False,
     CallUpgradeCask [] True False] @ sampleNotices)"
  by (simp add: dispatch_eval sampleNotices_def sampleChecked_def)

lemma sample_dispatch_update_fails:
  "dispatch (sampleEnv [''update'']) (sampleConfig twoItems) sampleReconciled sampleOptions
       1793534400000000000 sampleChecked sampleOutdated =
   (sampleChecked, sampleConfig twoItems,
    sampleReconciled\<lparr>LastErrors := [''brew update failed: exit status 1''],
                     LastCheckAt := Some 1793534400000000000\<rparr>,
    None,
    [CallUpdate False,
     CallNotify ''terminal-notifier'' ''brew-updater failed''
       ''brew update failed: exit status 1'' ''brew-updater status''])"
  by (simp add: dispatch_eval sampleNotices_def sampleChecked_def)

lemma sample_dispatch_upgrade_fails:
  "dispatch (sampleEnv [''upgrade'']) (sampleConfig twoItems) sampleReconciled sampleOptions
       1793534400000000000 sampleChecked sampleOutdated =
   (sampleChecked\<lparr>Outdated := [hd sampleOutdated]\<rparr>, sampleConfig twoItems,
    sampleReconciled\<lparr>LastErrors := [''formula upgrade failed: exit status 1''],
                     LastUpdateAt := Some 1793534400000000000,
                     LastCheckAt := Some 1793534400000000000\<rparr>,
    None,
    [CallUpdate False, CallOutdatedFormula [''foo''], CallUpgradeFormula [''foo''] False,
     CallNotify ''terminal-notifier'' ''brew-updater failed''
       ''formula upgrade failed: exit status 1'' ''brew-updater status'',
     CallUpgradeCask [] True False] @ sampleNotices)"
  by (simp add: dispatch_eval sampleNotices_def sampleChecked_def)

lemma sample_schedule: "\<forall>xs. set (schedule (sampleEnv failing) xs) \<subseteq> set xs"
  by (simp add: sampleEnv_def)

lemma sample_Run_orphan:
  "Run (sampleEnv []) (sampleConfig twoItems) orphanState sampleOptions =
   (sampleChecked\<lparr>Outdated := [hd sampleOutdated]\<rparr>, sampleConfig twoItems,
    sampleReconciled\<lparr>LastUpdateAt := Some 1793534400000000000,
                     LastCheckAt := Some 1793534400000000000\<rparr>,
    None,
    [CallUpdate False, CallOutdatedFormula [''foo''], CallUpgradeFormula [''foo''] False,
     CallUpgradeCask [] True False] @ sampleNotices)"
  by (simp add: sample_Run_dispatch [OF sample_prepare_orphan] sample_dispatch_ok)

theorem Run_no_orphans_witness:
  "Run (sampleEnv []) (sampleConfig twoItems) orphanState sampleOptions =
     (sampleChecked\<lparr>Outdated := [hd sampleOutdated]\<rparr>, sampleConfig twoItems,
      sampleReconciled\<lparr>LastUpdateAt := Some 1793534400000000000,
                       LastCheckAt := Some 1793534400000000000\<rparr>,
      None,
      [CallUpdate False, CallOutdatedFormula [''foo''], CallUpgradeFormula [''foo''] False,
       CallUpgradeCask [] True False] @ sampleNotices) \<and>
   (\<forall>xs. set (schedule (sampleEnv []) xs) \<subseteq> set xs) \<and>
   ''formula:gone'' \<in> perItemKeys orphanState \<and>
   ''formula:gone'' \<notin> perItemKeys (sampleReconciled\<lparr>LastUpdateAt := Some 1793534400000000000,
                                                    LastCheckAt := Some 1793534400000000000\<rparr>)"
proof -
  have "''formula:gone'' \<in> perItemKeys orphanState"
    by (simp add: perItemKeys_def orphanState_def DefaultState_def)
  moreover have "\<not> (\<exists>w \<in> set (Watchlist (sampleConfig twoItems)).
      ''formula:gone'' = WatchKey (Name w) (Type w) \<or> ''formula:gone'' = Name w)"
    by (simp add: sampleConfig_def twoItems_def sampleItem_def WatchKey_def)
  ultimately show ?thesis
    using Run_no_orphans [OF sample_Run_orphan sample_schedule] sample_Run_orphan sample_schedule
    by blast
qed

section \<open>Which names reach the upgrade operations\<close>

lemma upgradeAll_cases:
  assumes "upgradeAll e cfg st opts now res outdated calls = out"
  obtains f0 c0 f1 st1 k1 c1 st2 k2 st3 k3 st4 k4 where
    "splitByType outdated cfg = (f0, c0)"
    "verifyFormula e st f0 = (f1, st1, k1)"
    "verifyCask e cfg st1 c0 = (c1, st2, k2)"
    "runUpgradeFormula e cfg opts st2 f1 = (st3, k3)"
    "runUpgradeCask e cfg opts st3 c1 = (st4, k4)"
    "out =
     (if f1 = [] \<and> c1 = [] then (res, cfg, st2\<lparr>LastCheckAt := Some now\<rparr>, None, calls @ k1 @ k2)
      else (res\<lparr>Outdated := filterOutdated outdated f1 c1\<rparr>, cfg,
            st4\<lparr>LastUpdateAt := Some (clock e 1), LastCheckAt := Some (clock e 2)\<rparr>, None,
            calls @ k1 @ k2 @ k3 @ k4 @ notifyUpdates cfg outdated ''Updated'' False))"
proof -
  obtain f0 c0 where s: "splitByType outdated cfg = (f0, c0)" by (cases "splitByType outdated cfg")
  obtain f1 st1 k1 where vf: "verifyFormula e st f0 = (f1, st1, k1)"
    by (cases "verifyFormula e st f0")
  obtain c1 st2 k2 where vc: "verifyCask e cfg st1 c0 = (c1, st2, k2)"
    by (cases "verifyCask e cfg st1 c0")
  obtain st3 k3 where uf: "runUpgradeFormula e cfg opts st2 f1 = (st3, k3)"
    by (cases "runUpgradeFormula e cfg opts st2 f1")
  obtain st4 k4 where uc: "runUpgradeCask e cfg opts st3 c1 = (st4, k4)"
    by (cases "runUpgradeCask e cfg opts st3 c1")
  show ?thesis
    using that [OF s vf vc uf uc] assms upgradeAll_unfold [OF s vf vc uf uc] by simp
qed

text \<open>The action dispatch either never reaches \<open>splitByType\<close>, and then makes no call
  besides the index refresh and notices, or it ends in \<open>upgradeAll\<close>.\<close>

lemma dispatch_cases:
  assumes "dispatch e cfg st opts now res outdated = out"
  obtains
    (refresh_failed) x where
      "Update e (Verbose opts) = Some x" "out = updateFailed cfg st opts now res x"
      "\<not> (DryRun opts \<or> NotifyOnly opts)" "ForceUpdate opts \<or> outdated \<noteq> []"
  | (none_outdated) k0 where
      "outdated = []" "out = (res, cfg, st\<lparr>LastCheckAt := Some now\<rparr>, None, k0)"
      "k0 = [] \<or> (k0 = [CallUpdate (Verbose opts)] \<and> Update e (Verbose opts) = None)"
  | (notice_only) 
      "outdated \<noteq> []" "DryRun opts \<or> NotifyOnly opts"
      "out = (res, cfg, st\<lparr>LastCheckAt := Some now\<rparr>, None,
              notifyUpdates cfg outdated ''Update available'' True)"
  | (upgrade)
      "outdated \<noteq> []" "\<not> (DryRun opts \<or> NotifyOnly opts)" "Update e (Verbose opts) = None"
      "out = upgradeAll e cfg st opts now res outdated [CallUpdate (Verbose opts)]"
proof (cases "ForceUpdate opts \<and> \<not> DryRun opts \<and> \<not> NotifyOnly opts")
  case force: True
  show ?thesis
  proof (cases "Update e (Verbose opts)")
    case None
    show ?thesis
    proof (cases "outdated = []")
      case True
      have "out = (res, cfg, st\<lparr>LastCheckAt := Some now\<rparr>, None, [CallUpdate (Verbose opts)])"
        using assms force None True by (simp add: dispatch_def)
      then show ?thesis by (rule none_outdated [OF True]) (simp add: None)
    next
      case False
      have "out = upgradeAll e cfg st opts now res outdated [CallUpdate (Verbose opts)]"
        using assms force None False by (simp add: dispatch_def)
      then show ?thesis using upgrade False force None by blast
    qed
  next
    case (Some x)
    have "out = updateFailed cfg st opts now res x"
      using assms force Some by (simp add: dispatch_def)
    then show ?thesis using refresh_failed force Some by blast
  qed
next
  case noforce: False
  show ?thesis
  proof (cases "outdated = []")
    case True
    have "out = (res, cfg, st\<lparr>LastCheckAt := Some now\<rparr>, None, [])"
      using assms noforce True by (auto simp: dispatch_def)
    then show ?thesis by (rule none_outdated [OF True]) simp
  next
    case ne: False
    show ?thesis
    proof (cases "DryRun opts \<or> NotifyOnly opts")
      case True
      have "out = (res, cfg, st\<lparr>LastCheckAt := Some now\<rparr>, None,
                   notifyUpdates cfg outdated ''Update available'' True)"
        using assms noforce ne True by (auto simp: dispatch_def)
      then show ?thesis using notice_only ne True by blast
    next
      case False
      show ?thesis
      proof (cases "Update e (Verbose opts)")
        case None
        have "out = upgradeAll e cfg st opts now res outdated [CallUpdate (Verbose opts)]"
          using assms noforce ne False None by (auto simp: dispatch_def)
        then show ?thesis using upgrade ne False None by blast
      next
        case (Some x)
        have "out = updateFailed cfg st opts now res x"
          using assms noforce ne False Some by (auto simp: dispatch_def)
        then show ?thesis using refresh_failed ne False Some by blast
      qed
    qed
  qed
qed

lemma installedVersion_ok_type:
  "installedVersion f c it = (v, typ, True) \<Longrightarrow> typ = ''formula'' \<or> typ = ''cask''"
  by (auto simp: installedVersion_def split: if_splits option.splits)

lemma pruneLoop_types:
  "pruneLoop f c items acc = (removed', st', inst', filtered') \<Longrightarrow>
   \<forall>w \<in> set (snd (snd (snd acc))). Type w = ''formula'' \<or> Type w = ''cask'' \<Longrightarrow>
   \<forall>w \<in> set filtered'. Type w = ''formula'' \<or> Type w = ''cask''"
proof (induction items arbitrary: acc)
  case Nil
  then show ?case by auto
next
  case (Cons it items)
  obtain rm s0 ins fl where acc: "acc = (rm, s0, ins, fl)"
    by (cases acc) auto
  obtain v ty ok where iv: "installedVersion f c it = (v, ty, ok)"
    by (cases "installedVersion f c it") auto
  show ?case
  proof (cases ok)
    case True
    with iv installedVersion_ok_type [of f c it v ty] have "ty = ''formula'' \<or> ty = ''cask''" by simp
    with Cons.IH [of "(rm, s0, ins(WatchKey (Name it) ty \<mapsto> v), fl @ [it\<lparr>Type := ty\<rparr>])"]
      Cons.prems True iv
    show ?thesis by (simp add: acc)
  next
    case False
    with Cons.IH [of "(rm @ [it],
        s0\<lparr>NextCheckAt := (NextCheckAt s0)(WatchKey (Name it) (Type it) := None, Name it := None),
           LastVersions := (LastVersions s0)(WatchKey (Name it) (Type it) := None, Name it := None)\<rparr>,
        ins, fl)"] Cons.prems iv
    show ?thesis by (simp add: acc)
  qed
qed

lemma prepare_types:
  "prepare e cfg st = Inr (removed, cfg1, st3, installed) \<Longrightarrow>
     \<forall>w \<in> set (Watchlist cfg1). Type w = ''formula'' \<or> Type w = ''cask''"
  by (auto simp: prepare_def split: sum.splits prod.splits dest!: pruneLoop_types)

lemma dueItems_types:
  "it \<in> set (dueItems e cfg st now) \<Longrightarrow> \<exists>w \<in> set (Watchlist cfg). Type it = Type w"
  by (auto simp: dueItems_eq)

lemma reconcileOne_outdated:
  "x \<in> set (snd (reconcileOne e now inst r (st, od))) \<Longrightarrow> x \<in> set od \<or> Item x = item r"
  by (auto simp: reconcileOne_def Let_def split: option.splits if_splits)

lemma reconcile_outdated:
  "x \<in> set (snd (reconcile e now inst rs acc)) \<Longrightarrow> x \<in> set (snd acc) \<or> Item x \<in> item ` set rs"
proof (induction rs arbitrary: acc)
  case Nil
  then show ?case by simp
next
  case (Cons r rs)
  obtain st od where a: "acc = (st, od)" by (cases acc)
  from Cons.IH [OF Cons.prems [simplified]] reconcileOne_outdated [of x e now inst r st od]
  show ?case unfolding a by auto
qed

lemma splitByType_sets:
  assumes "splitByType outdated cfg = (f0, c0)"
  shows "set f0 = {Name (Item x) | x. x \<in> set outdated \<and> effectivePolicy cfg (Item x) = ''auto'' \<and>
                     Type (Item x) \<noteq> ''cask''}"
    and "set c0 = {Name (Item x) | x. x \<in> set outdated \<and> effectivePolicy cfg (Item x) = ''auto'' \<and>
                     Type (Item x) = ''cask''}"
  using assms by (auto simp: splitByType_def Let_def)

lemma verifyFormula_calls:
  "verifyFormula e st f0 = (f1, st1, k1) \<Longrightarrow> k1 = (if f0 = [] then [] else [CallOutdatedFormula f0])"
  by (auto simp: verifyFormula_def split: if_splits sum.splits)

lemma verifyCask_calls:
  "verifyCask e cfg st c0 = (c1, st1, k1) \<Longrightarrow>
     k1 = (if c0 = [] then [] else [CallOutdatedCask c0 (IncludeAutoUpdateCask cfg)])"
  by (auto simp: verifyCask_def split: if_splits sum.splits)

lemma verifyFormula_names:
  "verifyFormula e st f0 = (f1, st1, k1) \<Longrightarrow>
     f1 = f0 \<or> (f0 \<noteq> [] \<and> OutdatedFormula e f0 = Inr f1)"
  by (auto simp: verifyFormula_def split: if_splits sum.splits)

lemma verifyCask_names:
  "verifyCask e cfg st c0 = (c1, st1, k1) \<Longrightarrow>
     c1 = c0 \<or> (c0 \<noteq> [] \<and> OutdatedCask e c0 (IncludeAutoUpdateCask cfg) = Inr c1)"
  by (auto simp: verifyCask_def split: if_splits sum.splits)

lemma runUpgradeFormula_calls:
  "runUpgradeFormula e cfg opts st names = (st', k) \<Longrightarrow>
     k = CallUpgradeFormula names (Verbose opts) #
         (case UpgradeFormula e names (Verbose opts) of
            None \<Rightarrow> [] | Some x \<Rightarrow> notifyFailure cfg ''formula upgrade failed'' x)"
  by (auto simp: runUpgradeFormula_def split: option.splits)

lemma runUpgradeCask_calls:
  "runUpgradeCask e cfg opts st names = (st', k) \<Longrightarrow>
     k = CallUpgradeCask names (IncludeAutoUpdateCask cfg) (Verbose opts) #
         (case UpgradeCask e names (IncludeAutoUpdateCask cfg) (Verbose opts) of
            None \<Rightarrow> [] | Some x \<Rightarrow> notifyFailure cfg ''cask upgrade failed'' x)"
  by (auto simp: runUpgradeCask_def split: option.splits)

text \<open>Notices are calls of the notifier and nothing else.\<close>

lemma notifyUpdates_calls:
  "c \<in> set (notifyUpdates cfg items action forceAll) \<Longrightarrow> \<exists>m t msg x. c = CallNotify m t msg x"
  by (auto simp: notifyUpdates_def split: if_splits)

lemma notifyFailure_calls:
  "c \<in> set (notifyFailure cfg title x) \<Longrightarrow> \<exists>m t msg y. c = CallNotify m t msg y"
  by (auto simp: notifyFailure_def)

lemma filterOutdated_formula:
  "x \<in> set outdated \<Longrightarrow> Type (Item x) = ''formula'' \<Longrightarrow> Name (Item x) \<in> set f1 \<Longrightarrow>
     x \<in> set (filterOutdated outdated f1 c1)"
  by (auto simp: filterOutdated_def WatchKey_def)

lemma filterOutdated_cask:
  "x \<in> set outdated \<Longrightarrow> Type (Item x) = ''cask'' \<Longrightarrow> Name (Item x) \<in> set c1 \<Longrightarrow>
     x \<in> set (filterOutdated outdated f1 c1)"
  by (auto simp: filterOutdated_def WatchKey_def)

lemma Run_outdated_types:
  assumes p: "prepare e cfg st = Inr (removed, cfg1, st3, installed)"
    and r: "reconcile e now installed (fetchLatest e (dueItems e cfg1 st3 t) st3) (st3, []) = (st4, outdated)"
    and sched: "\<forall>xs. set (schedule e xs) \<subseteq> set xs"
    and x: "x \<in> set outdated"
  shows "Type (Item x) = ''formula'' \<or> Type (Item x) = ''cask''"
proof -
  from reconcile_outdated [of x e now installed "fetchLatest e (dueItems e cfg1 st3 t) st3" "(st3, [])"] x r
  obtain rr where rr: "rr \<in> set (fetchLatest e (dueItems e cfg1 st3 t) st3)" "Item x = item rr"
    by auto
  from fetchLatest_items [OF _ rr(1)] sched have "item rr \<in> set (dueItems e cfg1 st3 t)"
    by blast
  from dueItems_types [OF this] prepare_types [OF p] rr(2) show ?thesis
    by auto
qed

lemma sample_Run_ok:
  "Run (sampleEnv []) (sampleConfig twoItems) DefaultState sampleOptions =
   (sampleChecked\<lparr>Outdated := [hd sampleOutdated]\<rparr>, sampleConfig twoItems,
    sampleReconciled\<lparr>LastUpdateAt := Some 1793534400000000000,
                     LastCheckAt := Some 1793534400000000000\<rparr>,
    None,
    [CallUpdate False, CallOutdatedFormula [''foo''], CallUpgradeFormula [''foo''] False,
     CallUpgradeCask [] True False] @ sampleNotices)"
  by (simp add: sample_Run_dispatch [OF sample_prepare] sample_dispatch_ok)

lemma sample_contract:
  "OutdatedFormula (sampleEnv []) [''foo''] = Inr [''foo'']"
  by (simp add: OutdatedFormula_def sampleEnv_def sampleBrew_def sample_parseOutdated)

section \<open>Next-check times\<close>














section \<open>Failures of the package manager\<close>

lemma appendError_last: "\<exists>ys. LastErrors (appendError st m) = ys @ [m]"
  by (simp add: appendError_def Let_def)

lemma appendError_keeps:
  assumes "LastErrors st = ys @ m # zs" "length zs < 19"
  shows "\<exists>ys'. LastErrors (appendError st m') = ys' @ m # (zs @ [m'])"
proof -
  have "drop (Suc (length ys + length zs) - 19) (ys @ m # zs @ [m']) =
        drop (Suc (length ys + length zs) - 19) ys @ m # zs @ [m']"
    using assms(2) by simp
  then show ?thesis
    using assms by (auto simp: appendError_def Let_def)
qed

text \<open>A message stays in the ring while fewer than twenty messages follow it.\<close>

lemma recorded_step:
  assumes "\<exists>ys zs. LastErrors st = ys @ m # zs \<and> length zs \<le> n" "n < 19"
    and "LastErrors st' = LastErrors st \<or> (\<exists>m'. st' = appendError st m')"
  shows "\<exists>ys zs. LastErrors st' = ys @ m # zs \<and> length zs \<le> Suc n"
proof -
  from assms(1) obtain ys zs where l: "LastErrors st = ys @ m # zs" "length zs \<le> n" by blast
  from assms(3) show ?thesis
  proof
    assume "LastErrors st' = LastErrors st"
    with l show ?thesis by (metis le_SucI)
  next
    assume "\<exists>m'. st' = appendError st m'"
    then obtain m' where "st' = appendError st m'" by blast
    with appendError_keeps [OF l(1), of m'] l(2) assms(2)
    obtain ys' where "LastErrors st' = ys' @ m # (zs @ [m'])" by auto
    moreover have "length (zs @ [m']) \<le> Suc n" using l(2) by simp
    ultimately show ?thesis by blast
  qed
qed

lemma recorded_member:
  "\<exists>ys zs. LastErrors st = ys @ m # zs \<and> length zs \<le> n \<Longrightarrow> m \<in> set (LastErrors st)"
  by auto

lemma verifyFormula_errors:
  "verifyFormula e st f0 = (f1, st1, k1) \<Longrightarrow>
     LastErrors st1 = LastErrors st \<or> (\<exists>m'. st1 = appendError st m')"
  by (auto simp: verifyFormula_def split: if_splits sum.splits)

lemma verifyCask_errors:
  "verifyCask e cfg st c0 = (c1, st1, k1) \<Longrightarrow>
     LastErrors st1 = LastErrors st \<or> (\<exists>m'. st1 = appendError st m')"
  by (auto simp: verifyCask_def split: if_splits sum.splits)

lemma runUpgradeFormula_errors:
  "runUpgradeFormula e cfg opts st names = (st1, k) \<Longrightarrow>
     LastErrors st1 = LastErrors st \<or> (\<exists>m'. st1 = appendError st m')"
  by (auto simp: runUpgradeFormula_def split: option.splits)

lemma runUpgradeCask_errors:
  "runUpgradeCask e cfg opts st names = (st1, k) \<Longrightarrow>
     LastErrors st1 = LastErrors st \<or> (\<exists>m'. st1 = appendError st m')"
  by (auto simp: runUpgradeCask_def split: option.splits)

lemma verifyFormula_failed:
  "verifyFormula e st f0 = (f1, st1, k1) \<Longrightarrow> f0 \<noteq> [] \<Longrightarrow> OutdatedFormula e f0 = Inl x \<Longrightarrow>
     f1 = f0 \<and> st1 = appendError st (''brew outdated formula failed: '' @ x)"
  by (auto simp: verifyFormula_def)

lemma verifyCask_failed:
  "verifyCask e cfg st c0 = (c1, st1, k1) \<Longrightarrow> c0 \<noteq> [] \<Longrightarrow>
   OutdatedCask e c0 (IncludeAutoUpdateCask cfg) = Inl x \<Longrightarrow>
     c1 = c0 \<and> st1 = appendError st (''brew outdated cask failed: '' @ x)"
  by (auto simp: verifyCask_def)

lemma runUpgradeFormula_failed:
  "runUpgradeFormula e cfg opts st names = (st1, k) \<Longrightarrow>
   UpgradeFormula e names (Verbose opts) = Some x \<Longrightarrow>
     st1 = appendError st (''formula upgrade failed: '' @ x)"
  by (auto simp: runUpgradeFormula_def)

lemma runUpgradeCask_failed:
  "runUpgradeCask e cfg opts st names = (st1, k) \<Longrightarrow>
   UpgradeCask e names (IncludeAutoUpdateCask cfg) (Verbose opts) = Some x \<Longrightarrow>
     st1 = appendError st (''cask upgrade failed: '' @ x)"
  by (auto simp: runUpgradeCask_def)

lemma upgradeAll_failures:
  assumes ua: "upgradeAll e cfg st opts now res outdated [CallUpdate V] = (res', cfg', st', er, calls)"
  shows "CallOutdatedFormula names \<in> set calls \<Longrightarrow> OutdatedFormula e names = Inl x \<Longrightarrow>
           (''brew outdated formula failed: '' @ x) \<in> set (LastErrors st') \<and>
           CallUpgradeFormula names (Verbose opts) \<in> set calls"
    and "CallOutdatedCask names g \<in> set calls \<Longrightarrow> OutdatedCask e names g = Inl x \<Longrightarrow>
           (''brew outdated cask failed: '' @ x) \<in> set (LastErrors st') \<and>
           CallUpgradeCask names g (Verbose opts) \<in> set calls"
    and "CallUpgradeFormula names v \<in> set calls \<Longrightarrow> UpgradeFormula e names v = Some x \<Longrightarrow>
           (''formula upgrade failed: '' @ x) \<in> set (LastErrors st') \<and>
           set (notifyFailure cfg ''formula upgrade failed'' x) \<subseteq> set calls \<and>
           (\<exists>ns g'. CallUpgradeCask ns g' v \<in> set calls)"
    and "CallUpgradeCask names g v \<in> set calls \<Longrightarrow> UpgradeCask e names g v = Some x \<Longrightarrow>
           (''cask upgrade failed: '' @ x) \<in> set (LastErrors st') \<and>
           set (notifyFailure cfg ''cask upgrade failed'' x) \<subseteq> set calls"
proof -
  from ua obtain f0 c0 f1 st1 k1 c1 st2 k2 st3 k3 st4 k4 where
    s: "splitByType outdated cfg = (f0, c0)"
    and vf: "verifyFormula e st f0 = (f1, st1, k1)"
    and vc: "verifyCask e cfg st1 c0 = (c1, st2, k2)"
    and uf: "runUpgradeFormula e cfg opts st2 f1 = (st3, k3)"
    and uc: "runUpgradeCask e cfg opts st3 c1 = (st4, k4)"
    and out: "(res', cfg', st', er, calls) =
     (if f1 = [] \<and> c1 = [] then (res, cfg, st2\<lparr>LastCheckAt := Some now\<rparr>, None,
          [CallUpdate V] @ k1 @ k2)
      else (res\<lparr>Outdated := filterOutdated outdated f1 c1\<rparr>, cfg,
            st4\<lparr>LastUpdateAt := Some (clock e 1), LastCheckAt := Some (clock e 2)\<rparr>, None,
            [CallUpdate V] @ k1 @ k2 @ k3 @ k4 @ notifyUpdates cfg outdated ''Updated'' False))"
    by (rule upgradeAll_cases)
  note k1 = verifyFormula_calls [OF vf] and k2 = verifyCask_calls [OF vc]
    and k3 = runUpgradeFormula_calls [OF uf] and k4 = runUpgradeCask_calls [OF uc]
  note e2 = verifyCask_errors [OF vc] and e3 = runUpgradeFormula_errors [OF uf]
    and e4 = runUpgradeCask_errors [OF uc]
  have short: "calls = [CallUpdate V] @ k1 @ k2" if "f1 = [] \<and> c1 = []"
    using out that by simp
  have long: "calls = [CallUpdate V] @ k1 @ k2 @ k3 @ k4 @ notifyUpdates cfg outdated ''Updated'' False"
    "LastErrors st' = LastErrors st4" if "\<not> (f1 = [] \<and> c1 = [])"
    using out that by simp_all
  have in_k1k2: "c \<in> set ([CallUpdate V] @ k1 @ k2)" if "c \<in> set calls"
    "\<exists>a. c = CallOutdatedFormula a \<or> (\<exists>b. c = CallOutdatedCask a b)" for c
  proof (cases "f1 = [] \<and> c1 = []")
    case True
    with short that show ?thesis by simp
  next
    case False
    from that long(1) [OF False] show ?thesis
      using k3 k4 by (auto simp: notifyFailure_def dest: notifyUpdates_calls split: option.splits)
  qed
  have in_k3k4: "\<not> (f1 = [] \<and> c1 = []) \<and> c \<in> set (k3 @ k4)" if "c \<in> set calls"
    "\<exists>a b. c = CallUpgradeFormula a b \<or> (\<exists>d. c = CallUpgradeCask a d b)" for c
  proof (cases "f1 = [] \<and> c1 = []")
    case True
    with short that k1 k2 show ?thesis by (auto split: if_splits)
  next
    case False
    from that long(1) [OF False] False show ?thesis
      using k1 k2 by (auto dest: notifyUpdates_calls split: if_splits)
  qed
  {
    assume c: "CallOutdatedFormula names \<in> set calls" and f: "OutdatedFormula e names = Inl x"
    let ?m = "''brew outdated formula failed: '' @ x"
    from in_k1k2 [OF c] k1 k2 have n: "names = f0" "f0 \<noteq> []"
      by (auto split: if_splits)
    from verifyFormula_failed [OF vf n(2)] f n(1)
    have f1: "f1 = f0" and st1: "st1 = appendError st ?m" by simp_all
    from f1 n(2) have ne: "\<not> (f1 = [] \<and> c1 = [])" by simp
    from appendError_last [of st ?m] st1
    have "\<exists>ys zs. LastErrors st1 = ys @ ?m # zs \<and> length zs \<le> 0" by auto
    from recorded_step [OF this _ e2] have "\<exists>ys zs. LastErrors st2 = ys @ ?m # zs \<and> length zs \<le> 1"
      by simp
    from recorded_step [OF this _ e3] have "\<exists>ys zs. LastErrors st3 = ys @ ?m # zs \<and> length zs \<le> 2"
      by (simp add: numeral_2_eq_2)
    from recorded_step [OF this _ e4] have "\<exists>ys zs. LastErrors st4 = ys @ ?m # zs \<and> length zs \<le> 3"
      by (simp add: numeral_3_eq_3)
    then have "?m \<in> set (LastErrors st')"
      unfolding long(2) [OF ne] by (rule recorded_member)
    moreover have "CallUpgradeFormula names (Verbose opts) \<in> set calls"
      unfolding long(1) [OF ne] using k3 n(1) f1 by simp
    ultimately show "?m \<in> set (LastErrors st') \<and> CallUpgradeFormula names (Verbose opts) \<in> set calls"
      by simp
  }
  {
    assume c: "CallOutdatedCask names g \<in> set calls" and f: "OutdatedCask e names g = Inl x"
    let ?m = "''brew outdated cask failed: '' @ x"
    from in_k1k2 [OF c] k1 k2 have n: "names = c0" "c0 \<noteq> []" "g = IncludeAutoUpdateCask cfg"
      by (auto split: if_splits)
    from verifyCask_failed [OF vc n(2)] f n(1,3)
    have c1: "c1 = c0" and st2: "st2 = appendError st1 ?m" by simp_all
    from c1 n(2) have ne: "\<not> (f1 = [] \<and> c1 = [])" by simp
    from appendError_last [of st1 ?m] st2
    have "\<exists>ys zs. LastErrors st2 = ys @ ?m # zs \<and> length zs \<le> 0" by auto
    from recorded_step [OF this _ e3] have "\<exists>ys zs. LastErrors st3 = ys @ ?m # zs \<and> length zs \<le> 1"
      by simp
    from recorded_step [OF this _ e4] have "\<exists>ys zs. LastErrors st4 = ys @ ?m # zs \<and> length zs \<le> 2"
      by (simp add: numeral_2_eq_2)
    then have "?m \<in> set (LastErrors st')"
      unfolding long(2) [OF ne] by (rule recorded_member)
    moreover have "CallUpgradeCask names g (Verbose opts) \<in> set calls"
      unfolding long(1) [OF ne] using k4 n c1 by simp
    ultimately show "?m \<in> set (LastErrors st') \<and> CallUpgradeCask names g (Verbose opts) \<in> set calls"
      by simp
  }
  {
    assume c: "CallUpgradeFormula names v \<in> set calls" and f: "UpgradeFormula e names v = Some x"
    let ?m = "''formula upgrade failed: '' @ x"
    from in_k3k4 [OF c] have ne: "\<not> (f1 = [] \<and> c1 = [])"
      and "CallUpgradeFormula names v \<in> set (k3 @ k4)" by simp_all
    with k3 k4 have n: "names = f1" "v = Verbose opts"
      by (auto simp: notifyFailure_def split: option.splits)
    from runUpgradeFormula_failed [OF uf] f n
    have st3: "st3 = appendError st2 ?m" by simp
    from appendError_last [of st2 ?m] st3
    have "\<exists>ys zs. LastErrors st3 = ys @ ?m # zs \<and> length zs \<le> 0" by auto
    from recorded_step [OF this _ e4] have "\<exists>ys zs. LastErrors st4 = ys @ ?m # zs \<and> length zs \<le> 1"
      by simp
    then have "?m \<in> set (LastErrors st')"
      unfolding long(2) [OF ne] by (rule recorded_member)
    moreover have "set (notifyFailure cfg ''formula upgrade failed'' x) \<subseteq> set calls"
      unfolding long(1) [OF ne] using k3 f n by auto
    moreover have "CallUpgradeCask c1 (IncludeAutoUpdateCask cfg) v \<in> set calls"
      unfolding long(1) [OF ne] using k4 n by simp
    ultimately show "?m \<in> set (LastErrors st') \<and>
           set (notifyFailure cfg ''formula upgrade failed'' x) \<subseteq> set calls \<and>
           (\<exists>ns g'. CallUpgradeCask ns g' v \<in> set calls)"
      by blast
  }
  {
    assume c: "CallUpgradeCask names g v \<in> set calls" and f: "UpgradeCask e names g v = Some x"
    let ?m = "''cask upgrade failed: '' @ x"
    from in_k3k4 [OF c] have ne: "\<not> (f1 = [] \<and> c1 = [])"
      and "CallUpgradeCask names g v \<in> set (k3 @ k4)" by simp_all
    with k3 k4 have n: "names = c1" "v = Verbose opts" "g = IncludeAutoUpdateCask cfg"
      by (auto simp: notifyFailure_def split: option.splits)
    from runUpgradeCask_failed [OF uc] f n
    have st4: "st4 = appendError st3 ?m" by simp
    from appendError_last [of st3 ?m] st4
    have "\<exists>ys zs. LastErrors st4 = ys @ ?m # zs \<and> length zs \<le> 0" by auto
    then have "?m \<in> set (LastErrors st')"
      unfolding long(2) [OF ne] by (rule recorded_member)
    moreover have "set (notifyFailure cfg ''cask upgrade failed'' x) \<subseteq> set calls"
      unfolding long(1) [OF ne] using k4 f n by auto
    ultimately show "?m \<in> set (LastErrors st') \<and>
           set (notifyFailure cfg ''cask upgrade failed'' x) \<subseteq> set calls"
      by blast
  }
qed

lemma upgradeAll_update_call:
  assumes "upgradeAll e cfg st opts now res outdated [CallUpdate V] = (res', cfg', st', er, calls)"
    and "CallUpdate v \<in> set calls"
  shows "v = V"
proof -
  from assms(1) obtain f0 c0 f1 st1 k1 c1 st2 k2 st3 k3 st4 k4 where
    vf: "verifyFormula e st f0 = (f1, st1, k1)"
    and vc: "verifyCask e cfg st1 c0 = (c1, st2, k2)"
    and uf: "runUpgradeFormula e cfg opts st2 f1 = (st3, k3)"
    and uc: "runUpgradeCask e cfg opts st3 c1 = (st4, k4)"
    and out: "(res', cfg', st', er, calls) =
     (if f1 = [] \<and> c1 = [] then (res, cfg, st2\<lparr>LastCheckAt := Some now\<rparr>, None,
          [CallUpdate V] @ k1 @ k2)
      else (res\<lparr>Outdated := filterOutdated outdated f1 c1\<rparr>, cfg,
            st4\<lparr>LastUpdateAt := Some (clock e 1), LastCheckAt := Some (clock e 2)\<rparr>, None,
            [CallUpdate V] @ k1 @ k2 @ k3 @ k4 @ notifyUpdates cfg outdated ''Updated'' False))"
    by (rule upgradeAll_cases)
  note k = verifyFormula_calls [OF vf] verifyCask_calls [OF vc]
    runUpgradeFormula_calls [OF uf] runUpgradeCask_calls [OF uc]
  from out have "calls = [CallUpdate V] @ k1 @ k2 \<or>
     calls = [CallUpdate V] @ k1 @ k2 @ k3 @ k4 @ notifyUpdates cfg outdated ''Updated'' False"
    by (auto split: if_splits)
  with assms(2) k show ?thesis
    by (auto simp: notifyFailure_def dest: notifyUpdates_calls split: if_splits option.splits)
qed

lemma sample_Run_update_fails:
  "Run (sampleEnv [''update'']) (sampleConfig twoItems) DefaultState sampleOptions =
   (sampleChecked, sampleConfig twoItems,
    sampleReconciled\<lparr>LastErrors := [''brew update failed: exit status 1''],
                     LastCheckAt := Some 1793534400000000000\<rparr>,
    None,
    [CallUpdate False,
     CallNotify ''terminal-notifier'' ''brew-updater failed''
       ''brew update failed: exit status 1'' ''brew-updater status''])"
  by (simp add: sample_Run_dispatch [OF sample_prepare] sample_dispatch_update_fails)

lemma sample_Run_outdated_fails:
  "Run (sampleEnv [''outdated'']) (sampleConfig twoItems) DefaultState sampleOptions =
   (sampleChecked\<lparr>Outdated := [hd sampleOutdated]\<rparr>, sampleConfig twoItems,
    sampleReconciled\<lparr>LastErrors := [''brew outdated formula failed: exit status 1''],
                     LastUpdateAt := Some 1793534400000000000,
                     LastCheckAt := Some 1793534400000000000\<rparr>,
    None,
    [CallUpdate False, CallOutdatedFormula [''foo''], CallUpgradeFormula [''foo''] False,
     CallUpgradeCask [] True False] @ sampleNotices)"
  by (simp add: sample_Run_dispatch [OF sample_prepare] sample_dispatch_outdated_fails)

lemma sample_Run_upgrade_fails:
  "Run (sampleEnv [''upgrade'']) (sampleConfig twoItems) DefaultState sampleOptions =
   (sampleChecked\<lparr>Outdated := [hd sampleOutdated]\<rparr>, sampleConfig twoItems,
    sampleReconciled\<lparr>LastErrors := [''formula upgrade failed: exit status 1''],
                     LastUpdateAt := Some 1793534400000000000,
                     LastCheckAt := Some 1793534400000000000\<rparr>,
    None,
    [CallUpdate False, CallOutdatedFormula [''foo''], CallUpgradeFormula [''foo''] False,
     CallNotify ''terminal-notifier'' ''brew-updater failed''
       ''formula upgrade failed: exit status 1'' ''brew-updater status'',
     CallUpgradeCask [] True False] @ sampleNotices)"
  by (simp add: sample_Run_dispatch [OF sample_prepare] sample_dispatch_upgrade_fails)

lemma sample_failures:
  "Update (sampleEnv [''update'']) False = Some ''exit status 1''"
  "OutdatedFormula (sampleEnv [''outdated'']) [''foo''] = Inl ''exit status 1''"
  "UpgradeFormula (sampleEnv [''upgrade'']) [''foo''] False = Some ''exit status 1''"
  by (simp_all add: Update_def OutdatedFormula_def UpgradeFormula_def sampleEnv_def sampleBrew_def)

section \<open>The notices after an upgrade\<close>

lemma notifyUpdates_Updated:
  "notifyUpdates cfg items ''Updated'' forceAll = map (updateNotice cfg) items"
  by (induction items) (simp_all add: notifyUpdates_def updateNotice_def)

lemma upgradeAll_success:
  assumes ua: "upgradeAll e cfg st opts now res outdated [CallUpdate V] = (res', cfg', st', er, calls)"
    and c: "CallUpgradeFormula names v \<in> set calls"
  shows "LastUpdateAt st' = Some (clock e 1) \<and> LastCheckAt st' = Some (clock e 2) \<and>
     (\<exists>pre cnames. calls = pre @ map (updateNotice cfg) outdated \<and>
        (\<forall>m msg x. CallNotify m ''brew-updater'' msg x \<notin> set pre) \<and>
        Outdated res' = filterOutdated outdated names cnames)"
proof -
  from ua obtain f0 c0 f1 st1 k1 c1 st2 k2 st3 k3 st4 k4 where
    vf: "verifyFormula e st f0 = (f1, st1, k1)"
    and vc: "verifyCask e cfg st1 c0 = (c1, st2, k2)"
    and uf: "runUpgradeFormula e cfg opts st2 f1 = (st3, k3)"
    and uc: "runUpgradeCask e cfg opts st3 c1 = (st4, k4)"
    and out: "(res', cfg', st', er, calls) =
     (if f1 = [] \<and> c1 = [] then (res, cfg, st2\<lparr>LastCheckAt := Some now\<rparr>, None,
          [CallUpdate V] @ k1 @ k2)
      else (res\<lparr>Outdated := filterOutdated outdated f1 c1\<rparr>, cfg,
            st4\<lparr>LastUpdateAt := Some (clock e 1), LastCheckAt := Some (clock e 2)\<rparr>, None,
            [CallUpdate V] @ k1 @ k2 @ k3 @ k4 @ notifyUpdates cfg outdated ''Updated'' False))"
    by (rule upgradeAll_cases)
  note k1 = verifyFormula_calls [OF vf] and k2 = verifyCask_calls [OF vc]
    and k3 = runUpgradeFormula_calls [OF uf] and k4 = runUpgradeCask_calls [OF uc]
  have ne: "\<not> (f1 = [] \<and> c1 = [])"
    using c out k1 k2 by (auto split: if_splits)
  with out have o: "res' = res\<lparr>Outdated := filterOutdated outdated f1 c1\<rparr>"
    "st' = st4\<lparr>LastUpdateAt := Some (clock e 1), LastCheckAt := Some (clock e 2)\<rparr>"
    "calls = ([CallUpdate V] @ k1 @ k2 @ k3 @ k4) @ map (updateNotice cfg) outdated"
    by (simp_all add: notifyUpdates_Updated)
  have "CallUpgradeFormula names v \<in> set (k3 @ k4)"
    using c o(3) k1 k2 by (auto simp: updateNotice_def split: if_splits)
  then have n: "names = f1"
    using k3 k4 by (auto simp: notifyFailure_def split: option.splits)
  have "CallNotify m ''brew-updater'' msg x \<notin> set ([CallUpdate V] @ k1 @ k2 @ k3 @ k4)" for m msg x
    using k1 k2 k3 k4 by (auto simp: notifyFailure_def split: option.splits if_splits)
  with o n show ?thesis
    by (intro conjI exI [of _ "[CallUpdate V] @ k1 @ k2 @ k3 @ k4"] exI [of _ c1]) simp_all
qed

text \<open>
  C5, as amended. In a run that calls the upgrade operations, so neither a dry run nor
  notify-only and with a partition left after the re-verification, the update time and the
  check time are stamped, and the notices of the run for outdated items are exactly one
  for every item of its outdated set, whatever the policy of the item and whether or not
  the item survived the re-verification: the calls of the run end with these notices, and
  there is no such notice before them.
\<close>

theorem Run_upgrade_notices:
  assumes run: "Run e cfg st opts = (res, cfg', st', er, calls)"
    and c: "CallUpgradeFormula names v \<in> set calls"
  shows "\<not> DryRun opts \<and> \<not> NotifyOnly opts \<and>
     LastUpdateAt st' = Some (clock e 1) \<and> LastCheckAt st' = Some (clock e 2) \<and>
     (\<exists>pre. calls = pre @ map (updateNotice cfg') (outdatedOf e cfg st) \<and>
        (\<forall>m msg x. CallNotify m ''brew-updater'' msg x \<notin> set pre))"
  using run
proof (cases rule: Run_cases)
  case (failed er)
  with c show ?thesis by simp
next
  case (idle removed cfg1 st3 installed)
  with c show ?thesis by simp
next
  case (active removed cfg1 st3 installed st4 outdated)
  let ?res = "emptyResult\<lparr>Removed := removed,
                Checked := length (dueItems e cfg1 st3 (clock e 0)),
                CheckedNames := namesFromItems (dueItems e cfg1 st3 (clock e 0)),
                Outdated := outdated\<rparr>"
  have od: "outdatedOf e cfg st = outdated"
    using active(1,2,3) by (simp add: outdatedOf_def resultsOf_def)
  from active(4) have d: "dispatch e cfg1 st4 opts (clock e 0) ?res outdated = (res, cfg', st', er, calls)"
    by simp
  from dispatch_frame [OF d] have fr: "cfg' = cfg1" by simp
  from d show ?thesis
  proof (cases rule: dispatch_cases)
    case (refresh_failed x0)
    with c show ?thesis by (auto simp: updateFailed_def notifyFailure_def)
  next
    case (none_outdated k0)
    with c show ?thesis by auto
  next
    case notice_only
    with c show ?thesis by (auto dest: notifyUpdates_calls)
  next
    case upgrade
    from upgradeAll_success [OF upgrade(4) [symmetric] c]
    have "LastUpdateAt st' = Some (clock e 1)" "LastCheckAt st' = Some (clock e 2)"
      "\<exists>pre. calls = pre @ map (updateNotice cfg1) outdated \<and>
         (\<forall>m msg x. CallNotify m ''brew-updater'' msg x \<notin> set pre)"
      by blast+
    with upgrade(2) show ?thesis
      unfolding od fr by simp
  qed
qed

lemma sample_outdatedOf:
  "outdatedOf (sampleEnv []) (sampleConfig twoItems) DefaultState = sampleOutdated"
proof -
  have "twoItems \<noteq> []" by (simp add: twoItems_def)
  then have "resultsOf (sampleEnv []) (sampleConfig twoItems) DefaultState =
      fetchLatest (sampleEnv []) twoItems DefaultState"
    by (simp add: resultsOf_def sample_prepare sample_due)
  then show ?thesis
    by (simp add: outdatedOf_def sample_prepare sample_clock sample_reconcile)
qed

theorem Run_upgrade_notices_witness:
  "Run (sampleEnv []) (sampleConfig twoItems) DefaultState sampleOptions =
     (sampleChecked\<lparr>Outdated := [hd sampleOutdated]\<rparr>, sampleConfig twoItems,
      sampleReconciled\<lparr>LastUpdateAt := Some 1793534400000000000,
                       LastCheckAt := Some 1793534400000000000\<rparr>,
      None,
      [CallUpdate False, CallOutdatedFormula [''foo''], CallUpgradeFormula [''foo''] False,
       CallUpgradeCask [] True False] @ sampleNotices) \<and>
   CallUpgradeFormula [''foo''] False \<in>
     set ([CallUpdate False, CallOutdatedFormula [''foo''], CallUpgradeFormula [''foo''] False,
           CallUpgradeCask [] True False] @ sampleNotices) \<and>
   \<not> DryRun sampleOptions \<and> \<not> NotifyOnly sampleOptions \<and>
   LastUpdateAt (sampleReconciled\<lparr>LastUpdateAt := Some 1793534400000000000,
                                   LastCheckAt := Some 1793534400000000000\<rparr>) =
     Some (clock (sampleEnv []) 1) \<and>
   LastCheckAt (sampleReconciled\<lparr>LastUpdateAt := Some 1793534400000000000,
                                  LastCheckAt := Some 1793534400000000000\<rparr>) =
     Some (clock (sampleEnv []) 2) \<and>
   outdatedOf (sampleEnv []) (sampleConfig twoItems) DefaultState = sampleOutdated \<and>
   map (updateNotice (sampleConfig twoItems)) sampleOutdated = sampleNotices"
proof -
  have c: "CallUpgradeFormula [''foo''] False \<in>
     set ([CallUpdate False, CallOutdatedFormula [''foo''], CallUpgradeFormula [''foo''] False,
           CallUpgradeCask [] True False] @ sampleNotices)"
    by simp
  have n: "map (updateNotice (sampleConfig twoItems)) sampleOutdated = sampleNotices"
    by (simp add: updateNotice_def updateMessage_def sampleOutdated_def sampleNotices_def
        sampleConfig_def sampleItem_def)
  from Run_upgrade_notices [OF sample_Run_ok c] sample_Run_ok c sample_outdatedOf n
  show ?thesis by blast
qed

text \<open>
  The claim as first stated fails for the item bar: its policy is notify, it is not passed
  to the upgrade and is not in the outdated set that the run reports, and yet the run sends
  the notice for it.
\<close>

theorem Run_upgrade_notices_counterexample:
  "Run (sampleEnv []) (sampleConfig twoItems) DefaultState sampleOptions =
     (\<lparr>Checked = 2, CheckedNames = [''bar'', ''foo''],
        Outdated = [\<lparr>Item = sampleItem ''foo'' ''formula'' ''auto'' 5, Installed = ''1.0.0'',
                     Latest = ''1.1.0''\<rparr>],
        Removed = [], Errors = []\<rparr>,
      sampleConfig twoItems,
      sampleReconciled\<lparr>LastUpdateAt := Some 1793534400000000000,
                       LastCheckAt := Some 1793534400000000000\<rparr>,
      None,
      [CallUpdate False, CallOutdatedFormula [''foo''], CallUpgradeFormula [''foo''] False,
       CallUpgradeCask [] True False,
       CallNotify ''terminal-notifier'' ''brew-updater''
         (''foo 1.0.0 '' @ [CHR 0xE2, CHR 0x86, CHR 0x92] @ '' 1.1.0'') ''brew-updater upgrade foo'',
       CallNotify ''terminal-notifier'' ''brew-updater''
         (''bar 2.0.0 '' @ [CHR 0xE2, CHR 0x86, CHR 0x92] @ '' 2.1.0'') ''brew-updater upgrade bar''])"
  using sample_Run_ok
  by (simp add: sampleChecked_def sampleOutdated_def sampleNotices_def)

section \<open>Key migration\<close>

lemma restrict_map_id: "dom m \<subseteq> A \<Longrightarrow> m |` A = m"
proof (rule ext)
  fix x
  assume d: "dom m \<subseteq> A"
  show "(m |` A) x = m x"
  proof (cases "x \<in> A")
    case True
    then show ?thesis by simp
  next
    case False
    with d have "x \<notin> dom m" by blast
    with False show ?thesis by (simp add: domIff)
  qed
qed

lemma cleanup_id: "perItemKeys st \<subseteq> watched cfg \<Longrightarrow> cleanupStateKeys cfg st = st"
  by (simp add: cleanupStateKeys_def perItemKeys_def restrict_map_id)

lemma bare_normalize: "normalizeStateKeys (sampleConfig oneItem) bareState = bareMigrated"
  by (simp add: normalizeStateKeys_def migrate_def sampleConfig_def sampleItem_def oneItem_def
      bareState_def bareMigrated_def DefaultState_def WatchKey_def)

lemma bare_prepare:
  "prepare (sampleEnv []) (sampleConfig oneItem) bareState =
     Inr ([], sampleConfig oneItem, bareMigrated, [''formula:foo'' \<mapsto> ''1.0.0''])"
proof -
  have "perItemKeys bareMigrated \<subseteq> watched (sampleConfig oneItem)"
    by (auto simp: perItemKeys_def bareMigrated_def DefaultState_def watched_def sampleConfig_def
        oneItem_def sampleItem_def WatchKey_def split: if_splits)
  from cleanup_id [OF this] show ?thesis
    by (simp add: prepare_def sample_ListInstalled bare_normalize)
      (simp add: installedVersion_def sampleConfig_def sampleItem_def oneItem_def WatchKey_def)
qed

lemma bare_due:
  "dueItems (sampleEnv []) (sampleConfig oneItem) bareMigrated 1793534400000000000 = []"
  by (simp add: dueItems_def isDue_def lookupNext_def sampleConfig_def sampleItem_def
      bareMigrated_def DefaultState_def oneItem_def WatchKey_def sampleEnv_def sampleParse_def)

lemma bare_Run:
  "Run (sampleEnv []) (sampleConfig oneItem) bareState sampleOptions =
   (\<lparr>Checked = 0, CheckedNames = [], Outdated = [], Removed = [], Errors = []\<rparr>,
    sampleConfig oneItem, bareMigrated\<lparr>LastCheckAt := Some 1793534400000000000\<rparr>, None, [])"
  by (simp add: Run_def bare_prepare sample_clock bare_due emptyResult_def namesFromItems_def)

text \<open>
  The claim as first stated fails for an item that is not due: the run returns the state
  with the entries under the composite key and still under the bare name.
\<close>

theorem key_migration_counterexample:
  "Run (sampleEnv []) (sampleConfig oneItem) bareState sampleOptions =
     (\<lparr>Checked = 0, CheckedNames = [], Outdated = [], Removed = [], Errors = []\<rparr>,
      sampleConfig oneItem, bareMigrated\<lparr>LastCheckAt := Some 1793534400000000000\<rparr>, None, []) \<and>
   Watchlist (sampleConfig oneItem) = [sampleItem ''foo'' ''formula'' ''auto'' 5] \<and>
   NextCheckAt (bareMigrated\<lparr>LastCheckAt := Some 1793534400000000000\<rparr>) ''foo'' =
     Some ''2030-01-01T00:00:00Z'' \<and>
   LastVersions (bareMigrated\<lparr>LastCheckAt := Some 1793534400000000000\<rparr>) ''foo'' = Some ''1.0.0'' \<and>
   LastSchemes (bareMigrated\<lparr>LastCheckAt := Some 1793534400000000000\<rparr>) ''foo'' = Some 0"
  using bare_Run
  by (simp add: bareMigrated_def DefaultState_def sampleConfig_def oneItem_def)

text \<open>The migration of one map, read at a key.\<close>

lemma migrate_apply:
  "migrate m it k =
     (if k = WatchKey (Name it) (Type it) \<and> m k = None then m (Name it) else m k)"
  by (auto simp: migrate_def Let_def split: option.splits)

lemma migrate_self: "WatchKey (Name it) (Type it) = Name it \<Longrightarrow> migrate m it = m"
  by (rule ext) (simp add: migrate_apply)

lemma normalizeLoop_maps:
  "NextCheckAt (normalizeLoop items st) = foldl migrate (NextCheckAt st) items \<and>
   LastVersions (normalizeLoop items st) = foldl migrate (LastVersions st) items \<and>
   LastSchemes (normalizeLoop items st) = foldl migrate (LastSchemes st) items"
  by (induction items arbitrary: st) (simp_all add: migrate_self)

lemma foldl_migrate_keep: "m k = Some v \<Longrightarrow> foldl migrate m items k = Some v"
  by (induction items arbitrary: m) (simp_all add: migrate_apply)

lemma foldl_migrate_other:
  "\<forall>w \<in> set items. WatchKey (Name w) (Type w) \<noteq> k \<Longrightarrow> foldl migrate m items k = m k"
  by (induction items arbitrary: m) (auto simp: migrate_apply)

lemma foldl_migrate_copied:
  assumes "\<forall>w \<in> set items. \<forall>w' \<in> set items. Name w \<noteq> WatchKey (Name w') (Type w')"
    and "\<forall>w \<in> set items. WatchKey (Name w) (Type w) = k \<longrightarrow> m (Name w) = x"
    and "m k = None"
    and "\<exists>w \<in> set items. WatchKey (Name w) (Type w) = k"
  shows "foldl migrate m items k = x"
  using assms
proof (induction items arbitrary: m)
  case Nil
  then show ?case by simp
next
  case (Cons a items)
  let ?m = "migrate m a"
  have names: "?m (Name w) = m (Name w)" if "w \<in> set (a # items)" for w
    using Cons.prems(1) that by (auto simp: migrate_apply)
  have apart: "\<forall>w \<in> set items. \<forall>w' \<in> set items. Name w \<noteq> WatchKey (Name w') (Type w')"
    using Cons.prems(1) by simp
  have vals: "\<forall>w \<in> set items. WatchKey (Name w) (Type w) = k \<longrightarrow> ?m (Name w) = x"
    using Cons.prems(2) names by simp
  show ?case
  proof (cases "WatchKey (Name a) (Type a) = k")
    case True
    with Cons.prems(2,3) have mk: "?m k = x"
      by (simp add: migrate_apply)
    show ?thesis
    proof (cases x)
      case (Some v)
      with mk foldl_migrate_keep [of ?m k v items] show ?thesis by simp
    next
      case None
      show ?thesis
      proof (cases "\<exists>w \<in> set items. WatchKey (Name w) (Type w) = k")
        case True
        from Cons.IH [OF apart vals _ True] mk None show ?thesis by simp
      next
        case False
        then have "foldl migrate ?m items k = ?m k"
          by (intro foldl_migrate_other) blast
        with mk show ?thesis by simp
      qed
    qed
  next
    case False
    with Cons.prems(3) have "?m k = None"
      by (simp add: migrate_apply)
    moreover from False Cons.prems(4) have "\<exists>w \<in> set items. WatchKey (Name w) (Type w) = k"
      by auto
    ultimately show ?thesis
      using Cons.IH [OF apart vals] by simp
  qed
qed

text \<open>Two items with a kind and the same key have the same name and the same kind.\<close>

lemma WatchKey_kinds:
  assumes "ta = ''formula'' \<or> ta = ''cask''" "tb = ''formula'' \<or> tb = ''cask''"
    and "WatchKey na ta = WatchKey nb tb"
  shows "na = nb \<and> ta = tb"
  using assms by (auto simp: WatchKey_def)

lemma WatchKey_kinds_name:
  "t = ''formula'' \<or> t = ''cask'' \<Longrightarrow> WatchKey n t \<noteq> n"
  by (auto simp: WatchKey_def)

text \<open>The migration on a state filed under bare names.\<close>

lemma normalize_copied:
  assumes kinds: "\<forall>w \<in> set (Watchlist cfg). Type w = ''formula'' \<or> Type w = ''cask''"
    and bare: "\<forall>w \<in> set (Watchlist cfg). WatchKey (Name w) (Type w) \<notin> perItemKeys st"
    and apart: "\<forall>w \<in> set (Watchlist cfg). \<forall>w' \<in> set (Watchlist cfg).
                  Name w \<noteq> WatchKey (Name w') (Type w')"
    and w: "w \<in> set (Watchlist cfg)"
  shows "NextCheckAt (normalizeStateKeys cfg st) (WatchKey (Name w) (Type w)) = NextCheckAt st (Name w)"
    and "LastVersions (normalizeStateKeys cfg st) (WatchKey (Name w) (Type w)) = LastVersions st (Name w)"
    and "LastSchemes (normalizeStateKeys cfg st) (WatchKey (Name w) (Type w)) = LastSchemes st (Name w)"
    and "NextCheckAt (normalizeStateKeys cfg st) (Name w) = NextCheckAt st (Name w)"
    and "LastVersions (normalizeStateKeys cfg st) (Name w) = LastVersions st (Name w)"
    and "LastSchemes (normalizeStateKeys cfg st) (Name w) = LastSchemes st (Name w)"
proof -
  let ?k = "WatchKey (Name w) (Type w)"
  have same: "\<forall>w' \<in> set (Watchlist cfg). WatchKey (Name w') (Type w') = ?k \<longrightarrow> m (Name w') = m (Name w)"
    for m :: "string \<rightharpoonup> 'v"
    using kinds w WatchKey_kinds [of "Type _" "Type w" "Name _" "Name w"] by metis
  have ex: "\<exists>w' \<in> set (Watchlist cfg). WatchKey (Name w') (Type w') = ?k"
    using w by blast
  have none: "NextCheckAt st ?k = None" "LastVersions st ?k = None" "LastSchemes st ?k = None"
    using bare w by (auto simp: perItemKeys_def)
  show "NextCheckAt (normalizeStateKeys cfg st) ?k = NextCheckAt st (Name w)"
    unfolding normalizeStateKeys_def normalizeLoop_maps [THEN conjunct1]
    using apart same none(1) ex by (rule foldl_migrate_copied)
  show "LastVersions (normalizeStateKeys cfg st) ?k = LastVersions st (Name w)"
    unfolding normalizeStateKeys_def normalizeLoop_maps [THEN conjunct2, THEN conjunct1]
    using apart same none(2) ex by (rule foldl_migrate_copied)
  show "LastSchemes (normalizeStateKeys cfg st) ?k = LastSchemes st (Name w)"
    unfolding normalizeStateKeys_def normalizeLoop_maps [THEN conjunct2, THEN conjunct2]
    using apart same none(3) ex by (rule foldl_migrate_copied)
  have nk: "\<forall>w' \<in> set (Watchlist cfg). WatchKey (Name w') (Type w') \<noteq> Name w"
    using apart w by metis
  show "NextCheckAt (normalizeStateKeys cfg st) (Name w) = NextCheckAt st (Name w)"
    unfolding normalizeStateKeys_def normalizeLoop_maps [THEN conjunct1]
    using nk by (rule foldl_migrate_other)
  show "LastVersions (normalizeStateKeys cfg st) (Name w) = LastVersions st (Name w)"
    unfolding normalizeStateKeys_def normalizeLoop_maps [THEN conjunct2, THEN conjunct1]
    using nk by (rule foldl_migrate_other)
  show "LastSchemes (normalizeStateKeys cfg st) (Name w) = LastSchemes st (Name w)"
    unfolding normalizeStateKeys_def normalizeLoop_maps [THEN conjunct2, THEN conjunct2]
    using nk by (rule foldl_migrate_other)
qed

lemma normalize_keep:
  "NextCheckAt st k = Some v \<Longrightarrow> NextCheckAt (normalizeStateKeys cfg st) k = Some v"
  "LastVersions st k = Some u \<Longrightarrow> LastVersions (normalizeStateKeys cfg st) k = Some u"
  "LastSchemes st k = Some s \<Longrightarrow> LastSchemes (normalizeStateKeys cfg st) k = Some s"
  by (simp_all add: normalizeStateKeys_def normalizeLoop_maps foldl_migrate_keep)

section \<open>The lock file\<close>

















section \<open>What a failure of the package manager does to a run\<close>

text \<open>The action dispatch leaves the cache of entity tags alone as well.\<close>

lemma appendError_etag [simp]: "ETagCache (appendError st m) = ETagCache st"
  by (simp add: appendError_def Let_def)

lemma verifyFormula_etag:
  "verifyFormula e st f = (f1, st1, k1) \<Longrightarrow> ETagCache st1 = ETagCache st"
  by (auto simp: verifyFormula_def split: if_splits sum.splits)

lemma verifyCask_etag:
  "verifyCask e cfg st c = (c1, st1, k1) \<Longrightarrow> ETagCache st1 = ETagCache st"
  by (auto simp: verifyCask_def split: if_splits sum.splits)

lemma runUpgradeFormula_etag:
  "runUpgradeFormula e cfg opts st names = (st1, k) \<Longrightarrow> ETagCache st1 = ETagCache st"
  by (auto simp: runUpgradeFormula_def split: option.splits)

lemma runUpgradeCask_etag:
  "runUpgradeCask e cfg opts st names = (st1, k) \<Longrightarrow> ETagCache st1 = ETagCache st"
  by (auto simp: runUpgradeCask_def split: option.splits)

lemma upgradeAll_etag:
  assumes "upgradeAll e cfg st opts now res outdated calls = (res', cfg', st', er, calls')"
  shows "ETagCache st' = ETagCache st"
proof -
  from assms obtain f0 c0 f1 st1 k1 c1 st2 k2 st3 k3 st4 k4 where
    vf: "verifyFormula e st f0 = (f1, st1, k1)"
    and vc: "verifyCask e cfg st1 c0 = (c1, st2, k2)"
    and uf: "runUpgradeFormula e cfg opts st2 f1 = (st3, k3)"
    and uc: "runUpgradeCask e cfg opts st3 c1 = (st4, k4)"
    and out: "(res', cfg', st', er, calls') =
     (if f1 = [] \<and> c1 = [] then (res, cfg, st2\<lparr>LastCheckAt := Some now\<rparr>, None, calls @ k1 @ k2)
      else (res\<lparr>Outdated := filterOutdated outdated f1 c1\<rparr>, cfg,
            st4\<lparr>LastUpdateAt := Some (clock e 1), LastCheckAt := Some (clock e 2)\<rparr>, None,
            calls @ k1 @ k2 @ k3 @ k4 @ notifyUpdates cfg outdated ''Updated'' False))"
    by (rule upgradeAll_cases)
  from out verifyFormula_etag [OF vf] verifyCask_etag [OF vc] runUpgradeFormula_etag [OF uf]
    runUpgradeCask_etag [OF uc]
  show ?thesis by (auto split: if_splits)
qed

lemma dispatch_etag:
  assumes "dispatch e cfg st opts now res outdated = (res', cfg', st', er, calls')"
  shows "ETagCache st' = ETagCache st"
  using assms
proof (cases rule: dispatch_cases)
  case (refresh_failed x)
  then show ?thesis by (simp add: updateFailed_def)
next
  case (none_outdated k0)
  then show ?thesis by simp
next
  case notice_only
  then show ?thesis by simp
next
  case upgrade
  from upgradeAll_etag [OF upgrade(4) [symmetric]] show ?thesis .
qed

text \<open>A run that does not fail at the snapshot returns no error and the bookkeeping of the
  reconciliation.\<close>

lemma Run_bookkeeping:
  assumes run: "Run e cfg st opts = (res, cfg', st', er, calls)"
  shows "sameBookkeeping (reconciledOf e cfg st) st' \<and> (calls \<noteq> [] \<longrightarrow> er = None)"
  using run
proof (cases rule: Run_cases)
  case (failed er)
  then show ?thesis by (simp add: reconciledOf_def sameBookkeeping_def)
next
  case (idle removed cfg1 st3 installed)
  then show ?thesis by (simp add: reconciledOf_def sameBookkeeping_def)
next
  case (active removed cfg1 st3 installed st4 outdated)
  have r: "reconciledOf e cfg st = st4"
    using active(1,2,3) by (simp add: reconciledOf_def)
  from dispatch_frame [OF active(4) [symmetric]] dispatch_etag [OF active(4) [symmetric]]
  show ?thesis by (simp add: r sameBookkeeping_def)
qed

text \<open>Where the failure notices of the action dispatch come from.\<close>

lemma upgradeAll_notices:
  assumes ua: "upgradeAll e cfg st opts now res outdated [CallUpdate V] = (res', cfg', st', er, calls)"
    and n: "CallNotify m ''brew-updater failed'' msg a \<in> set calls"
  shows "(\<exists>names v x. CallUpgradeFormula names v \<in> set calls \<and> UpgradeFormula e names v = Some x \<and>
            [CallNotify m ''brew-updater failed'' msg a] = notifyFailure cfg ''formula upgrade failed'' x) \<or>
         (\<exists>names g v x. CallUpgradeCask names g v \<in> set calls \<and> UpgradeCask e names g v = Some x \<and>
            [CallNotify m ''brew-updater failed'' msg a] = notifyFailure cfg ''cask upgrade failed'' x)"
proof -
  from ua obtain f0 c0 f1 st1 k1 c1 st2 k2 st3 k3 st4 k4 where
    vf: "verifyFormula e st f0 = (f1, st1, k1)"
    and vc: "verifyCask e cfg st1 c0 = (c1, st2, k2)"
    and uf: "runUpgradeFormula e cfg opts st2 f1 = (st3, k3)"
    and uc: "runUpgradeCask e cfg opts st3 c1 = (st4, k4)"
    and out: "(res', cfg', st', er, calls) =
     (if f1 = [] \<and> c1 = [] then (res, cfg, st2\<lparr>LastCheckAt := Some now\<rparr>, None,
          [CallUpdate V] @ k1 @ k2)
      else (res\<lparr>Outdated := filterOutdated outdated f1 c1\<rparr>, cfg,
            st4\<lparr>LastUpdateAt := Some (clock e 1), LastCheckAt := Some (clock e 2)\<rparr>, None,
            [CallUpdate V] @ k1 @ k2 @ k3 @ k4 @ notifyUpdates cfg outdated ''Updated'' False))"
    by (rule upgradeAll_cases)
  note k1 = verifyFormula_calls [OF vf] and k2 = verifyCask_calls [OF vc]
    and k3 = runUpgradeFormula_calls [OF uf] and k4 = runUpgradeCask_calls [OF uc]
  have ne: "\<not> (f1 = [] \<and> c1 = [])"
    using n out k1 k2 by (auto split: if_splits)
  with out have c: "calls = [CallUpdate V] @ k1 @ k2 @ k3 @ k4 @ map (updateNotice cfg) outdated"
    by (simp add: notifyUpdates_Updated)
  with n k1 k2 have "CallNotify m ''brew-updater failed'' msg a \<in> set k3 \<or>
      CallNotify m ''brew-updater failed'' msg a \<in> set k4"
    by (auto simp: updateNotice_def split: if_splits)
  then show ?thesis
  proof
    assume "CallNotify m ''brew-updater failed'' msg a \<in> set k3"
    with k3 obtain x where "UpgradeFormula e f1 (Verbose opts) = Some x"
      "[CallNotify m ''brew-updater failed'' msg a] = notifyFailure cfg ''formula upgrade failed'' x"
      by (auto simp: notifyFailure_def split: option.splits)
    moreover have "CallUpgradeFormula f1 (Verbose opts) \<in> set calls"
      using c k3 by simp
    ultimately show ?thesis by blast
  next
    assume "CallNotify m ''brew-updater failed'' msg a \<in> set k4"
    with k4 obtain x where "UpgradeCask e c1 (IncludeAutoUpdateCask cfg) (Verbose opts) = Some x"
      "[CallNotify m ''brew-updater failed'' msg a] = notifyFailure cfg ''cask upgrade failed'' x"
      by (auto simp: notifyFailure_def split: option.splits)
    moreover have "CallUpgradeCask c1 (IncludeAutoUpdateCask cfg) (Verbose opts) \<in> set calls"
      using c k4 by simp
    ultimately show ?thesis by blast
  qed
qed

lemma notifyUpdates_no_failure:
  "CallNotify m ''brew-updater failed'' msg a \<notin> set (notifyUpdates cfg items action forceAll)"
  by (auto simp: notifyUpdates_def split: if_splits)

text \<open>
  C4, as amended. Whenever an invocation of the package manager fails during a run, the
  run returns without error, the per-item maps and the cache of entity tags are those
  written by the reconciliation of the fetch results, and the failure is in the error ring.
  When the index refresh fails, the failure is the last entry of the error ring, the only
  calls of the run are the refresh and one failure notice, so that no outdated query and no
  upgrade is attempted, and the check time is stamped. When an outdated query fails, the
  upgrade of that partition is called with the names that were asked about. When the
  formula upgrade fails, a failure notice is sent and the cask upgrade is still called; when
  the cask upgrade fails, a failure notice is sent. Every failure notice of the run is the
  notice of a failed index refresh or of a failed upgrade call, so a failed outdated query
  sends none.
\<close>

theorem Run_package_manager_failures:
  assumes run: "Run e cfg st opts = (res, cfg', st', er, calls)"
  shows
    "(\<forall>v x. CallUpdate v \<in> set calls \<and> Update e v = Some x \<longrightarrow>
       er = None \<and> sameBookkeeping (reconciledOf e cfg st) st' \<and>
       (\<exists>ys. LastErrors st' = ys @ [''brew update failed: '' @ x]) \<and>
       calls = CallUpdate v # notifyFailure cfg' ''brew update failed'' x \<and>
       LastCheckAt st' = Some (clock e 0)) \<and>
    (\<forall>names x. CallOutdatedFormula names \<in> set calls \<and> OutdatedFormula e names = Inl x \<longrightarrow>
       er = None \<and> sameBookkeeping (reconciledOf e cfg st) st' \<and>
       (''brew outdated formula failed: '' @ x) \<in> set (LastErrors st') \<and>
       CallUpgradeFormula names (Verbose opts) \<in> set calls) \<and>
    (\<forall>names g x. CallOutdatedCask names g \<in> set calls \<and> OutdatedCask e names g = Inl x \<longrightarrow>
       er = None \<and> sameBookkeeping (reconciledOf e cfg st) st' \<and>
       (''brew outdated cask failed: '' @ x) \<in> set (LastErrors st') \<and>
       CallUpgradeCask names g (Verbose opts) \<in> set calls) \<and>
    (\<forall>names v x. CallUpgradeFormula names v \<in> set calls \<and> UpgradeFormula e names v = Some x \<longrightarrow>
       er = None \<and> sameBookkeeping (reconciledOf e cfg st) st' \<and>
       (''formula upgrade failed: '' @ x) \<in> set (LastErrors st') \<and>
       set (notifyFailure cfg' ''formula upgrade failed'' x) \<subseteq> set calls \<and>
       (\<exists>ns g. CallUpgradeCask ns g v \<in> set calls)) \<and>
    (\<forall>names g v x. CallUpgradeCask names g v \<in> set calls \<and> UpgradeCask e names g v = Some x \<longrightarrow>
       er = None \<and> sameBookkeeping (reconciledOf e cfg st) st' \<and>
       (''cask upgrade failed: '' @ x) \<in> set (LastErrors st') \<and>
       set (notifyFailure cfg' ''cask upgrade failed'' x) \<subseteq> set calls) \<and>
    (\<forall>m msg a. CallNotify m ''brew-updater failed'' msg a \<in> set calls \<longrightarrow>
       (\<exists>v x. CallUpdate v \<in> set calls \<and> Update e v = Some x \<and>
          [CallNotify m ''brew-updater failed'' msg a] = notifyFailure cfg' ''brew update failed'' x) \<or>
       (\<exists>names v x. CallUpgradeFormula names v \<in> set calls \<and> UpgradeFormula e names v = Some x \<and>
          [CallNotify m ''brew-updater failed'' msg a] =
            notifyFailure cfg' ''formula upgrade failed'' x) \<or>
       (\<exists>names g v x. CallUpgradeCask names g v \<in> set calls \<and> UpgradeCask e names g v = Some x \<and>
          [CallNotify m ''brew-updater failed'' msg a] =
            notifyFailure cfg' ''cask upgrade failed'' x))"
proof -
  note bk = Run_bookkeeping [OF run]
  have B: "er = None \<and> sameBookkeeping (reconciledOf e cfg st) st'" if "c \<in> set calls" for c
    using bk that by auto
  from run show ?thesis
  proof (cases rule: Run_cases)
    case (failed er)
    then show ?thesis by simp
  next
    case (idle removed cfg1 st3 installed)
    then show ?thesis by simp
  next
    case (active removed cfg1 st3 installed st4 outdated)
    let ?res = "emptyResult\<lparr>Removed := removed,
                  Checked := length (dueItems e cfg1 st3 (clock e 0)),
                  CheckedNames := namesFromItems (dueItems e cfg1 st3 (clock e 0)),
                  Outdated := outdated\<rparr>"
    from active(4) have d: "dispatch e cfg1 st4 opts (clock e 0) ?res outdated = (res, cfg', st', er, calls)"
      by simp
    from dispatch_frame [OF d] have fr: "cfg' = cfg1" "er = None" by simp_all
    from d show ?thesis
    proof (cases rule: dispatch_cases)
      case (refresh_failed x0)
      from refresh_failed(2) have o: "calls = CallUpdate (Verbose opts) # notifyFailure cfg1 ''brew update failed'' x0"
        "st' = (appendError st4 (''brew update failed: '' @ x0))\<lparr>LastCheckAt := Some (clock e 0)\<rparr>"
        by (simp_all add: updateFailed_def)
      have "\<exists>ys. LastErrors st' = ys @ [''brew update failed: '' @ x0]"
        using appendError_last [of st4 "''brew update failed: '' @ x0"] o(2) by simp
      moreover have "v = Verbose opts" if "CallUpdate v \<in> set calls" for v
        using that o(1) by (auto simp: notifyFailure_def)
      moreover have "CallUpdate (Verbose opts) \<in> set calls"
        using o(1) by simp
      ultimately show ?thesis
        using fr o refresh_failed(1) B [of "CallUpdate (Verbose opts)"]
        by (auto simp: notifyFailure_def)
    next
      case (none_outdated k0)
      then show ?thesis using fr by auto
    next
      case notice_only
      then show ?thesis using fr notifyUpdates_no_failure [of _ _ _ cfg1 outdated]
        by (auto dest: notifyUpdates_calls)
    next
      case upgrade
      note ua = upgrade(4) [symmetric]
      have "\<not> (CallUpdate v \<in> set calls \<and> Update e v = Some x)" for v x
        using upgradeAll_update_call [OF ua] upgrade(3) by auto
      then have U: "\<forall>v x. \<not> (CallUpdate v \<in> set calls \<and> Update e v = Some x)"
        by blast
      note F = upgradeAll_failures [OF ua]
      show ?thesis
        unfolding fr(1)
        apply (intro conjI)
        subgoal using U by blast
        subgoal using F(1) B by blast
        subgoal using F(2) B by blast
        subgoal using F(3) B by blast
        subgoal using F(4) B by blast
        subgoal using upgradeAll_notices [OF ua] by blast
        done
    qed
  qed
qed

theorem Run_package_manager_failures_witness:
  "Run (sampleEnv [''update'']) (sampleConfig twoItems) DefaultState sampleOptions =
     (sampleChecked, sampleConfig twoItems,
      sampleReconciled\<lparr>LastErrors := [''brew update failed: exit status 1''],
                       LastCheckAt := Some 1793534400000000000\<rparr>,
      None,
      [CallUpdate False,
       CallNotify ''terminal-notifier'' ''brew-updater failed''
         ''brew update failed: exit status 1'' ''brew-updater status'']) \<and>
   Update (sampleEnv [''update'']) False = Some ''exit status 1'' \<and>
   sameBookkeeping (reconciledOf (sampleEnv [''update'']) (sampleConfig twoItems) DefaultState)
     (sampleReconciled\<lparr>LastErrors := [''brew update failed: exit status 1''],
                       LastCheckAt := Some 1793534400000000000\<rparr>) \<and>
   [CallUpdate False,
    CallNotify ''terminal-notifier'' ''brew-updater failed''
      ''brew update failed: exit status 1'' ''brew-updater status''] =
     CallUpdate False # notifyFailure (sampleConfig twoItems) ''brew update failed'' ''exit status 1'' \<and>
   OutdatedFormula (sampleEnv [''outdated'']) [''foo''] = Inl ''exit status 1'' \<and>
   ''brew outdated formula failed: exit status 1'' \<in>
     set (LastErrors (sampleReconciled\<lparr>LastErrors := [''brew outdated formula failed: exit status 1''],
                       LastUpdateAt := Some 1793534400000000000,
                       LastCheckAt := Some 1793534400000000000\<rparr>)) \<and>
   UpgradeFormula (sampleEnv [''upgrade'']) [''foo''] False = Some ''exit status 1'' \<and>
   ''formula upgrade failed: exit status 1'' \<in>
     set (LastErrors (sampleReconciled\<lparr>LastErrors := [''formula upgrade failed: exit status 1''],
                       LastUpdateAt := Some 1793534400000000000,
                       LastCheckAt := Some 1793534400000000000\<rparr>))"
proof -
  note T1 = Run_package_manager_failures [OF sample_Run_update_fails]
  note T2 = Run_package_manager_failures [OF sample_Run_outdated_fails]
  note T3 = Run_package_manager_failures [OF sample_Run_upgrade_fails]
  from T1 [THEN conjunct1, rule_format, of False "''exit status 1''"] sample_failures(1)
  have a: "[CallUpdate False,
    CallNotify ''terminal-notifier'' ''brew-updater failed''
      ''brew update failed: exit status 1'' ''brew-updater status''] =
     CallUpdate False # notifyFailure (sampleConfig twoItems) ''brew update failed'' ''exit status 1''"
    and bk: "sameBookkeeping (reconciledOf (sampleEnv [''update'']) (sampleConfig twoItems) DefaultState)
     (sampleReconciled\<lparr>LastErrors := [''brew update failed: exit status 1''],
                       LastCheckAt := Some 1793534400000000000\<rparr>)"
    by simp_all
  from T2 [THEN conjunct2, THEN conjunct1, rule_format, of "[''foo'']" "''exit status 1''"]
    sample_failures(2)
  have b: "''brew outdated formula failed: exit status 1'' \<in>
     set (LastErrors (sampleReconciled\<lparr>LastErrors := [''brew outdated formula failed: exit status 1''],
                       LastUpdateAt := Some 1793534400000000000,
                       LastCheckAt := Some 1793534400000000000\<rparr>))"
    by (simp add: sampleNotices_def)
  from T3 [THEN conjunct2, THEN conjunct2, THEN conjunct2, THEN conjunct1, rule_format,
      of "[''foo'']" False "''exit status 1''"] sample_failures(3)
  have c: "''formula upgrade failed: exit status 1'' \<in>
     set (LastErrors (sampleReconciled\<lparr>LastErrors := [''formula upgrade failed: exit status 1''],
                       LastUpdateAt := Some 1793534400000000000,
                       LastCheckAt := Some 1793534400000000000\<rparr>))"
    by (simp add: sampleNotices_def)
  from sample_Run_update_fails sample_failures a bk b c show ?thesis
    by blast
qed

text \<open>
  The claim as first stated fails when the outdated query fails: the failure is recorded,
  but the calls of the run hold no failure notice, and the formula upgrade is called all
  the same, with the name that was not verified. It fails when the formula upgrade fails
  as well: the cask upgrade is still called after the failure notice.
\<close>

theorem Run_package_manager_failures_counterexample:
  "Run (sampleEnv [''outdated'']) (sampleConfig twoItems) DefaultState sampleOptions =
     (sampleChecked\<lparr>Outdated := [hd sampleOutdated]\<rparr>, sampleConfig twoItems,
      sampleReconciled\<lparr>LastErrors := [''brew outdated formula failed: exit status 1''],
                       LastUpdateAt := Some 1793534400000000000,
                       LastCheckAt := Some 1793534400000000000\<rparr>,
      None,
      [CallUpdate False, CallOutdatedFormula [''foo''], CallUpgradeFormula [''foo''] False,
       CallUpgradeCask [] True False,
       CallNotify ''terminal-notifier'' ''brew-updater''
         (''foo 1.0.0 '' @ [CHR 0xE2, CHR 0x86, CHR 0x92] @ '' 1.1.0'') ''brew-updater upgrade foo'',
       CallNotify ''terminal-notifier'' ''brew-updater''
         (''bar 2.0.0 '' @ [CHR 0xE2, CHR 0x86, CHR 0x92] @ '' 2.1.0'') ''brew-updater upgrade bar'']) \<and>
   OutdatedFormula (sampleEnv [''outdated'']) [''foo''] = Inl ''exit status 1'' \<and>
   Run (sampleEnv [''upgrade'']) (sampleConfig twoItems) DefaultState sampleOptions =
     (sampleChecked\<lparr>Outdated := [hd sampleOutdated]\<rparr>, sampleConfig twoItems,
      sampleReconciled\<lparr>LastErrors := [''formula upgrade failed: exit status 1''],
                       LastUpdateAt := Some 1793534400000000000,
                       LastCheckAt := Some 1793534400000000000\<rparr>,
      None,
      [CallUpdate False, CallOutdatedFormula [''foo''], CallUpgradeFormula [''foo''] False,
       CallNotify ''terminal-notifier'' ''brew-updater failed''
         ''formula upgrade failed: exit status 1'' ''brew-updater status'',
       CallUpgradeCask [] True False,
       CallNotify ''terminal-notifier'' ''brew-updater''
         (''foo 1.0.0 '' @ [CHR 0xE2, CHR 0x86, CHR 0x92] @ '' 1.1.0'') ''brew-updater upgrade foo'',
       CallNotify ''terminal-notifier'' ''brew-updater''
         (''bar 2.0.0 '' @ [CHR 0xE2, CHR 0x86, CHR 0x92] @ '' 2.1.0'') ''brew-updater upgrade bar'']) \<and>
   UpgradeFormula (sampleEnv [''upgrade'']) [''foo''] False = Some ''exit status 1''"
  using sample_Run_outdated_fails sample_Run_upgrade_fails sample_failures(2,3)
  by (simp add: sampleNotices_def)

section \<open>More runs of the sample world\<close>

lemma same_prepare:
  "prepare (sampleEnv []) (sampleConfig sameName) DefaultState =
     Inr ([], sampleConfig sameNameTyped, DefaultState, [''formula:foo'' \<mapsto> ''1.0.0''])"
  by (simp add: prepare_def sample_ListInstalled normalizeStateKeys_def migrate_def
      installedVersion_def sampleConfig_def sampleItem_def DefaultState_def WatchKey_def
      cleanupStateKeys_def watched_def sameName_def sameNameTyped_def)

lemma same_due:
  "dueItems (sampleEnv []) (sampleConfig sameNameTyped) DefaultState t = sameNameTyped"
  by (simp add: dueItems_def isDue_def lookupNext_def sampleConfig_def sampleItem_def
      DefaultState_def WatchKey_def sameNameTyped_def)

lemma same_reconcile:
  "reconcile (sampleEnv []) 1793534400000000000 [''formula:foo'' \<mapsto> ''1.0.0'']
     (fetchLatest (sampleEnv []) sameNameTyped DefaultState) (DefaultState, []) =
   (zeroStateAfter\<lparr>LastCheckAt := None, LastUpdateAt := None\<rparr>, sameNameOutdated)"
  by (simp add: fetchLatest_def fetchOne_def sampleEnv_def sampleFetch_def sampleItem_def
      DefaultState_def URLFor_def buildURL_def baseURL_def reconcileOne_def WatchKey_def
      sample_isOutdated minutes_small sampleFormat_def sameNameTyped_def Let_def
      zeroStateAfter_def sameNameOutdated_def)

lemma same_Run:
  "Run (sampleEnv []) (sampleConfig sameName) DefaultState sampleOptions =
   (\<lparr>Checked = 2, CheckedNames = [''foo'', ''foo''], Outdated = sameNameOutdated,
      Removed = [], Errors = []\<rparr>,
    sampleConfig sameNameTyped, zeroStateAfter, None,
    [CallUpdate False, CallOutdatedFormula [''foo''], CallUpgradeFormula [''foo''] False,
     CallUpgradeCask [] True False, hd sampleNotices, hd sampleNotices])"
proof -
  have n: "sameNameTyped \<noteq> []" "length sameNameTyped = 2"
    "namesFromItems sameNameTyped = [''foo'', ''foo'']"
    by (simp_all add: sameNameTyped_def namesFromItems_def sampleItem_def)
  show ?thesis
    apply (simp add: Run_def same_prepare same_due sample_clock same_reconcile n emptyResult_def)
    apply (simp add: dispatch_def upgradeAll_def updateFailed_def verifyFormula_def verifyCask_def
      runUpgradeFormula_def runUpgradeCask_def Update_def UpgradeFormula_def UpgradeCask_def
      OutdatedFormula_def OutdatedCask_def splitByType_def effectivePolicy_def filterOutdated_def
      notifyUpdates_def notifyFailure_def appendError_def updateMessage_def WatchKey_def Let_def
      sampleEnv_def sampleBrew_def sampleConfig_def sampleOptions_def sameNameOutdated_def
      sampleItem_def sample_parseOutdated sample_TrimSpace zeroStateAfter_def sampleNotices_def)
    done
qed

lemma stray_ListInstalled:
  "ListInstalled strayEnv = Inr ([''foo'' \<mapsto> ''1.0.0'', ''bar'' \<mapsto> ''2.0.0''], Map.empty)"
  by (simp add: ListInstalled_def listVersions_def strayEnv_def strayBrew_def sampleEnv_def
      sampleBrew_def TrimSpace_empty sample_TrimSpace sample_Fields)


lemma one_prepare:
  assumes "ListInstalled e = Inr ([''foo'' \<mapsto> ''1.0.0'', ''bar'' \<mapsto> ''2.0.0''], Map.empty)"
  shows "prepare e (sampleConfig oneItem) DefaultState =
     Inr ([], sampleConfig oneItem, DefaultState, [''formula:foo'' \<mapsto> ''1.0.0''])"
  by (simp add: prepare_def assms normalizeStateKeys_def migrate_def
      installedVersion_def sampleConfig_def sampleItem_def DefaultState_def WatchKey_def
      cleanupStateKeys_def watched_def oneItem_def)

lemma one_due: "dueItems e (sampleConfig oneItem) DefaultState t = oneItem"
  by (simp add: dueItems_def isDue_def lookupNext_def sampleConfig_def sampleItem_def
      DefaultState_def WatchKey_def oneItem_def)

lemma stray_reconcile:
  "reconcile strayEnv 1793534400000000000 [''formula:foo'' \<mapsto> ''1.0.0'']
     (fetchLatest strayEnv oneItem DefaultState) (DefaultState, []) =
   (zeroStateAfter\<lparr>LastCheckAt := None, LastUpdateAt := None\<rparr>, [hd sampleOutdated])"
  by (simp add: fetchLatest_def fetchOne_def strayEnv_def sampleEnv_def sampleFetch_def sampleItem_def
      DefaultState_def URLFor_def buildURL_def baseURL_def reconcileOne_def WatchKey_def
      sample_isOutdated minutes_small sampleFormat_def oneItem_def Let_def
      zeroStateAfter_def sampleOutdated_def)

lemma stray_Run:
  "Run strayEnv (sampleConfig oneItem) DefaultState sampleOptions =
   (\<lparr>Checked = 1, CheckedNames = [''foo''], Outdated = [], Removed = [], Errors = []\<rparr>,
    sampleConfig oneItem, zeroStateAfter, None,
    [CallUpdate False, CallOutdatedFormula [''foo''], CallUpgradeFormula [''bar''] False,
     CallUpgradeCask [] True False, hd sampleNotices])"
proof -
  have n: "oneItem \<noteq> []" "length oneItem = 1" "namesFromItems oneItem = [''foo'']"
    by (simp_all add: oneItem_def namesFromItems_def sampleItem_def)
  have c: "clock strayEnv k = 1793534400000000000" for k
    by (simp add: strayEnv_def sampleEnv_def)
  show ?thesis
    apply (simp add: Run_def one_prepare [OF stray_ListInstalled] one_due c stray_reconcile n
        emptyResult_def)
    apply (simp add: dispatch_def upgradeAll_def updateFailed_def verifyFormula_def verifyCask_def
      runUpgradeFormula_def runUpgradeCask_def Update_def UpgradeFormula_def UpgradeCask_def
      OutdatedFormula_def OutdatedCask_def splitByType_def effectivePolicy_def filterOutdated_def
      notifyUpdates_def notifyFailure_def appendError_def updateMessage_def WatchKey_def Let_def
      strayEnv_def strayBrew_def sampleEnv_def sampleBrew_def sampleConfig_def sampleOptions_def
      sampleOutdated_def sampleItem_def sample_parseOutdated sample_TrimSpace zeroStateAfter_def
      sampleNotices_def)
    done
qed




section \<open>Which names reach the upgrade operations, whatever the package manager answers\<close>

lemma upgradeAll_passed:
  assumes ua: "upgradeAll e cfg st opts now res outdated [CallUpdate v0] = (res', cfg', st', er, calls)"
  shows "CallUpgradeFormula names v \<in> set calls \<Longrightarrow> n \<in> set names \<Longrightarrow>
           (\<exists>x \<in> set outdated. Name (Item x) = n \<and> Type (Item x) \<noteq> ''cask'' \<and>
              effectivePolicy cfg (Item x) = ''auto'' \<and>
              (Type (Item x) = ''formula'' \<longrightarrow> x \<in> set (Outdated res'))) \<or>
           (\<exists>asked ns. CallOutdatedFormula asked \<in> set calls \<and>
              OutdatedFormula e asked = Inr ns \<and> n \<in> set ns \<and> n \<notin> set asked)"
    and "CallUpgradeCask names g v \<in> set calls \<Longrightarrow> n \<in> set names \<Longrightarrow>
           (\<exists>x \<in> set outdated. Name (Item x) = n \<and> Type (Item x) = ''cask'' \<and>
              effectivePolicy cfg (Item x) = ''auto'' \<and> x \<in> set (Outdated res')) \<or>
           (\<exists>asked g' ns. CallOutdatedCask asked g' \<in> set calls \<and>
              OutdatedCask e asked g' = Inr ns \<and> n \<in> set ns \<and> n \<notin> set asked)"
proof -
  from ua obtain f0 c0 f1 st1 k1 c1 st2 k2 st3 k3 st4 k4 where
    s: "splitByType outdated cfg = (f0, c0)"
    and vf: "verifyFormula e st f0 = (f1, st1, k1)"
    and vc: "verifyCask e cfg st1 c0 = (c1, st2, k2)"
    and uf: "runUpgradeFormula e cfg opts st2 f1 = (st3, k3)"
    and uc: "runUpgradeCask e cfg opts st3 c1 = (st4, k4)"
    and out: "(res', cfg', st', er, calls) =
     (if f1 = [] \<and> c1 = [] then (res, cfg, st2\<lparr>LastCheckAt := Some now\<rparr>, None,
          [CallUpdate v0] @ k1 @ k2)
      else (res\<lparr>Outdated := filterOutdated outdated f1 c1\<rparr>, cfg,
            st4\<lparr>LastUpdateAt := Some (clock e 1), LastCheckAt := Some (clock e 2)\<rparr>, None,
            [CallUpdate v0] @ k1 @ k2 @ k3 @ k4 @ notifyUpdates cfg outdated ''Updated'' False))"
    by (rule upgradeAll_cases)
  note k1 = verifyFormula_calls [OF vf] and k2 = verifyCask_calls [OF vc]
    and k3 = runUpgradeFormula_calls [OF uf] and k4 = runUpgradeCask_calls [OF uc]
  have calls_cases:
    "calls = [CallUpdate v0] @ k1 @ k2 \<or>
     (calls = [CallUpdate v0] @ k1 @ k2 @ k3 @ k4 @ notifyUpdates cfg outdated ''Updated'' False \<and>
      res' = res\<lparr>Outdated := filterOutdated outdated f1 c1\<rparr>)"
    using out by (auto split: if_splits)
  have f1_cases: "n \<in> set f0 \<or>
      (CallOutdatedFormula f0 \<in> set calls \<and> OutdatedFormula e f0 = Inr f1 \<and> n \<notin> set f0)"
    if "n \<in> set f1" for n
  proof (cases "n \<in> set f0")
    case True
    then show ?thesis by simp
  next
    case False
    with that verifyFormula_names [OF vf] have a: "f0 \<noteq> [] \<and> OutdatedFormula e f0 = Inr f1"
      by auto
    then have "CallOutdatedFormula f0 \<in> set calls"
      using calls_cases k1 by auto
    with a False show ?thesis by simp
  qed
  have c1_cases: "n \<in> set c0 \<or>
      (CallOutdatedCask c0 (IncludeAutoUpdateCask cfg) \<in> set calls \<and>
       OutdatedCask e c0 (IncludeAutoUpdateCask cfg) = Inr c1 \<and> n \<notin> set c0)"
    if "n \<in> set c1" for n
  proof (cases "n \<in> set c0")
    case True
    then show ?thesis by simp
  next
    case False
    with that verifyCask_names [OF vc]
    have a: "c0 \<noteq> [] \<and> OutdatedCask e c0 (IncludeAutoUpdateCask cfg) = Inr c1"
      by auto
    then have "CallOutdatedCask c0 (IncludeAutoUpdateCask cfg) \<in> set calls"
      using calls_cases k2 by auto
    with a False show ?thesis by simp
  qed
  {
    assume c: "CallUpgradeFormula names v \<in> set calls" and n: "n \<in> set names"
    from c calls_cases have r: "res' = res\<lparr>Outdated := filterOutdated outdated f1 c1\<rparr>"
      and "CallUpgradeFormula names v \<in> set (k3 @ k4 @ notifyUpdates cfg outdated ''Updated'' False)"
      using k1 k2 by (auto split: if_splits)
    then have nf: "names = f1"
      using k3 k4 by (auto simp: notifyFailure_def dest: notifyUpdates_calls split: option.splits)
    from f1_cases [of n] n nf have "n \<in> set f0 \<or>
      (CallOutdatedFormula f0 \<in> set calls \<and> OutdatedFormula e f0 = Inr f1 \<and> n \<notin> set f0)"
      by simp
    then show "(\<exists>x \<in> set outdated. Name (Item x) = n \<and> Type (Item x) \<noteq> ''cask'' \<and>
              effectivePolicy cfg (Item x) = ''auto'' \<and>
              (Type (Item x) = ''formula'' \<longrightarrow> x \<in> set (Outdated res'))) \<or>
           (\<exists>asked ns. CallOutdatedFormula asked \<in> set calls \<and>
              OutdatedFormula e asked = Inr ns \<and> n \<in> set ns \<and> n \<notin> set asked)"
    proof
      assume "n \<in> set f0"
      then obtain x where x: "x \<in> set outdated" "Name (Item x) = n"
        "effectivePolicy cfg (Item x) = ''auto''" "Type (Item x) \<noteq> ''cask''"
        unfolding splitByType_sets(1) [OF s] by auto
      moreover have "x \<in> set (Outdated res')" if "Type (Item x) = ''formula''"
        using filterOutdated_formula [OF x(1) that, of f1 c1] x(2) n nf r by simp
      ultimately show ?thesis by blast
    next
      assume "CallOutdatedFormula f0 \<in> set calls \<and> OutdatedFormula e f0 = Inr f1 \<and> n \<notin> set f0"
      with n nf show ?thesis by blast
    qed
  }
  {
    assume c: "CallUpgradeCask names g v \<in> set calls" and n: "n \<in> set names"
    from c calls_cases have r: "res' = res\<lparr>Outdated := filterOutdated outdated f1 c1\<rparr>"
      and "CallUpgradeCask names g v \<in> set (k3 @ k4 @ notifyUpdates cfg outdated ''Updated'' False)"
      using k1 k2 by (auto split: if_splits)
    then have nc: "names = c1"
      using k3 k4 by (auto simp: notifyFailure_def dest: notifyUpdates_calls split: option.splits)
    from c1_cases [of n] n nc have "n \<in> set c0 \<or>
      (CallOutdatedCask c0 (IncludeAutoUpdateCask cfg) \<in> set calls \<and>
       OutdatedCask e c0 (IncludeAutoUpdateCask cfg) = Inr c1 \<and> n \<notin> set c0)"
      by simp
    then show "(\<exists>x \<in> set outdated. Name (Item x) = n \<and> Type (Item x) = ''cask'' \<and>
              effectivePolicy cfg (Item x) = ''auto'' \<and> x \<in> set (Outdated res')) \<or>
           (\<exists>asked g' ns. CallOutdatedCask asked g' \<in> set calls \<and>
              OutdatedCask e asked g' = Inr ns \<and> n \<in> set ns \<and> n \<notin> set asked)"
    proof
      assume "n \<in> set c0"
      then obtain x where x: "x \<in> set outdated" "Name (Item x) = n"
        "effectivePolicy cfg (Item x) = ''auto''" "Type (Item x) = ''cask''"
        unfolding splitByType_sets(2) [OF s] by auto
      moreover have "x \<in> set (Outdated res')"
        using filterOutdated_cask [OF x(1) x(4), of c1 f1] x(2) n nc r by simp
      ultimately show ?thesis by blast
    next
      assume "CallOutdatedCask c0 (IncludeAutoUpdateCask cfg) \<in> set calls \<and>
       OutdatedCask e c0 (IncludeAutoUpdateCask cfg) = Inr c1 \<and> n \<notin> set c0"
      with n nc show ?thesis by blast
    qed
  }
qed

text \<open>
  C1, as amended. In a run, every name passed to the formula upgrade operation is the name
  of an item of the outdated set the run reports, of kind formula, whose policy, or the
  default policy where the item has none, is auto, or it is a name that the package manager
  returned to an outdated query of the run beyond the names it was asked about; likewise
  for the cask upgrade operation and kind cask. So the name of an outdated item that is to
  be notified only is passed to an upgrade operation only if an outdated item of that kind
  and name has policy auto, or the package manager's answer added the name. Nothing is
  assumed about the options. The fetch workers return results only for the items they were
  given.
\<close>

theorem Run_upgrades_only_auto:
  assumes run: "Run e cfg st opts = (res, cfg', st', er, calls)"
    and sched: "\<forall>xs. set (schedule e xs) \<subseteq> set xs"
  shows "(\<forall>names v. CallUpgradeFormula names v \<in> set calls \<longrightarrow>
            (\<forall>n \<in> set names.
               (\<exists>x \<in> set (Outdated res).
                  Name (Item x) = n \<and> Type (Item x) = ''formula'' \<and>
                  effectivePolicy cfg' (Item x) = ''auto'') \<or>
               (\<exists>asked ns. CallOutdatedFormula asked \<in> set calls \<and>
                  OutdatedFormula e asked = Inr ns \<and> n \<in> set ns \<and> n \<notin> set asked))) \<and>
         (\<forall>names g v. CallUpgradeCask names g v \<in> set calls \<longrightarrow>
            (\<forall>n \<in> set names.
               (\<exists>x \<in> set (Outdated res).
                  Name (Item x) = n \<and> Type (Item x) = ''cask'' \<and>
                  effectivePolicy cfg' (Item x) = ''auto'') \<or>
               (\<exists>asked g' ns. CallOutdatedCask asked g' \<in> set calls \<and>
                  OutdatedCask e asked g' = Inr ns \<and> n \<in> set ns \<and> n \<notin> set asked)))"
  using run
proof (cases rule: Run_cases)
  case (failed er)
  then show ?thesis by simp
next
  case (idle removed cfg1 st3 installed)
  then show ?thesis by simp
next
  case (active removed cfg1 st3 installed st4 outdated)
  let ?res = "emptyResult\<lparr>Removed := removed,
                Checked := length (dueItems e cfg1 st3 (clock e 0)),
                CheckedNames := namesFromItems (dueItems e cfg1 st3 (clock e 0)),
                Outdated := outdated\<rparr>"
  from active(4) have d: "dispatch e cfg1 st4 opts (clock e 0) ?res outdated = (res, cfg', st', er, calls)"
    by simp
  from dispatch_frame [OF d] have cfg': "cfg' = cfg1" by simp
  from d show ?thesis
  proof (cases rule: dispatch_cases)
    case (refresh_failed x)
    then show ?thesis by (auto simp: updateFailed_def notifyFailure_def)
  next
    case (none_outdated k0)
    then show ?thesis by auto
  next
    case notice_only
    then show ?thesis by (auto dest: notifyUpdates_calls)
  next
    case upgrade
    note ua = upgrade(4) [symmetric]
    have ty: "Type (Item x) = ''formula'' \<or> Type (Item x) = ''cask''" if "x \<in> set outdated" for x
      using Run_outdated_types [OF active(1) active(3) sched that] .
    show ?thesis
    proof (intro conjI allI impI ballI)
      fix names v n
      assume "CallUpgradeFormula names v \<in> set calls" "n \<in> set names"
      from upgradeAll_passed(1) [OF ua this] ty
      show "(\<exists>x \<in> set (Outdated res).
                  Name (Item x) = n \<and> Type (Item x) = ''formula'' \<and>
                  effectivePolicy cfg' (Item x) = ''auto'') \<or>
               (\<exists>asked ns. CallOutdatedFormula asked \<in> set calls \<and>
                  OutdatedFormula e asked = Inr ns \<and> n \<in> set ns \<and> n \<notin> set asked)"
        unfolding cfg' by blast
    next
      fix names g v n
      assume "CallUpgradeCask names g v \<in> set calls" "n \<in> set names"
      from upgradeAll_passed(2) [OF ua this]
      show "(\<exists>x \<in> set (Outdated res).
                  Name (Item x) = n \<and> Type (Item x) = ''cask'' \<and>
                  effectivePolicy cfg' (Item x) = ''auto'') \<or>
               (\<exists>asked g' ns. CallOutdatedCask asked g' \<in> set calls \<and>
                  OutdatedCask e asked g' = Inr ns \<and> n \<in> set ns \<and> n \<notin> set asked)"
        unfolding cfg' by blast
    qed
  qed
qed

lemma stray_contract: "OutdatedFormula strayEnv [''foo''] = Inr [''bar'']"
  by (simp add: OutdatedFormula_def strayEnv_def strayBrew_def sample_parseOutdated)

theorem Run_upgrades_only_auto_witness:
  "Run strayEnv (sampleConfig oneItem) DefaultState sampleOptions =
     (\<lparr>Checked = 1, CheckedNames = [''foo''], Outdated = [], Removed = [], Errors = []\<rparr>,
      sampleConfig oneItem, zeroStateAfter, None,
      [CallUpdate False, CallOutdatedFormula [''foo''], CallUpgradeFormula [''bar''] False,
       CallUpgradeCask [] True False, hd sampleNotices]) \<and>
   (\<forall>xs. set (schedule strayEnv xs) \<subseteq> set xs) \<and>
   (\<exists>asked ns. CallOutdatedFormula asked \<in>
        set [CallUpdate False, CallOutdatedFormula [''foo''], CallUpgradeFormula [''bar''] False,
             CallUpgradeCask [] True False, hd sampleNotices] \<and>
      OutdatedFormula strayEnv asked = Inr ns \<and> ''bar'' \<in> set ns \<and> ''bar'' \<notin> set asked) \<and>
   Run (sampleEnv []) (sampleConfig twoItems) DefaultState sampleOptions =
     (sampleChecked\<lparr>Outdated := [hd sampleOutdated]\<rparr>, sampleConfig twoItems,
      sampleReconciled\<lparr>LastUpdateAt := Some 1793534400000000000,
                       LastCheckAt := Some 1793534400000000000\<rparr>,
      None,
      [CallUpdate False, CallOutdatedFormula [''foo''], CallUpgradeFormula [''foo''] False,
       CallUpgradeCask [] True False] @ sampleNotices) \<and>
   (\<forall>xs. set (schedule (sampleEnv []) xs) \<subseteq> set xs) \<and>
   OutdatedFormula (sampleEnv []) [''foo''] = Inr [''foo''] \<and>
   (\<exists>x \<in> set (Outdated (sampleChecked\<lparr>Outdated := [hd sampleOutdated]\<rparr>)).
      Name (Item x) = ''foo'' \<and> Type (Item x) = ''formula'' \<and>
      effectivePolicy (sampleConfig twoItems) (Item x) = ''auto'') \<and>
   effectivePolicy (sampleConfig twoItems) (Item (sampleOutdated ! 1)) = ''notify''"
proof -
  let ?calls = "[CallUpdate False, CallOutdatedFormula [''foo''], CallUpgradeFormula [''foo''] False,
       CallUpgradeCask [] True False] @ sampleNotices"
  let ?stray = "[CallUpdate False, CallOutdatedFormula [''foo''], CallUpgradeFormula [''bar''] False,
       CallUpgradeCask [] True False, hd sampleNotices]"
  have ss: "\<forall>xs. set (schedule strayEnv xs) \<subseteq> set xs"
    by (simp add: strayEnv_def sampleEnv_def)
  have u: "CallUpgradeFormula [''foo''] False \<in> set ?calls" by simp
  have us: "CallUpgradeFormula [''bar''] False \<in> set ?stray" by simp
  have n: "effectivePolicy (sampleConfig twoItems) (Item (sampleOutdated ! 1)) = ''notify''"
    by (simp add: effectivePolicy_def sampleOutdated_def sampleItem_def)
  have no: "\<not> (\<exists>asked ns. CallOutdatedFormula asked \<in> set ?calls \<and>
      OutdatedFormula (sampleEnv []) asked = Inr ns \<and> ''foo'' \<in> set ns \<and> ''foo'' \<notin> set asked)"
    by (auto simp: sampleNotices_def)
  have m: "''foo'' \<in> set [''foo'']" "''bar'' \<in> set [''bar'']"
    by simp_all
  from Run_upgrades_only_auto [OF sample_Run_ok sample_schedule, THEN conjunct1, rule_format, OF u m(1)]
    no
  have a: "\<exists>x \<in> set (Outdated (sampleChecked\<lparr>Outdated := [hd sampleOutdated]\<rparr>)).
      Name (Item x) = ''foo'' \<and> Type (Item x) = ''formula'' \<and>
      effectivePolicy (sampleConfig twoItems) (Item x) = ''auto''"
    by blast
  from Run_upgrades_only_auto [OF stray_Run ss, THEN conjunct1, rule_format, OF us m(2)]
  have b: "\<exists>asked ns. CallOutdatedFormula asked \<in> set ?stray \<and>
      OutdatedFormula strayEnv asked = Inr ns \<and> ''bar'' \<in> set ns \<and> ''bar'' \<notin> set asked"
    by simp
  from a b show ?thesis
    using sample_Run_ok stray_Run sample_schedule ss sample_contract n by simp
qed

text \<open>
  The claim as first stated fails in two ways. When the watchlist has two entries for
  foo, the first to be notified only and the second to be upgraded, both are outdated, and
  the name of the first is passed to the formula upgrade. When the package manager answers
  bar to the outdated query about foo, bar is passed to the formula upgrade, and no
  outdated item has that name.
\<close>

theorem Run_upgrades_only_auto_counterexample:
  "Run (sampleEnv []) (sampleConfig sameName) DefaultState sampleOptions =
     (\<lparr>Checked = 2, CheckedNames = [''foo'', ''foo''], Outdated = sameNameOutdated,
        Removed = [], Errors = []\<rparr>,
      sampleConfig sameNameTyped, zeroStateAfter, None,
      [CallUpdate False, CallOutdatedFormula [''foo''], CallUpgradeFormula [''foo''] False,
       CallUpgradeCask [] True False, hd sampleNotices, hd sampleNotices]) \<and>
   hd sameNameOutdated =
     \<lparr>Item = sampleItem ''foo'' ''formula'' ''notify'' 10, Installed = ''1.0.0'', Latest = ''1.1.0''\<rparr> \<and>
   effectivePolicy (sampleConfig sameNameTyped) (Item (hd sameNameOutdated)) = ''notify'' \<and>
   Name (Item (hd sameNameOutdated)) = ''foo'' \<and>
   Run strayEnv (sampleConfig oneItem) DefaultState sampleOptions =
     (\<lparr>Checked = 1, CheckedNames = [''foo''], Outdated = [], Removed = [], Errors = []\<rparr>,
      sampleConfig oneItem, zeroStateAfter, None,
      [CallUpdate False, CallOutdatedFormula [''foo''], CallUpgradeFormula [''bar''] False,
       CallUpgradeCask [] True False, hd sampleNotices]) \<and>
   outdatedOf strayEnv (sampleConfig oneItem) DefaultState = [hd sampleOutdated] \<and>
   Name (Item (hd sampleOutdated)) = ''foo''"
proof -
  have c: "clock strayEnv k = 1793534400000000000" for k
    by (simp add: strayEnv_def sampleEnv_def)
  have "oneItem \<noteq> []" by (simp add: oneItem_def)
  then have "resultsOf strayEnv (sampleConfig oneItem) DefaultState =
      fetchLatest strayEnv oneItem DefaultState"
    by (simp add: resultsOf_def one_prepare [OF stray_ListInstalled] one_due)
  then have "outdatedOf strayEnv (sampleConfig oneItem) DefaultState = [hd sampleOutdated]"
    by (simp add: outdatedOf_def one_prepare [OF stray_ListInstalled] c stray_reconcile)
  with same_Run stray_Run show ?thesis
    by (simp add: sameNameOutdated_def effectivePolicy_def sampleItem_def sampleOutdated_def)
qed

section \<open>Next-check times and the due set\<close>





text \<open>The pruning loop: the last schemes are not touched, an entry is deleted only under the
  key or the bare name of an item that is not installed, and with a kind the survivors are
  items of the old watchlist.\<close>

lemma pruneLoop_schemes:
  "pruneLoop f c items acc = (removed', st', inst', filtered') \<Longrightarrow>
     LastSchemes st' = LastSchemes (fst (snd acc))"
proof (induction items arbitrary: acc)
  case Nil
  then show ?case by auto
next
  case (Cons it items)
  obtain rm s0 ins fl where acc: "acc = (rm, s0, ins, fl)"
    by (cases acc) auto
  obtain v ty ok where iv: "installedVersion f c it = (v, ty, ok)"
    by (cases "installedVersion f c it") auto
  show ?case
  proof (cases ok)
    case True
    with Cons.IH [of "(rm, s0, ins(WatchKey (Name it) ty \<mapsto> v), fl @ [it\<lparr>Type := ty\<rparr>])"]
      Cons.prems iv
    show ?thesis by (simp add: acc)
  next
    case False
    with Cons.IH [of "(rm @ [it],
        s0\<lparr>NextCheckAt := (NextCheckAt s0)(WatchKey (Name it) (Type it) := None, Name it := None),
           LastVersions := (LastVersions s0)(WatchKey (Name it) (Type it) := None, Name it := None)\<rparr>,
        ins, fl)"] Cons.prems iv
    show ?thesis by (simp add: acc)
  qed
qed

lemma pruneLoop_kept:
  "pruneLoop f c items acc = (removed', st', inst', filtered') \<Longrightarrow>
   \<forall>it \<in> set items. k = WatchKey (Name it) (Type it) \<or> k = Name it \<longrightarrow>
      snd (snd (installedVersion f c it)) \<Longrightarrow>
     NextCheckAt st' k = NextCheckAt (fst (snd acc)) k \<and>
     LastVersions st' k = LastVersions (fst (snd acc)) k"
proof (induction items arbitrary: acc)
  case Nil
  then show ?case by auto
next
  case (Cons it items)
  obtain rm s0 ins fl where acc: "acc = (rm, s0, ins, fl)"
    by (cases acc) auto
  obtain v ty ok where iv: "installedVersion f c it = (v, ty, ok)"
    by (cases "installedVersion f c it") auto
  from Cons.prems(2) have rest: "\<forall>it \<in> set items. k = WatchKey (Name it) (Type it) \<or> k = Name it \<longrightarrow>
      snd (snd (installedVersion f c it))"
    by simp
  show ?case
  proof (cases ok)
    case True
    with Cons.IH [of "(rm, s0, ins(WatchKey (Name it) ty \<mapsto> v), fl @ [it\<lparr>Type := ty\<rparr>])"]
      Cons.prems(1) iv rest
    show ?thesis by (simp add: acc)
  next
    case False
    with Cons.prems(2) iv have "k \<noteq> WatchKey (Name it) (Type it)" "k \<noteq> Name it"
      by auto
    with False Cons.IH [of "(rm @ [it],
        s0\<lparr>NextCheckAt := (NextCheckAt s0)(WatchKey (Name it) (Type it) := None, Name it := None),
           LastVersions := (LastVersions s0)(WatchKey (Name it) (Type it) := None, Name it := None)\<rparr>,
        ins, fl)"] Cons.prems(1) iv rest
    show ?thesis by (simp add: acc)
  qed
qed

lemma installedVersion_kind:
  "Type it = ''formula'' \<or> Type it = ''cask'' \<Longrightarrow> fst (snd (installedVersion f c it)) = Type it"
  by (auto simp: installedVersion_def split: option.splits)

lemma pruneLoop_survivors:
  "pruneLoop f c items acc = (removed', st', inst', filtered') \<Longrightarrow>
   \<forall>it \<in> set items. Type it = ''formula'' \<or> Type it = ''cask'' \<Longrightarrow>
   w \<in> set filtered' \<Longrightarrow>
     w \<in> set (snd (snd (snd acc))) \<or> (w \<in> set items \<and> snd (snd (installedVersion f c w)))"
proof (induction items arbitrary: acc)
  case Nil
  then show ?case by auto
next
  case (Cons it items)
  obtain rm s0 ins fl where acc: "acc = (rm, s0, ins, fl)"
    by (cases acc) auto
  obtain v ty ok where iv: "installedVersion f c it = (v, ty, ok)"
    by (cases "installedVersion f c it") auto
  from Cons.prems(2) have rest: "\<forall>it \<in> set items. Type it = ''formula'' \<or> Type it = ''cask''"
    by simp
  show ?case
  proof (cases ok)
    case True
    from Cons.prems(2) installedVersion_kind [of it f c] iv have "ty = Type it"
      by simp
    then have same: "it\<lparr>Type := ty\<rparr> = it" by simp
    from Cons.IH [of "(rm, s0, ins(WatchKey (Name it) ty \<mapsto> v), fl @ [it])", OF _ rest Cons.prems(3)]
      Cons.prems(1) iv True same
    show ?thesis by (auto simp: acc)
  next
    case False
    with Cons.IH [of "(rm @ [it],
        s0\<lparr>NextCheckAt := (NextCheckAt s0)(WatchKey (Name it) (Type it) := None, Name it := None),
           LastVersions := (LastVersions s0)(WatchKey (Name it) (Type it) := None, Name it := None)\<rparr>,
        ins, fl)", OF _ rest Cons.prems(3)] Cons.prems(1) iv
    show ?thesis by (auto simp: acc)
  qed
qed

lemma installedVersion_key:
  "Name a = Name b \<Longrightarrow> Type a = Type b \<Longrightarrow> installedVersion f c a = installedVersion f c b"
  by (simp add: installedVersion_def cong: option.case_cong)

text \<open>The state after the snapshot, the migration, the pruning and the collection of
  unwatched keys, for a state filed under bare names.\<close>

lemma prepare_copied:
  assumes kinds: "\<forall>w \<in> set (Watchlist cfg). Type w = ''formula'' \<or> Type w = ''cask''"
    and bare: "\<forall>w \<in> set (Watchlist cfg). WatchKey (Name w) (Type w) \<notin> perItemKeys st"
    and apart: "\<forall>w \<in> set (Watchlist cfg). \<forall>w' \<in> set (Watchlist cfg).
                  Name w \<noteq> WatchKey (Name w') (Type w')"
    and prep: "prepare e cfg st = Inr (removed, cfg1, st3, installed)"
    and w: "w \<in> set (Watchlist cfg1)"
  shows "w \<in> set (Watchlist cfg)"
    and "NextCheckAt st3 (WatchKey (Name w) (Type w)) = NextCheckAt st (Name w)"
    and "LastVersions st3 (WatchKey (Name w) (Type w)) = LastVersions st (Name w)"
    and "LastSchemes st3 (WatchKey (Name w) (Type w)) = LastSchemes st (Name w)"
    and "LastSchemes st3 (Name w) = LastSchemes st (Name w)"
proof -
  let ?k = "WatchKey (Name w) (Type w)"
  from prep obtain f c st2 where
    p: "pruneLoop f c (Watchlist cfg) ([], normalizeStateKeys cfg st, Map.empty, []) =
          (removed, st2, installed, Watchlist cfg1)"
    and st3: "st3 = cleanupStateKeys cfg1 st2"
    by (auto simp: prepare_def split: sum.splits prod.splits)
  from pruneLoop_survivors [OF p kinds w]
  have old: "w \<in> set (Watchlist cfg)" and ok: "snd (snd (installedVersion f c w))"
    by simp_all
  show "w \<in> set (Watchlist cfg)" by (rule old)
  have "\<forall>it \<in> set (Watchlist cfg). ?k = WatchKey (Name it) (Type it) \<or> ?k = Name it \<longrightarrow>
      snd (snd (installedVersion f c it))"
  proof (intro ballI impI)
    fix it
    assume it: "it \<in> set (Watchlist cfg)"
      and "?k = WatchKey (Name it) (Type it) \<or> ?k = Name it"
    with apart old have "WatchKey (Name w) (Type w) = WatchKey (Name it) (Type it)"
      by metis
    with kinds it old WatchKey_kinds [of "Type w" "Type it" "Name w" "Name it"]
    have "Name w = Name it" "Type w = Type it" by auto
    with ok installedVersion_key [of w it f c] show "snd (snd (installedVersion f c it))"
      by simp
  qed
  from pruneLoop_kept [OF p this] pruneLoop_schemes [OF p]
  have st2: "NextCheckAt st2 ?k = NextCheckAt (normalizeStateKeys cfg st) ?k"
    "LastVersions st2 ?k = LastVersions (normalizeStateKeys cfg st) ?k"
    "LastSchemes st2 = LastSchemes (normalizeStateKeys cfg st)"
    by simp_all
  have in_w: "?k \<in> watched cfg1" "Name w \<in> watched cfg1"
    using w by (auto simp: watched_def)
  show "NextCheckAt st3 ?k = NextCheckAt st (Name w)"
    using in_w st2 normalize_copied(1) [OF kinds bare apart old]
    by (simp add: st3 cleanupStateKeys_def)
  show "LastVersions st3 ?k = LastVersions st (Name w)"
    using in_w st2 normalize_copied(2) [OF kinds bare apart old]
    by (simp add: st3 cleanupStateKeys_def)
  show "LastSchemes st3 ?k = LastSchemes st (Name w)"
    using in_w st2 normalize_copied(3) [OF kinds bare apart old]
    by (simp add: st3 cleanupStateKeys_def)
  show "LastSchemes st3 (Name w) = LastSchemes st (Name w)"
    using in_w st2 normalize_copied(6) [OF kinds bare apart old]
    by (simp add: st3 cleanupStateKeys_def)
qed

end
